(* ===== verification/Takapu_Prelude.thy ===== *)
theory Takapu_Prelude
  imports Complex_Main "HOL-Library.Word"
begin

text \<open>
  What every component of the development shares: the widths of Go's unsigned integers,
  results of fallible functions (\<open>'e + 'a\<close>, \<open>Inl\<close> for a returned error) with their
  sequencing operators and elimination rules, byte slices, and the lemma collections
  \<open>res_simps\<close> (inversion of successful results) and \<open>bytes_simps\<close> (fixed-width byte
  encodings).
\<close>

unbundle bit_operations_syntax

named_theorems res_simps
named_theorems bytes_simps

type_synonym u8 = "8 word"
type_synonym u16 = "16 word"
type_synonym u32 = "32 word"
type_synonym u64 = "64 word"

text \<open>An Ethereum address is a \<open>[20]byte\<close> array: one of \<open>2 ^ 160\<close> values, compared with
  \<open>==\<close>; the zero value is \<open>0\<close>. Longer byte strings are lists.\<close>

type_synonym address = "160 word"
type_synonym bytes = "u8 list"

subsection \<open>Results\<close>

text \<open>\<open>if cond { return err }\<close> followed by the rest of the function is
  \<open>reject cond err rest\<close>; \<open>x, err := f(); if err != nil { return err }\<close> is
  \<open>attempt (f ..) (\<lambda>x. rest)\<close>; \<open>wrap_err\<close> is an error wrapped with \<open>%w\<close>.\<close>

definition reject :: "bool \<Rightarrow> 'e \<Rightarrow> ('e + 'a) \<Rightarrow> 'e + 'a" where
  "reject c e rest = (if c then Inl e else rest)"

definition attempt :: "('e + 'a) \<Rightarrow> ('a \<Rightarrow> 'e + 'b) \<Rightarrow> 'e + 'b" where
  "attempt m k = (case m of Inl e \<Rightarrow> Inl e | Inr a \<Rightarrow> k a)"

definition wrap_err :: "('e \<Rightarrow> 'f) \<Rightarrow> ('e + 'a) \<Rightarrow> 'f + 'a" where
  "wrap_err w m = (case m of Inl e \<Rightarrow> Inl (w e) | Inr a \<Rightarrow> Inr a)"

lemma reject_Inr [res_simps, simp]: "reject c e rest = Inr b \<longleftrightarrow> \<not> c \<and> rest = Inr b"
  by (simp add: reject_def)

lemma reject_Inl [res_simps]: "reject c e rest = Inl x \<longleftrightarrow> (c \<and> x = e) \<or> (\<not> c \<and> rest = Inl x)"
  by (auto simp: reject_def)

lemma reject_True [simp]: "reject True e rest = Inl e"
  by (simp add: reject_def)

lemma reject_False [simp]: "reject False e rest = rest"
  by (simp add: reject_def)

lemma attempt_simps [simp]: "attempt (Inl e) k = Inl e" "attempt (Inr a) k = k a"
  by (simp_all add: attempt_def)

lemma attempt_Inr [res_simps]: "attempt m k = Inr b \<longleftrightarrow> (\<exists>a. m = Inr a \<and> k a = Inr b)"
  by (cases m) simp_all

lemma attempt_Inl [res_simps]:
  "attempt m k = Inl x \<longleftrightarrow> m = Inl x \<or> (\<exists>a. m = Inr a \<and> k a = Inl x)"
  by (cases m) simp_all

lemma attempt_cong [fundef_cong]:
  "m = m' \<Longrightarrow> (\<And>a. m' = Inr a \<Longrightarrow> k a = k' a) \<Longrightarrow> attempt m k = attempt m' k'"
  by (cases m') simp_all

lemma wrap_err_simps [simp]: "wrap_err w (Inl e) = Inl (w e)" "wrap_err w (Inr a) = Inr a"
  by (simp_all add: wrap_err_def)

lemma wrap_err_Inr [res_simps, simp]: "wrap_err w m = Inr a \<longleftrightarrow> m = Inr a"
  by (cases m) simp_all

lemma wrap_err_Inl [res_simps]: "wrap_err w m = Inl x \<longleftrightarrow> (\<exists>e. m = Inl e \<and> x = w e)"
  by (cases m) auto

subsection \<open>Bounded search\<close>

lemma ex_le_Suc: "(\<exists>m\<le>Suc n. P m) \<longleftrightarrow> P 0 \<or> (\<exists>m\<le>n. P (Suc m))"
proof
  assume "\<exists>m\<le>Suc n. P m"
  then obtain m where "m \<le> Suc n" "P m" by blast
  then show "P 0 \<or> (\<exists>m\<le>n. P (Suc m))" by (cases m) auto
qed auto

lemma sorted_wrt_map_transfer:
  assumes "sorted_wrt R (map f xs)"
    and "\<And>x y. x \<in> set xs \<Longrightarrow> y \<in> set xs \<Longrightarrow> R (f x) (f y) \<Longrightarrow> S (g x) (g y)"
  shows "sorted_wrt S (map g xs)"
  using assms by (induction xs) auto

subsection \<open>Division\<close>

lemma int_le_div_iff: "0 < c \<Longrightarrow> a \<le> b div c \<longleftrightarrow> a * c \<le> (b :: int)"
proof
  assume c: "0 < c" and a: "a \<le> b div c"
  then have "a * c \<le> b div c * c" by simp
  also have "\<dots> \<le> b" using c by (metis div_mult_mod_eq le_add_same_cancel1 pos_mod_sign)
  finally show "a * c \<le> b" .
next
  assume c: "0 < c" and a: "a * c \<le> b"
  then have "a * c div c \<le> b div c" by (intro zdiv_mono1)
  then show "a \<le> b div c" using c by simp
qed

subsection \<open>Widening a uint32\<close>

lemma unat_u32_less: "unat (x :: u32) < 2 ^ 32"
  using unsigned_less [of x] by simp

lemma unat_u64_of_u32 [simp]: "unat (ucast (x :: u32) :: u64) = unat x"
  using unat_u32_less [of x] by (simp add: unsigned_ucast_eq take_bit_nat_eq_self)

lemma unat_u64_add_u32 [simp]: "unat (ucast (a :: u32) + ucast (b :: u32) :: u64) = unat a + unat b"
  using unat_u32_less [of a] unat_u32_less [of b] by (simp add: unat_word_ariths)

lemma unat_u64_sub_u32: "b \<le> a \<Longrightarrow> unat (ucast (a :: u32) - ucast (b :: u32) :: u64) = unat a - unat b"
  by (simp add: unat_sub word_le_nat_alt)

subsection \<open>Slices\<close>

definition slice_of :: "'a list \<Rightarrow> nat \<Rightarrow> nat \<Rightarrow> 'a list" where
  "slice_of xs i j = take (j - i) (drop i xs)"

definition put_at :: "'a list \<Rightarrow> nat \<Rightarrow> 'a list \<Rightarrow> 'a list" where
  "put_at xs i ys = take i xs @ ys @ drop (i + length ys) xs"

lemma length_slice_of [simp]: "j \<le> length xs \<Longrightarrow> length (slice_of xs i j) = j - i"
  by (simp add: slice_of_def)

lemma length_put_at [simp]: "i + length ys \<le> length xs \<Longrightarrow> length (put_at xs i ys) = length xs"
  by (simp add: put_at_def)

lemma slice_append: "i \<le> j \<Longrightarrow> j \<le> k \<Longrightarrow> slice_of xs i j @ slice_of xs j k = slice_of xs i k"
proof -
  assume a: "i \<le> j" "j \<le> k"
  then have "drop j xs = drop (j - i) (drop i xs)" "k - i = (j - i) + (k - j)"
    by simp_all
  then show ?thesis
    by (simp only: slice_of_def take_add)
qed

lemma slice_all: "slice_of xs 0 (length xs) = xs"
  by (simp add: slice_of_def)

lemma slice_put_at_same:
  "i + length ys \<le> length xs \<Longrightarrow> slice_of (put_at xs i ys) i (i + length ys) = ys"
  by (simp add: slice_of_def put_at_def)

lemma slice_put_at_sub:
  assumes "i + length ys \<le> length xs" "a \<le> b" "b \<le> length ys"
  shows "slice_of (put_at xs i ys) (i + a) (i + b) = slice_of ys a b"
  using assms by (simp add: slice_of_def put_at_def)

lemma slice_put_at_before:
  assumes "j \<le> i" "i \<le> length xs"
  shows "slice_of (put_at xs i ys) k j = slice_of xs k j"
proof -
  have "k + (j - k) \<le> i \<or> j \<le> k" using assms by linarith
  then show ?thesis
    using assms by (auto simp: slice_of_def put_at_def drop_take)
qed

lemma slice_put_at_after:
  assumes "i + length ys \<le> k" "i + length ys \<le> length xs"
  shows "slice_of (put_at xs i ys) k j = slice_of xs k j"
  using assms by (simp add: slice_of_def put_at_def)

lemma nth_put_at_before: "k < i \<Longrightarrow> i \<le> length xs \<Longrightarrow> put_at xs i ys ! k = xs ! k"
  by (simp add: put_at_def nth_append)

subsection \<open>The interface of a checked codec\<close>

text \<open>
  An encoder and a decoder that both may refuse. \<open>shaped\<close> are the encodings of the right
  shape (an array length), \<open>plain\<close> the values the encoder is meant for. The two laws say
  that decoding inverts encoding and that an accepted encoding is the encoder's own.
\<close>

locale checked_codec =
  fixes enc :: "'a \<Rightarrow> 'e + 'b"
    and dec :: "'b \<Rightarrow> 'e + 'a"
    and shaped :: "'b \<Rightarrow> bool"
    and plain :: "'a \<Rightarrow> bool"
  assumes enc_dec: "plain a \<Longrightarrow> enc a = Inr b \<Longrightarrow> shaped b \<and> dec b = Inr a"
    and dec_enc: "shaped b \<Longrightarrow> dec b = Inr a \<Longrightarrow> plain a \<and> enc a = Inr b"
begin

lemma enc_inj: "plain a \<Longrightarrow> plain a' \<Longrightarrow> enc a = Inr b \<Longrightarrow> enc a' = Inr b \<Longrightarrow> a = a'"
  using enc_dec by (metis Inr_inject)

lemma dec_inj: "shaped b \<Longrightarrow> shaped b' \<Longrightarrow> dec b = Inr a \<Longrightarrow> dec b' = Inr a \<Longrightarrow> b = b'"
  using dec_enc by (metis Inr_inject)

lemma accepted_iff_encoded: "shaped b \<Longrightarrow> (\<exists>a. dec b = Inr a) \<longleftrightarrow> (\<exists>a. plain a \<and> enc a = Inr b)"
  using enc_dec dec_enc by blast

end

end
