(* ===== verification/Go_Library.thy ===== *)
theory Go_Library
  imports Takapu_Prelude
begin

text \<open>
  The parts of Go's standard library the sources call: \<open>encoding/binary\<close> big-endian
  reads and writes, \<open>strings\<close>, the decimal text of \<open>math/big\<close> integers and rationals,
  bit lengths and truncated division, and what a function observes of its
  \<open>context.Context\<close>. Strings are byte strings (\<open>char list\<close>), \<open>*big.Int\<close> values are
  \<open>int\<close> (a possibly nil one is \<open>int option\<close>).
\<close>

subsection \<open>encoding/binary\<close>

definition BigEndian_Uint16 :: "bytes \<Rightarrow> u16" where
  "BigEndian_Uint16 b = ucast (b ! 1) OR push_bit 8 (ucast (b ! 0))"

definition BigEndian_Uint32 :: "bytes \<Rightarrow> u32" where
  "BigEndian_Uint32 b =
     ucast (b ! 3) OR push_bit 8 (ucast (b ! 2)) OR push_bit 16 (ucast (b ! 1))
       OR push_bit 24 (ucast (b ! 0))"

definition be16 :: "u16 \<Rightarrow> bytes" where
  "be16 v = [ucast (drop_bit 8 v), ucast v]"

definition be32 :: "u32 \<Rightarrow> bytes" where
  "be32 v = [ucast (drop_bit 24 v), ucast (drop_bit 16 v), ucast (drop_bit 8 v), ucast v]"

definition PutUint16 :: "bytes \<Rightarrow> nat \<Rightarrow> u16 \<Rightarrow> bytes" where
  "PutUint16 dst i v = put_at dst i (be16 v)"

definition PutUint32 :: "bytes \<Rightarrow> nat \<Rightarrow> u32 \<Rightarrow> bytes" where
  "PutUint32 dst i v = put_at dst i (be32 v)"

lemma u8_bit_high [simp]: "\<not> bit (x :: u8) (8 + n)" "\<not> bit x (16 + n)" "\<not> bit x (24 + n)"
  by (auto dest: bit_imp_le_length)

lemma length_be [simp]: "length (be16 v) = 2" "length (be32 w) = 4"
  by (simp_all add: be16_def be32_def)

lemma Uint16_be16 [bytes_simps, simp]: "BigEndian_Uint16 (be16 v) = v"
  by (rule bit_word_eqI) (auto simp: BigEndian_Uint16_def be16_def bit_simps)

lemma Uint32_be32 [bytes_simps, simp]: "BigEndian_Uint32 (be32 v) = v"
proof (rule bit_word_eqI)
  fix n
  assume "n < LENGTH(32)"
  then show "bit (BigEndian_Uint32 (be32 v)) n = bit v n"
    by (cases "24 \<le> n"; cases "16 \<le> n"; cases "8 \<le> n")
      (auto simp: BigEndian_Uint32_def be32_def bit_simps)
qed

lemma be16_Uint16: "length b = 2 \<Longrightarrow> be16 (BigEndian_Uint16 b) = b"
  by (auto simp: BigEndian_Uint16_def be16_def bit_simps length_Suc_conv numeral_2_eq_2
      intro!: bit_word_eqI)

lemma length4E:
  assumes "length b = 4"
  obtains x y z w where "b = [x, y, z, w]"
  using assms by (auto simp: length_Suc_conv numeral_eq_Suc)

lemma be32_Uint32: "length b = 4 \<Longrightarrow> be32 (BigEndian_Uint32 b) = b"
  by (erule length4E) (auto simp: BigEndian_Uint32_def be32_def bit_simps
      intro!: bit_word_eqI)

lemma be16_zero: "be16 0 = replicate 2 0"
  by (simp add: be16_def numeral_2_eq_2)

lemma be32_zero: "be32 0 = replicate 4 0"
  by (simp add: be32_def numeral_eq_Suc)

lemma Uint32_zero_iff: "length b = 4 \<Longrightarrow> BigEndian_Uint32 b = 0 \<longleftrightarrow> b = replicate 4 0"
  using be32_Uint32 [of b] Uint32_be32 [of 0] be32_zero by metis

lemma Uint16_zero_iff: "length b = 2 \<Longrightarrow> BigEndian_Uint16 b = 0 \<longleftrightarrow> b = replicate 2 0"
  using be16_Uint16 [of b] Uint16_be16 [of 0] be16_zero by metis

subsection \<open>Digits and strings\<close>

definition is_digit :: "char \<Rightarrow> bool" where
  "is_digit c \<longleftrightarrow> 48 \<le> (of_char c :: nat) \<and> (of_char c :: nat) \<le> 57"

definition digit_val :: "char \<Rightarrow> nat" where
  "digit_val c = of_char c - 48"

definition digit_char :: "nat \<Rightarrow> char" where
  "digit_char d = char_of (48 + d)"

abbreviation zero_char :: char where
  "zero_char \<equiv> CHR ''0''"

abbreviation dot_char :: char where
  "dot_char \<equiv> CHR ''.''"

text \<open>\<open>strings.Repeat\<close>, \<open>strings.TrimLeft\<close>, \<open>strings.TrimRight\<close>, \<open>strings.Trim\<close> and, for a
  one-byte separator, \<open>strings.Cut\<close>.\<close>

definition Repeat :: "string \<Rightarrow> nat \<Rightarrow> string" where
  "Repeat s n = concat (replicate n s)"

definition TrimLeft :: "string \<Rightarrow> string \<Rightarrow> string" where
  "TrimLeft s cutset = dropWhile (\<lambda>c. c \<in> set cutset) s"

definition TrimRight :: "string \<Rightarrow> string \<Rightarrow> string" where
  "TrimRight s cutset = rev (dropWhile (\<lambda>c. c \<in> set cutset) (rev s))"

definition Trim :: "string \<Rightarrow> string \<Rightarrow> string" where
  "Trim s cutset = TrimRight (TrimLeft s cutset) cutset"

definition Cut :: "string \<Rightarrow> char \<Rightarrow> string \<times> string \<times> bool" where
  "Cut s sep = (takeWhile (\<lambda>c. c \<noteq> sep) s, tl (dropWhile (\<lambda>c. c \<noteq> sep) s), sep \<in> set s)"

subsection \<open>math/big\<close>

text \<open>The decimal text of a natural number, most significant digit first, and the value of
  a digit string.\<close>

fun nat_text :: "nat \<Rightarrow> string" where
  "nat_text n = (if n < 10 then [digit_char n] else nat_text (n div 10) @ [digit_char (n mod 10)])"

declare nat_text.simps [simp del]

definition digits_val :: "string \<Rightarrow> nat" where
  "digits_val s = foldl (\<lambda>a c. 10 * a + digit_val c) 0 s"

definition big_String :: "int \<Rightarrow> string" where
  "big_String n = (if n < 0 then CHR ''-'' # nat_text (nat (- n)) else nat_text (nat n))"

text \<open>\<open>SetString(s, 10)\<close> on a string of digits; the sources call it on nothing else.\<close>

definition big_SetString :: "string \<Rightarrow> int option" where
  "big_SetString s = (if s \<noteq> [] \<and> list_all is_digit s then Some (int (digits_val s)) else None)"

fun nat_BitLen :: "nat \<Rightarrow> nat" where
  "nat_BitLen n = (if n = 0 then 0 else Suc (nat_BitLen (n div 2)))"

declare nat_BitLen.simps [simp del]

definition BitLen :: "int \<Rightarrow> nat" where
  "BitLen n = nat_BitLen (nat \<bar>n\<bar>)"

text \<open>\<open>Quo\<close> truncates towards zero (it panics on a zero divisor, which no call reaches).\<close>

definition Quo :: "int \<Rightarrow> int \<Rightarrow> int" where
  "Quo a b = sgn a * sgn b * (\<bar>a\<bar> div \<bar>b\<bar>)"

text \<open>A plain decimal: digits, optionally a point and more digits. This is the regular
  expression \<open>^[0-9]+(\.[0-9]+)?$\<close>; \<open>Rat.SetString\<close> reads such a string exactly.\<close>

definition plain_decimal :: "string \<Rightarrow> bool" where
  "plain_decimal s = (case Cut s dot_char of (whole, fraction, dot) \<Rightarrow>
     whole \<noteq> [] \<and> list_all is_digit whole \<and>
     (dot \<longrightarrow> fraction \<noteq> [] \<and> list_all is_digit fraction))"

definition decimal_rat :: "string \<Rightarrow> rat" where
  "decimal_rat s = (case Cut s dot_char of (whole, fraction, dot) \<Rightarrow>
     of_nat (digits_val (whole @ fraction)) / 10 ^ length fraction)"

subsection \<open>context\<close>

datatype ctx_error = Canceled | DeadlineExceeded

text \<open>What a function sees of its context: the result of its k-th call of \<open>Err\<close>.\<close>

type_synonym ctx = "nat \<Rightarrow> ctx_error option"

subsection \<open>Digits: lemmas\<close>

lemma is_digit_digit_char [simp]: "d < 10 \<Longrightarrow> is_digit (digit_char d)"
  by (simp add: is_digit_def digit_char_def)

lemma digit_val_digit_char [simp]: "d < 10 \<Longrightarrow> digit_val (digit_char d) = d"
  by (simp add: digit_val_def digit_char_def)

lemma digit_char_numeral:
  "digit_char 0 = CHR ''0''" "digit_char 1 = CHR ''1''" "digit_char (Suc 0) = CHR ''1''"
  "digit_char 2 = CHR ''2''" "digit_char 3 = CHR ''3''" "digit_char 4 = CHR ''4''"
  "digit_char 5 = CHR ''5''" "digit_char 6 = CHR ''6''" "digit_char 7 = CHR ''7''"
  "digit_char 8 = CHR ''8''" "digit_char 9 = CHR ''9''"
  by code_simp+

lemma digit_val_less: "is_digit c \<Longrightarrow> digit_val c < 10"
  unfolding is_digit_def digit_val_def by linarith

lemma is_digit_zero_char [simp]: "is_digit zero_char" "\<not> is_digit dot_char"
  by (simp_all add: is_digit_def)

lemma digit_val_zero_char [simp]: "digit_val zero_char = 0"
  by (simp add: digit_val_def)

lemma digit_val_eq_0: "is_digit c \<Longrightarrow> digit_val c = 0 \<longleftrightarrow> c = zero_char"
proof -
  assume d: "is_digit c"
  have "digit_val c = 0 \<longleftrightarrow> (of_char c :: nat) = of_char zero_char"
    using d by (auto simp: digit_val_def is_digit_def)
  then show ?thesis by (simp only: of_char_eq_iff)
qed

lemma last_digit_not_dot: "list_all is_digit s \<Longrightarrow> s \<noteq> [] \<Longrightarrow> last s \<noteq> dot_char"
  using is_digit_zero_char(2) last_in_set unfolding list_all_iff by metis

lemma digits_val_Nil [simp]: "digits_val [] = 0"
  by (simp add: digits_val_def)

lemma digits_val_foldl: "foldl (\<lambda>a c. 10 * a + digit_val c) n s = n * 10 ^ length s + digits_val s"
proof (induction s arbitrary: n)
  case (Cons c s)
  have "digits_val (c # s) = digit_val c * 10 ^ length s + digits_val s"
    using Cons.IH [of "digit_val c"] by (simp add: digits_val_def)
  then show ?case
    using Cons.IH [of "10 * n + digit_val c"] by (simp add: algebra_simps)
qed (simp add: digits_val_def)

lemma digits_val_Cons [simp]: "digits_val (c # s) = digit_val c * 10 ^ length s + digits_val s"
  using digits_val_foldl [of "digit_val c" s] by (simp add: digits_val_def)

lemma digits_val_append: "digits_val (s @ t) = digits_val s * 10 ^ length t + digits_val t"
  by (induction s) (simp_all add: algebra_simps power_add)

lemma digits_val_zeros [simp]: "digits_val (replicate n zero_char) = 0"
  by (induction n) simp_all

lemma digits_val_less: "list_all is_digit s \<Longrightarrow> digits_val s < 10 ^ length s"
proof (induction s)
  case (Cons c s)
  then have "digits_val s < 10 ^ length s" "digit_val c \<le> 9"
    using digit_val_less [of c] by auto
  moreover from this(2) have "digit_val c * 10 ^ length s \<le> 9 * 10 ^ length s"
    by simp
  ultimately have "digit_val c * 10 ^ length s + digits_val s < 10 * 10 ^ length s"
    by linarith
  then show ?case by simp
qed simp

lemma digits_val_eq_0: "list_all is_digit s \<Longrightarrow> digits_val s = 0 \<longleftrightarrow> set s \<subseteq> {zero_char}"
  by (induction s) (auto simp: digit_val_eq_0)

lemma nat_text_digits: "list_all is_digit (nat_text n)"
  by (induction n rule: nat_text.induct) (subst nat_text.simps, auto)

lemma nat_text_not_Nil [simp]: "nat_text n \<noteq> []"
  by (subst nat_text.simps) simp

lemma digits_val_nat_text [simp]: "digits_val (nat_text n) = n"
  by (induction n rule: nat_text.induct) (subst nat_text.simps, auto simp: digits_val_append)

lemma list_all_zeros [simp]: "list_all is_digit (replicate n zero_char)"
  by (induction n) simp_all

lemma Repeat_zero [simp]: "Repeat ''0'' n = replicate n zero_char"
  by (induction n) (simp_all add: Repeat_def)

subsection \<open>Bit lengths and division: lemmas\<close>

lemma nat_BitLen_le: "nat_BitLen n \<le> k \<longleftrightarrow> n < 2 ^ k"
proof (induction n arbitrary: k rule: nat_BitLen.induct)
  case (1 n)
  show ?case
  proof (cases "n = 0")
    case True
    then show ?thesis by (simp add: nat_BitLen.simps)
  next
    case False
    then show ?thesis
    proof (cases k)
      case (Suc j)
      have "nat_BitLen (n div 2) \<le> j \<longleftrightarrow> n div 2 < 2 ^ j"
        using False by (rule "1.IH")
      then show ?thesis using False Suc by (subst nat_BitLen.simps) auto
    qed (simp add: nat_BitLen.simps [of n])
  qed
qed

lemma BitLen_le: "BitLen n \<le> k \<longleftrightarrow> \<bar>n\<bar> < 2 ^ k"
  by (simp add: BitLen_def nat_BitLen_le nat_less_iff)

lemma BitLen_gt: "k < BitLen n \<longleftrightarrow> 2 ^ k \<le> \<bar>n\<bar>"
  using BitLen_le [of n k] by linarith

lemma Quo_nonneg: "0 \<le> a \<Longrightarrow> 0 \<le> b \<Longrightarrow> Quo a b = a div b"
  by (cases "a = 0"; cases "b = 0") (simp_all add: Quo_def)

subsection \<open>Cut and trim: lemmas\<close>

lemma Cut_digits: "list_all is_digit s \<Longrightarrow> Cut s dot_char = (s, [], False)"
proof -
  assume "list_all is_digit s"
  then have n: "\<forall>x\<in>set s. x \<noteq> dot_char"
    using is_digit_zero_char(2) unfolding list_all_iff by blast
  then have "takeWhile (\<lambda>c. c \<noteq> dot_char) s = s" "dropWhile (\<lambda>c. c \<noteq> dot_char) s = []"
    by (simp_all add: takeWhile_eq_all_conv dropWhile_eq_Nil_conv)
  moreover have "dot_char \<notin> set s" using n by blast
  ultimately show ?thesis by (simp only: Cut_def list.sel(2))
qed

lemma Cut_dot:
  "list_all is_digit w \<Longrightarrow> Cut (w @ dot_char # f) dot_char = (w, f, True)"
proof -
  assume "list_all is_digit w"
  then have "\<And>x. x \<in> set w \<Longrightarrow> x \<noteq> dot_char"
    using is_digit_zero_char(2) unfolding list_all_iff by blast
  then show ?thesis
    by (simp add: Cut_def takeWhile_append2 dropWhile_append2)
qed

lemma TrimRight_split: "\<exists>k. s = TrimRight s [c] @ replicate k c"
proof -
  let ?t = "takeWhile (\<lambda>x. x \<in> set [c]) (rev s)"
  have "set ?t \<subseteq> {c}"
    by (auto dest: set_takeWhileD)
  then have t: "?t = replicate (length ?t) c"
    by (metis replicate_length_same singletonD subsetD)
  have "s = TrimRight s [c] @ rev ?t"
    unfolding TrimRight_def rev_append [symmetric] takeWhile_dropWhile_id by simp
  also have "rev ?t = replicate (length ?t) c"
    by (subst t) simp
  finally show ?thesis ..
qed

lemma TrimRight_last: "TrimRight s [c] = [] \<or> last (TrimRight s [c]) \<noteq> c"
proof (cases "dropWhile (\<lambda>x. x \<in> set [c]) (rev s) = []")
  case False
  then have "hd (dropWhile (\<lambda>x. x \<in> set [c]) (rev s)) \<notin> set [c]"
    by (rule hd_dropWhile)
  then show ?thesis using False by (simp add: TrimRight_def last_rev)
qed (simp add: TrimRight_def)

end
