(* ===== verification/Frame_Codec.thy ===== *)
theory Frame_Codec
  imports Go_Library
begin

text \<open>
  The codec-v1 compact frame of \<open>pkg/frame\<close> (\<open>constants.go\<close>, \<open>frame.go\<close>, \<open>codec.go\<close>) at
  the level of bytes: the 32-byte header word, the two 32-byte level words with five 48-bit
  slots each, their decoder with its validation, and the encoder. \<open>[32]byte\<close> arrays are
  byte lists; \<open>frame_arrays\<close> says that the three words have their declared length.
\<close>

subsection \<open>constants.go, frame.go\<close>

definition CodecVersion :: u16 where
  "CodecVersion = 1"

definition MaxLevels :: nat where
  "MaxLevels = 5"

definition MaxTick :: u32 where
  "MaxTick = 0xffffff"

datatype frame_error =
    ReservedLevelBits
  | LevelWithoutQuantity nat
  | LevelAfterEmpty nat
  | LevelOffsetOrder nat
  | CodecVersionNot1
  | ProtocolOwnedFields
  | PairIDZero
  | BaseTickZero
  | InBids frame_error
  | InAsks frame_error
  | BidPriceBelowTick
  | AskPriceExceedsUint24
  | BaseTickRange
  | TooManyLevels
  | LevelRange nat
  | PairTokens
  | ScaleNotUint128 string
  | ChainIDZero
  | ProtocolZero
  | MakerZero
  | SignatureLength
  | SignatureRecoveryID
  | SignatureValues
  | ExpectedSignerZero
  | RecoverSigner string
  | SignerMismatch
  | ContextNil
  | ContextErr ctx_error
  | SignerNil
  | SignerAddressZero
  | SignDigestErr string
  | ReadableTooLong
  | UninitializedPrepared
  | NilDereference

record pair_params =
  pp_PairID :: u32
  pp_BaseToken :: address
  pp_QuoteToken :: address
  pp_BaseDecimals :: u8
  pp_QuoteDecimals :: u8
  pp_PriceTickSize :: "int option"
  pp_LotSize :: "int option"

record level =
  Offset :: u32
  QtyLots :: u32

record frame_spec =
  fs_ChainID :: u64
  fs_Protocol :: address
  fs_Maker :: address
  fs_Pair :: pair_params
  fs_BaseTick :: u32
  fs_Bids :: "level list"
  fs_Asks :: "level list"
  fs_UpdatedAt :: u32
  fs_MajorVersion :: u32
  fs_MinorVersion :: u8
  fs_CodecVersion :: u16

text \<open>One round of \<open>ValidatePair\<close>'s loop over the scales: nil, nonpositive and wider than
  128 bits are refused.\<close>

definition bad_scale :: "int option \<Rightarrow> bool" where
  "bad_scale v = (case v of None \<Rightarrow> True | Some n \<Rightarrow> n \<le> 0 \<or> BitLen n > 128)"

definition ValidatePair :: "pair_params \<Rightarrow> frame_error + unit" where
  "ValidatePair pair =
     reject (pp_PairID pair = 0) PairIDZero
    (reject (pp_BaseToken pair = 0 \<or> pp_QuoteToken pair = 0 \<or> pp_BaseToken pair = pp_QuoteToken pair)
       PairTokens
    (reject (bad_scale (pp_PriceTickSize pair)) (ScaleNotUint128 ''price tick size'')
    (reject (bad_scale (pp_LotSize pair)) (ScaleNotUint128 ''lot size'')
    (Inr ()))))"

subsection \<open>codec.go: words\<close>

record compact_frame =
  Header :: bytes
  BidLevels :: bytes
  AskLevels :: bytes

record header =
  h_UpdatedAt :: u32
  h_MajorVersion :: u32
  h_MinorVersion :: u8
  h_BaseTick :: u32
  h_PairID :: u32
  h_CodecVersion :: u16
  h_BidFilledLots :: u32
  h_AskFilledLots :: u32
  h_WrittenAt :: u32
  h_Reserved :: u16

definition get24 :: "bytes \<Rightarrow> u32" where
  "get24 src = push_bit 16 (ucast (src ! 0)) OR push_bit 8 (ucast (src ! 1)) OR ucast (src ! 2)"

definition be24 :: "u32 \<Rightarrow> bytes" where
  "be24 v = [ucast (drop_bit 16 v), ucast (drop_bit 8 v), ucast v]"

definition put24 :: "bytes \<Rightarrow> nat \<Rightarrow> u32 \<Rightarrow> bytes" where
  "put24 dst i v = put_at dst i (be24 v)"

definition DecodeHeader :: "compact_frame \<Rightarrow> header" where
  "DecodeHeader value = (let b = Header value in
     \<lparr>h_UpdatedAt = BigEndian_Uint32 (slice_of b 28 32),
      h_MajorVersion = BigEndian_Uint32 (slice_of b 24 28),
      h_MinorVersion = b ! 23,
      h_BaseTick = get24 (slice_of b 20 23),
      h_PairID = BigEndian_Uint32 (slice_of b 16 20),
      h_CodecVersion = BigEndian_Uint16 (slice_of b 14 16),
      h_BidFilledLots = BigEndian_Uint32 (slice_of b 10 14),
      h_AskFilledLots = BigEndian_Uint32 (slice_of b 6 10),
      h_WrittenAt = BigEndian_Uint32 (slice_of b 2 6),
      h_Reserved = BigEndian_Uint16 (slice_of b 0 2)\<rparr>)"

text \<open>The level in slot \<open>i\<close> of a level word: slot 0 is the last six bytes.\<close>

definition level_at :: "bytes \<Rightarrow> nat \<Rightarrow> level" where
  "level_at word i = (let start = 32 - (i + 1) * 6 in
     \<lparr>Offset = get24 (slice_of word start (start + 3)),
      QtyLots = get24 (slice_of word (start + 3) (start + 6))\<rparr>)"

text \<open>The loop of \<open>DecodeLevels\<close>, over the indices still to read.\<close>

fun DecodeLevels_loop :: "bytes \<Rightarrow> nat list \<Rightarrow> bool \<Rightarrow> level list \<Rightarrow> frame_error + level list" where
  "DecodeLevels_loop word [] seenEmpty out = Inr out"
| "DecodeLevels_loop word (i # is) seenEmpty out =
     (let level = level_at word i in
      if Offset level = 0 \<and> QtyLots level = 0 then DecodeLevels_loop word is True out
      else
        reject (QtyLots level = 0) (LevelWithoutQuantity i)
       (reject seenEmpty (LevelAfterEmpty i)
       (reject (out \<noteq> [] \<and> Offset level \<le> Offset (last out)) (LevelOffsetOrder i)
       (DecodeLevels_loop word is seenEmpty (out @ [level])))))"

definition DecodeLevels :: "bytes \<Rightarrow> frame_error + level list" where
  "DecodeLevels word =
     reject (word ! 0 \<noteq> 0 \<or> word ! 1 \<noteq> 0) ReservedLevelBits
       (DecodeLevels_loop word [0..<MaxLevels] False [])"

record decoded_compact_frame =
  d_header :: header
  d_bids :: "level list"
  d_asks :: "level list"

definition decodeCompactFrame :: "compact_frame \<Rightarrow> frame_error + decoded_compact_frame" where
  "decodeCompactFrame value = (let h = DecodeHeader value in
     reject (h_CodecVersion h \<noteq> CodecVersion) CodecVersionNot1
    (reject (h_BidFilledLots h \<noteq> 0 \<or> h_AskFilledLots h \<noteq> 0 \<or> h_WrittenAt h \<noteq> 0 \<or> h_Reserved h \<noteq> 0)
       ProtocolOwnedFields
    (reject (h_PairID h = 0) PairIDZero
    (reject (h_BaseTick h = 0) BaseTickZero
    (attempt (wrap_err InBids (DecodeLevels (BidLevels value))) (\<lambda>bids.
     attempt (wrap_err InAsks (DecodeLevels (AskLevels value))) (\<lambda>asks.
     reject (bids \<noteq> [] \<and> h_BaseTick h \<le> Offset (last bids)) BidPriceBelowTick
    (reject (asks \<noteq> [] \<and> (ucast MaxTick :: u64) < ucast (Offset (last asks)) + ucast (h_BaseTick h))
       AskPriceExceedsUint24
    (Inr \<lparr>d_header = h, d_bids = bids, d_asks = asks\<rparr>)))))))))"

definition ValidateCompactFrame :: "compact_frame \<Rightarrow> frame_error + unit" where
  "ValidateCompactFrame value = attempt (decodeCompactFrame value) (\<lambda>_. Inr ())"

text \<open>The loop of \<open>encodeLevels\<close>: \<open>i\<close> is the index of the next level and \<open>prev\<close> the level
  before it, if any.\<close>

fun encodeLevels_loop :: "nat \<Rightarrow> level option \<Rightarrow> level list \<Rightarrow> bytes \<Rightarrow> frame_error + bytes" where
  "encodeLevels_loop i prev [] out = Inr out"
| "encodeLevels_loop i prev (l # ls) out =
     reject (Offset l > MaxTick \<or> QtyLots l = 0 \<or> QtyLots l > MaxTick) (LevelRange i)
    (reject (case prev of None \<Rightarrow> False | Some p \<Rightarrow> Offset l \<le> Offset p) (LevelOffsetOrder i)
    (let start = 32 - (i + 1) * 6 in
     encodeLevels_loop (Suc i) (Some l) ls
       (put24 (put24 out start (Offset l)) (start + 3) (QtyLots l))))"

definition encodeLevels :: "level list \<Rightarrow> frame_error + bytes" where
  "encodeLevels levels =
     reject (length levels > MaxLevels) TooManyLevels
       (encodeLevels_loop 0 None levels (replicate 32 0))"

definition encodeCompactFrame :: "frame_spec \<Rightarrow> frame_error + compact_frame" where
  "encodeCompactFrame spec =
     reject (fs_CodecVersion spec \<noteq> CodecVersion) CodecVersionNot1
    (reject (fs_BaseTick spec = 0 \<or> fs_BaseTick spec > MaxTick) BaseTickRange
    (attempt (wrap_err InBids (encodeLevels (fs_Bids spec))) (\<lambda>b.
     attempt (wrap_err InAsks (encodeLevels (fs_Asks spec))) (\<lambda>a.
     let hd0 = replicate 32 0;
         hd1 = PutUint16 hd0 14 (fs_CodecVersion spec);
         hd2 = PutUint32 hd1 16 (pp_PairID (fs_Pair spec));
         hd3 = put24 hd2 20 (fs_BaseTick spec);
         hd4 = hd3[23 := fs_MinorVersion spec];
         hd5 = PutUint32 hd4 24 (fs_MajorVersion spec);
         hd6 = PutUint32 hd5 28 (fs_UpdatedAt spec);
         f = \<lparr>Header = hd6, BidLevels = b, AskLevels = a\<rparr>
     in attempt (ValidateCompactFrame f) (\<lambda>_. Inr f)))))"

subsection \<open>Well-formed data\<close>

definition frame_arrays :: "compact_frame \<Rightarrow> bool" where
  "frame_arrays f \<longleftrightarrow> length (Header f) = 32 \<and> length (BidLevels f) = 32 \<and> length (AskLevels f) = 32"

definition wf_level :: "level \<Rightarrow> bool" where
  "wf_level l \<longleftrightarrow> Offset l \<le> MaxTick \<and> 0 < QtyLots l \<and> QtyLots l \<le> MaxTick"

definition wf_levels :: "level list \<Rightarrow> bool" where
  "wf_levels ls \<longleftrightarrow> length ls \<le> MaxLevels \<and> list_all wf_level ls \<and> sorted_wrt (<) (map Offset ls)"

definition zero_level :: level where
  "zero_level = \<lparr>Offset = 0, QtyLots = 0\<rparr>"

subsection \<open>uint24\<close>

lemma length_be24 [simp]: "length (be24 v) = 3"
  by (simp add: be24_def)

lemma bit_get24:
  "bit (get24 [x, y, z]) n \<longleftrightarrow>
     (if n < 8 then bit z n else if n < 16 then bit y (n - 8) else n < 24 \<and> bit x (n - 16))"
  by (auto simp: get24_def bit_simps dest: bit_imp_le_length)

lemma length3E:
  assumes "length b = 3"
  obtains x y z where "b = [x, y, z]"
  using assms by (auto simp: length_Suc_conv numeral_eq_Suc)

lemma le_MaxTick_unat: "v \<le> MaxTick \<longleftrightarrow> unat v < 2 ^ 24"
  by (auto simp: MaxTick_def word_le_nat_alt)

lemma le_MaxTick_iff: "v \<le> MaxTick \<longleftrightarrow> take_bit 24 v = v"
proof -
  have "take_bit 24 v = v \<longleftrightarrow> take_bit 24 (unat v) = unat v"
    by (metis unsigned_take_bit_eq unsigned_word_eqI)
  also have "\<dots> \<longleftrightarrow> unat v < 2 ^ 24"
    by (rule take_bit_nat_eq_self_iff)
  finally show ?thesis by (simp only: le_MaxTick_unat)
qed

lemma get24_be24: "get24 (be24 v) = take_bit 24 v"
  by (rule bit_word_eqI) (auto simp: be24_def bit_get24 bit_simps)

lemma get24_be24_id [bytes_simps]: "v \<le> MaxTick \<Longrightarrow> get24 (be24 v) = v"
  by (simp add: get24_be24 le_MaxTick_iff)

lemma be24_get24 [bytes_simps]: "length b = 3 \<Longrightarrow> be24 (get24 b) = b"
  by (erule length3E) (auto simp: be24_def bit_get24 bit_simps intro!: bit_word_eqI)

lemma get24_le [simp]: "length b = 3 \<Longrightarrow> get24 b \<le> MaxTick"
  unfolding le_MaxTick_iff
  by (erule length3E) (auto simp: bit_get24 bit_simps intro!: bit_word_eqI)

subsection \<open>Level words: slots\<close>

text \<open>The slots of a level word are independent, and together with the two reserved bytes they
  determine it.\<close>

definition put_level :: "bytes \<Rightarrow> nat \<Rightarrow> level \<Rightarrow> bytes" where
  "put_level out i l = put_at out (32 - (i + 1) * 6) (be24 (Offset l) @ be24 (QtyLots l))"

lemma put24_put24:
  assumes "s + 6 \<le> length out"
  shows "put24 (put24 out s o') (s + 3) q = put_at out s (be24 o' @ be24 q)"
  using assms by (simp add: put24_def put_at_def add.commute)

lemma encodeLevels_loop_Cons:
  assumes "length out = 32" "i < MaxLevels"
  shows "encodeLevels_loop i prev (l # ls) out =
     reject (\<not> wf_level l) (LevelRange i)
    (reject (case prev of None \<Rightarrow> False | Some p \<Rightarrow> Offset l \<le> Offset p) (LevelOffsetOrder i)
    (encodeLevels_loop (Suc i) (Some l) ls (put_level out i l)))"
proof -
  let ?s = "32 - (i + 1) * 6"
  have "?s + 6 \<le> length out" using assms by (simp add: MaxLevels_def)
  then have "put24 (put24 out ?s (Offset l)) (?s + 3) (QtyLots l) = put_level out i l"
    unfolding put_level_def by (rule put24_put24)
  moreover have "(Offset l > MaxTick \<or> QtyLots l = 0 \<or> QtyLots l > MaxTick) \<longleftrightarrow> \<not> wf_level l"
    by (auto simp: wf_level_def word_gt_0)
  ultimately show ?thesis by (simp only: encodeLevels_loop.simps Let_def)
qed

lemma length_put_level [simp]: "length out = 32 \<Longrightarrow> i < MaxLevels \<Longrightarrow> length (put_level out i l) = 32"
  by (simp add: put_level_def MaxLevels_def)

lemma level_at_put_level_same:
  assumes "length out = 32" "i < MaxLevels" "wf_level l"
  shows "level_at (put_level out i l) i = l"
proof -
  let ?s = "32 - (i + 1) * 6" and ?b = "be24 (Offset l) @ be24 (QtyLots l)"
  have s: "?s + length ?b \<le> length out" using assms by (simp add: MaxLevels_def)
  have "slice_of (put_at out ?s ?b) (?s + 0) (?s + 3) = be24 (Offset l)"
    by (subst slice_put_at_sub [OF s]) (simp_all add: slice_of_def)
  moreover have "slice_of (put_at out ?s ?b) (?s + 3) (?s + 6) = be24 (QtyLots l)"
    by (subst slice_put_at_sub [OF s]) (simp_all add: slice_of_def)
  ultimately show ?thesis
    using assms(3) by (simp add: level_at_def put_level_def Let_def wf_level_def bytes_simps)
qed

lemma level_at_put_level_other:
  assumes "length out = 32" "i < MaxLevels" "j < MaxLevels" "i \<noteq> j"
  shows "level_at (put_level out j l) i = level_at out i"
proof -
  let ?s = "32 - (i + 1) * 6" and ?t = "32 - (j + 1) * 6"
    and ?b = "be24 (Offset l) @ be24 (QtyLots l)"
  have "slice_of (put_at out ?t ?b) k m = slice_of out k m"
    if "?s \<le> k" "m \<le> ?s + 6" for k m
  proof (cases "i < j")
    case True
    then show ?thesis
      using assms that by (intro slice_put_at_after) (simp_all add: MaxLevels_def)
  next
    case False
    then show ?thesis
      using assms that by (intro slice_put_at_before) (simp_all add: MaxLevels_def)
  qed
  then show ?thesis by (simp add: level_at_def put_level_def Let_def)
qed

lemma put_level_reserved:
  "length out = 32 \<Longrightarrow> i < MaxLevels \<Longrightarrow> k < 2 \<Longrightarrow> put_level out i l ! k = out ! k"
  unfolding put_level_def by (rule nth_put_at_before) (simp_all add: MaxLevels_def)

lemma level_at_bytes:
  assumes "length w = 32" "i < MaxLevels"
  shows "be24 (Offset (level_at w i)) @ be24 (QtyLots (level_at w i)) =
         slice_of w (32 - (i + 1) * 6) (32 - i * 6)"
proof -
  let ?s = "32 - (i + 1) * 6"
  have "i * 6 + 6 \<le> 32" using assms(2) by (simp add: MaxLevels_def)
  then have s: "?s + 6 \<le> 32" "32 - i * 6 = ?s + 6" by simp_all
  have "length (slice_of w t (t + 3)) = 3 \<and> length (slice_of w (t + 3) (t + 6)) = 3"
    if "t + 6 \<le> 32" for t
    using assms(1) that by simp
  then have "length (slice_of w ?s (?s + 3)) = 3" "length (slice_of w (?s + 3) (?s + 6)) = 3"
    using s(1) by blast+
  then have "be24 (Offset (level_at w i)) @ be24 (QtyLots (level_at w i)) =
      slice_of w ?s (?s + 3) @ slice_of w (?s + 3) (?s + 6)"
    by (simp add: level_at_def Let_def be24_get24)
  also have "\<dots> = slice_of w ?s (32 - i * 6)"
    unfolding s(2) by (rule slice_append) simp_all
  finally show ?thesis .
qed

lemma level_word_split:
  assumes "length w = 32"
  shows "w = [w ! 0, w ! 1] @ slice_of w 2 8 @ slice_of w 8 14 @ slice_of w 14 20 @
           slice_of w 20 26 @ slice_of w 26 32"
proof -
  have "slice_of w 0 2 = [w ! 0, w ! 1]"
    using assms by (auto simp: slice_of_def numeral_2_eq_2 take_Suc_conv_app_nth)
  moreover have "w = slice_of w 0 2 @ slice_of w 2 8 @ slice_of w 8 14 @ slice_of w 14 20 @
      slice_of w 20 26 @ slice_of w 26 32"
    using assms slice_all [of w] by (simp add: slice_append)
  ultimately show ?thesis by simp
qed

lemma level_word_eqI:
  assumes "length v = 32" "length w = 32" "v ! 0 = w ! 0" "v ! 1 = w ! 1"
    and "\<And>i. i < MaxLevels \<Longrightarrow> level_at v i = level_at w i"
  shows "v = w"
proof -
  have s: "slice_of v (32 - (i + 1) * 6) (32 - i * 6) = slice_of w (32 - (i + 1) * 6) (32 - i * 6)"
    if "i < MaxLevels" for i
    using level_at_bytes [OF assms(1) that] level_at_bytes [OF assms(2) that] assms(5) [OF that] by simp
  show ?thesis
    using s [of 0] s [of 1] s [of 2] s [of 3] s [of 4] assms(3,4)
      level_word_split [OF assms(1)] level_word_split [OF assms(2)]
    by (simp add: MaxLevels_def)
qed

lemma level_at_zero: "i < MaxLevels \<Longrightarrow> level_at (replicate 32 0) i = zero_level"
  by (simp add: level_at_def zero_level_def slice_of_def get24_def Let_def MaxLevels_def)

lemma level_at_range:
  "length w = 32 \<Longrightarrow> i < MaxLevels \<Longrightarrow>
     Offset (level_at w i) \<le> MaxTick \<and> QtyLots (level_at w i) \<le> MaxTick"
  by (simp add: level_at_def Let_def MaxLevels_def)

subsection \<open>Level words: decoding and encoding\<close>

lemma DecodeLevels_loop_closed:
  "DecodeLevels_loop w is True out = Inr ls \<longleftrightarrow> (\<forall>i\<in>set is. level_at w i = zero_level) \<and> ls = out"
proof (induction "is" arbitrary: out)
  case (Cons i "is")
  show ?case
  proof (cases "level_at w i = zero_level")
    case True
    then show ?thesis using Cons.IH by (simp add: zero_level_def)
  next
    case False
    then have "\<not> (Offset (level_at w i) = 0 \<and> QtyLots (level_at w i) = 0)"
      by (auto simp: zero_level_def)
    with False show ?thesis by (auto simp: Let_def)
  qed
qed auto

text \<open>What an accepting run of the open loop has read: a run of levels with quantities and
  strictly increasing offsets, then only empty slots.\<close>

lemma DecodeLevels_loop_open:
  assumes "sorted_wrt (<) (map Offset out)"
  shows "DecodeLevels_loop w is False out = Inr ls \<longleftrightarrow>
    (\<exists>m\<le>length is. ls = out @ map (level_at w) (take m is) \<and>
       (\<forall>i\<in>set (take m is). QtyLots (level_at w i) \<noteq> 0) \<and>
       (\<forall>i\<in>set (drop m is). level_at w i = zero_level) \<and>
       sorted_wrt (<) (map Offset ls))"
  using assms
proof (induction "is" arbitrary: out)
  case (Cons i "is")
  let ?l = "level_at w i"
  let ?P = "\<lambda>is out m. ls = out @ map (level_at w) (take m is) \<and>
       (\<forall>i\<in>set (take m is). QtyLots (level_at w i) \<noteq> 0) \<and>
       (\<forall>i\<in>set (drop m is). level_at w i = zero_level) \<and> sorted_wrt (<) (map Offset ls)"
  have ex: "(\<exists>m\<le>length (i # is). ?P (i # is) out m) \<longleftrightarrow>
      ?P (i # is) out 0 \<or> (\<exists>m\<le>length is. ?P (i # is) out (Suc m))"
    unfolding length_Cons by (rule ex_le_Suc)
  show ?case
  proof (cases "?l = zero_level")
    case True
    then have a: "DecodeLevels_loop w (i # is) False out = DecodeLevels_loop w is True out"
      by (simp add: zero_level_def)
    have "QtyLots ?l = 0" using True by (simp add: zero_level_def)
    then have b: "\<not> ?P (i # is) out (Suc m)" for m by simp
    have c: "?P (i # is) out 0 \<longleftrightarrow> (\<forall>j\<in>set is. level_at w j = zero_level) \<and> ls = out"
      using True Cons.prems by auto
    show ?thesis unfolding ex a c DecodeLevels_loop_closed using b by blast
  next
    case False
    then have nz: "\<not> (Offset ?l = 0 \<and> QtyLots ?l = 0)"
      by (auto simp: zero_level_def)
    have srt: "sorted_wrt (<) (map Offset (out @ [?l])) \<longleftrightarrow> out = [] \<or> Offset (last out) < Offset ?l"
      using Cons.prems by (cases out rule: rev_cases) (auto simp: sorted_wrt_append)
    have "\<not> ?P (i # is) out 0" using False by simp
    moreover have "?P (i # is) out (Suc m) \<longleftrightarrow> QtyLots ?l \<noteq> 0 \<and> ?P is (out @ [?l]) m" for m
      by auto
    ultimately have rhs: "(\<exists>m\<le>length (i # is). ?P (i # is) out m) \<longleftrightarrow>
        QtyLots ?l \<noteq> 0 \<and> (\<exists>m\<le>length is. ?P is (out @ [?l]) m)"
      unfolding ex by blast
    show ?thesis
    proof (cases "sorted_wrt (<) (map Offset (out @ [?l]))")
      case True
      then have "\<not> (out \<noteq> [] \<and> Offset ?l \<le> Offset (last out))"
        unfolding srt by auto
      with nz have "DecodeLevels_loop w (i # is) False out = Inr ls \<longleftrightarrow>
          QtyLots ?l \<noteq> 0 \<and> DecodeLevels_loop w is False (out @ [?l]) = Inr ls"
        by (auto simp: Let_def)
      then show ?thesis unfolding rhs Cons.IH [OF True] .
    next
      case unsorted: False
      then have "out \<noteq> [] \<and> Offset ?l \<le> Offset (last out)"
        unfolding srt by auto
      with nz have "DecodeLevels_loop w (i # is) False out \<noteq> Inr ls"
        by (auto simp: Let_def)
      moreover have "\<not> ?P is (out @ [?l]) m" for m
        using unsorted by (auto simp: sorted_wrt_append)
      ultimately show ?thesis unfolding rhs by blast
    qed
  qed
qed auto

text \<open>A level word holds the list \<open>ls\<close>: its reserved bytes are zero, its first slots are the
  levels of \<open>ls\<close> and the others are empty.\<close>

definition holds_levels :: "bytes \<Rightarrow> level list \<Rightarrow> bool" where
  "holds_levels w ls \<longleftrightarrow> w ! 0 = 0 \<and> w ! 1 = 0 \<and>
     (\<forall>i<MaxLevels. level_at w i = (if i < length ls then ls ! i else zero_level))"

lemma holds_levels_unique:
  "length v = 32 \<Longrightarrow> length w = 32 \<Longrightarrow> holds_levels v ls \<Longrightarrow> holds_levels w ls \<Longrightarrow> v = w"
  by (rule level_word_eqI) (simp_all add: holds_levels_def)

lemma wf_levels_slots:
  assumes "length w = 32" "length ls \<le> MaxLevels" "\<forall>i<length ls. ls ! i = level_at w i"
  shows "list_all wf_level ls \<longleftrightarrow> (\<forall>i<length ls. QtyLots (level_at w i) \<noteq> 0)"
proof -
  have "wf_level (ls ! i) \<longleftrightarrow> QtyLots (level_at w i) \<noteq> 0" if "i < length ls" for i
  proof -
    have "i < MaxLevels" "ls ! i = level_at w i" using that assms by simp_all
    then show ?thesis using level_at_range [OF assms(1)] by (simp add: wf_level_def word_gt_0)
  qed
  then show ?thesis by (simp add: list_all_length)
qed

lemma DecodeLevels_iff:
  assumes "length w = 32"
  shows "DecodeLevels w = Inr ls \<longleftrightarrow> wf_levels ls \<and> holds_levels w ls"
proof -
  let ?I = "[0..<MaxLevels]"
  have I: "set (take m ?I) = {0..<m}" "set (drop m ?I) = {m..<MaxLevels}" "take m ?I = [0..<m]"
    if "m \<le> MaxLevels" for m
    using that by (simp_all add: take_upt)
  have dec: "DecodeLevels w = Inr ls \<longleftrightarrow> w ! 0 = 0 \<and> w ! 1 = 0 \<and>
      (\<exists>m\<le>MaxLevels. ls = map (level_at w) [0..<m] \<and> (\<forall>i\<in>{0..<m}. QtyLots (level_at w i) \<noteq> 0) \<and>
        (\<forall>i\<in>{m..<MaxLevels}. level_at w i = zero_level) \<and> sorted_wrt (<) (map Offset ls))"
    unfolding DecodeLevels_def reject_Inr
    by (subst DecodeLevels_loop_open) (simp_all add: I cong: conj_cong)
  show ?thesis
  proof
    assume "DecodeLevels w = Inr ls"
    then obtain m where m: "m \<le> MaxLevels" "ls = map (level_at w) [0..<m]"
        "\<forall>i\<in>{0..<m}. QtyLots (level_at w i) \<noteq> 0" "\<forall>i\<in>{m..<MaxLevels}. level_at w i = zero_level"
        "sorted_wrt (<) (map Offset ls)" "w ! 0 = 0" "w ! 1 = 0"
      unfolding dec by blast
    then have slots: "length ls = m" "\<forall>i<length ls. ls ! i = level_at w i" by simp_all
    then have "list_all wf_level ls"
      using wf_levels_slots [OF assms, of ls] m(1,3) by simp
    then show "wf_levels ls \<and> holds_levels w ls"
      using m slots by (simp add: wf_levels_def holds_levels_def)
  next
    assume a: "wf_levels ls \<and> holds_levels w ls"
    then have l: "length ls \<le> MaxLevels" "\<forall>i<length ls. ls ! i = level_at w i"
      by (simp_all add: wf_levels_def holds_levels_def)
    then have "ls = map (level_at w) [0..<length ls]"
      by (intro nth_equalityI) simp_all
    moreover have "\<forall>i\<in>{0..<length ls}. QtyLots (level_at w i) \<noteq> 0"
      using wf_levels_slots [OF assms l] a by (simp add: wf_levels_def)
    moreover have "\<forall>i\<in>{length ls..<MaxLevels}. level_at w i = zero_level"
      "w ! 0 = 0" "w ! 1 = 0" "sorted_wrt (<) (map Offset ls)"
      using a by (simp_all add: wf_levels_def holds_levels_def)
    ultimately show "DecodeLevels w = Inr ls"
      unfolding dec using l(1) by blast
  qed
qed

lemma encodeLevels_loop_ok:
  assumes "length out = 32" "i + length ls \<le> MaxLevels" "list_all wf_level ls"
    and "sorted_wrt (<) (map Offset ls)"
    and "\<And>p. prev = Some p \<Longrightarrow> ls \<noteq> [] \<Longrightarrow> Offset p < Offset (hd ls)"
  shows "\<exists>w. encodeLevels_loop i prev ls out = Inr w \<and> length w = 32 \<and>
     (\<forall>k<2. w ! k = out ! k) \<and>
     (\<forall>k<MaxLevels. level_at w k = (if i \<le> k \<and> k < i + length ls then ls ! (k - i) else level_at out k))"
  using assms
proof (induction ls arbitrary: i prev out)
  case (Cons l ls)
  have i: "i < MaxLevels" and l: "wf_level l" using Cons.prems by simp_all
  have step: "encodeLevels_loop i prev (l # ls) out = encodeLevels_loop (Suc i) (Some l) ls (put_level out i l)"
    using Cons.prems(1,5) i l by (subst encodeLevels_loop_Cons) (auto split: option.splits simp: reject_def)
  have "\<And>p. Some l = Some p \<Longrightarrow> ls \<noteq> [] \<Longrightarrow> Offset p < Offset (hd ls)"
    using Cons.prems(4) by (cases ls) auto
  then obtain w where w: "encodeLevels_loop (Suc i) (Some l) ls (put_level out i l) = Inr w"
      "length w = 32" "\<forall>k<2. w ! k = put_level out i l ! k"
      "\<forall>k<MaxLevels. level_at w k = (if Suc i \<le> k \<and> k < Suc i + length ls then ls ! (k - Suc i)
         else level_at (put_level out i l) k)"
    using Cons.IH [of "put_level out i l" "Suc i" "Some l"] Cons.prems i by auto
  have "level_at w k = (if i \<le> k \<and> k < i + length (l # ls) then (l # ls) ! (k - i) else level_at out k)"
    if k: "k < MaxLevels" for k
  proof (cases "k = i")
    case True
    then show ?thesis using w(4) k level_at_put_level_same [OF Cons.prems(1) i l] by simp
  next
    case False
    then show ?thesis
      using w(4) k level_at_put_level_other [OF Cons.prems(1) k i False] by (auto simp: nth_Cons')
  qed
  moreover have "\<forall>k<2. w ! k = out ! k"
    using w(3) Cons.prems(1) i by (simp add: put_level_reserved)
  ultimately show ?case unfolding step using w(1,2) by blast
qed auto

lemma encodeLevels_loop_wf:
  assumes "encodeLevels_loop i prev ls out = Inr w"
  shows "list_all wf_level ls \<and> sorted_wrt (<) (map Offset ls) \<and>
     (\<forall>p. prev = Some p \<longrightarrow> ls \<noteq> [] \<longrightarrow> Offset p < Offset (hd ls))"
  using assms
proof (induction ls arbitrary: i prev out)
  case (Cons l ls)
  from Cons.prems obtain out' where rec: "encodeLevels_loop (Suc i) (Some l) ls out' = Inr w"
    and l: "wf_level l" "\<And>p. prev = Some p \<Longrightarrow> Offset p < Offset l"
    by (auto simp: wf_level_def word_gt_0 not_less not_le Let_def split: option.splits)
  from Cons.IH [OF rec] have wf: "list_all wf_level ls" and srt: "sorted_wrt (<) (map Offset ls)"
    and first: "ls \<noteq> [] \<longrightarrow> Offset l < Offset (hd ls)"
    by simp_all
  have "sorted_wrt (<) (map Offset (l # ls))"
    using srt first by (cases ls) auto
  then show ?case using wf l by simp
qed simp

lemma encodeLevels_ok:
  assumes "wf_levels ls"
  shows "\<exists>w. encodeLevels ls = Inr w \<and> length w = 32 \<and> holds_levels w ls"
proof -
  have "\<exists>w. encodeLevels_loop 0 None ls (replicate 32 0) = Inr w \<and> length w = 32 \<and>
     (\<forall>k<2. w ! k = replicate 32 (0::u8) ! k) \<and>
     (\<forall>k<MaxLevels. level_at w k =
        (if 0 \<le> k \<and> k < 0 + length ls then ls ! (k - 0) else level_at (replicate 32 0) k))"
    using assms by (intro encodeLevels_loop_ok) (simp_all add: wf_levels_def)
  then show ?thesis
    using assms by (auto simp: encodeLevels_def wf_levels_def holds_levels_def level_at_zero not_less)
qed

lemma encodeLevels_iff:
  "encodeLevels ls = Inr w \<longleftrightarrow> wf_levels ls \<and> length w = 32 \<and> holds_levels w ls"
proof -
  have "wf_levels ls" if "encodeLevels ls = Inr w"
    using that encodeLevels_loop_wf [of 0 None ls "replicate 32 0" w]
    by (simp add: encodeLevels_def wf_levels_def)
  then show ?thesis using encodeLevels_ok holds_levels_unique by (metis Inr_inject)
qed

interpretation level_words: checked_codec encodeLevels DecodeLevels "\<lambda>w. length w = 32" "\<lambda>_. True"
  by unfold_locales (auto simp: encodeLevels_iff DecodeLevels_iff)

subsection \<open>The header word\<close>

definition header_word :: "u16 \<Rightarrow> u32 \<Rightarrow> u32 \<Rightarrow> u8 \<Rightarrow> u32 \<Rightarrow> u32 \<Rightarrow> bytes" where
  "header_word codec pair base minor major updated =
     replicate 14 0 @ be16 codec @ be32 pair @ be24 base @ [minor] @ be32 major @ be32 updated"

lemma header_word_puts:
  "PutUint32 (PutUint32 ((put24 (PutUint32 (PutUint16 (replicate 32 0) 14 codec) 16 pair) 20 base)
      [23 := minor]) 24 major) 28 updated =
   header_word codec pair base minor major updated"
  by (simp add: header_word_def PutUint16_def PutUint32_def put24_def put_at_def
      list_update_append be16_def be32_def be24_def numeral_eq_Suc)

lemma length_header_word [simp]: "length (header_word codec pair base minor major updated) = 32"
  by (simp add: header_word_def)

lemma DecodeHeader_header_word:
  assumes "base \<le> MaxTick"
  shows "DecodeHeader \<lparr>Header = header_word codec pair base minor major updated,
      BidLevels = b, AskLevels = a\<rparr> =
    \<lparr>h_UpdatedAt = updated, h_MajorVersion = major, h_MinorVersion = minor, h_BaseTick = base,
     h_PairID = pair, h_CodecVersion = codec, h_BidFilledLots = 0, h_AskFilledLots = 0,
     h_WrittenAt = 0, h_Reserved = 0\<rparr>"
proof -
  have "BigEndian_Uint32 (replicate 4 0) = 0" "BigEndian_Uint16 (replicate 2 0) = 0"
    by (simp_all add: Uint32_zero_iff Uint16_zero_iff)
  then show ?thesis
    using assms
    by (simp add: DecodeHeader_def header_word_def slice_of_def nth_append bytes_simps Let_def)
qed

lemma header_word_DecodeHeader:
  assumes "length (Header f) = 32"
    and "h_BidFilledLots (DecodeHeader f) = 0" "h_AskFilledLots (DecodeHeader f) = 0"
    and "h_WrittenAt (DecodeHeader f) = 0" "h_Reserved (DecodeHeader f) = 0"
  shows "header_word (h_CodecVersion (DecodeHeader f)) (h_PairID (DecodeHeader f))
      (h_BaseTick (DecodeHeader f)) (h_MinorVersion (DecodeHeader f))
      (h_MajorVersion (DecodeHeader f)) (h_UpdatedAt (DecodeHeader f)) = Header f"
proof -
  let ?b = "Header f"
  have z: "slice_of ?b 0 2 = replicate 2 0" "slice_of ?b 2 6 = replicate 4 0"
      "slice_of ?b 6 10 = replicate 4 0" "slice_of ?b 10 14 = replicate 4 0"
    using assms by (simp_all add: DecodeHeader_def Let_def Uint32_zero_iff Uint16_zero_iff)
  have "slice_of ?b 0 14 = slice_of ?b 0 2 @ slice_of ?b 2 6 @ slice_of ?b 6 10 @ slice_of ?b 10 14"
    by (simp add: slice_append)
  then have zeros: "slice_of ?b 0 14 = replicate 14 0"
    unfolding z by (simp add: replicate_add [symmetric])
  have "slice_of ?b 23 24 = [?b ! 23]"
    using assms(1) by (simp add: slice_of_def take_Suc_conv_app_nth)
  moreover have "?b = slice_of ?b 0 14 @ slice_of ?b 14 16 @ slice_of ?b 16 20 @ slice_of ?b 20 23 @
      slice_of ?b 23 24 @ slice_of ?b 24 28 @ slice_of ?b 28 32"
    using slice_all [of ?b] assms(1) by (simp add: slice_append)
  ultimately show ?thesis
    using assms(1) zeros
    by (simp add: header_word_def DecodeHeader_def Let_def be16_Uint16 be32_Uint32 be24_get24)
qed

subsection \<open>Whole frames\<close>

lemma sorted_last_max:
  assumes "sorted_wrt (<) (map Offset ls)" "l \<in> set ls"
  shows "Offset l \<le> Offset (last ls)"
proof -
  have "ls \<noteq> []" using assms(2) by auto
  then have ls: "ls = butlast ls @ [last ls]" by simp
  then have "sorted_wrt (<) (map Offset (butlast ls) @ [Offset (last ls)])"
    using assms(1) by (metis list.simps(8) list.simps(9) map_append)
  moreover have "l \<in> set (butlast ls) \<or> l = last ls"
    using assms(2) ls by (metis UnE empty_iff insert_iff list.set(1) list.set(2) set_append)
  ultimately show ?thesis by (auto simp: sorted_wrt_append)
qed

lemma last_bound_iff:
  assumes "sorted_wrt (<) (map Offset ls)" "\<And>x y. x \<le> y \<Longrightarrow> P y \<Longrightarrow> P x"
  shows "(ls \<noteq> [] \<longrightarrow> P (Offset (last ls))) \<longleftrightarrow> (\<forall>l\<in>set ls. P (Offset l))"
  using sorted_last_max [OF assms(1)] assms(2) last_in_set by (cases "ls = []") force+

lemma u64_sum_of_u32:
  "(ucast (c :: u32) :: u64) < ucast (a :: u32) + ucast (b :: u32) \<longleftrightarrow> unat c < unat a + unat b"
  by (simp add: word_less_nat_alt)

text \<open>The books a frame can carry: levels within uint24, at least one tick below every bid, no
  ask above the largest tick.\<close>

definition valid_book :: "u32 \<Rightarrow> level list \<Rightarrow> level list \<Rightarrow> bool" where
  "valid_book base bids asks \<longleftrightarrow> wf_levels bids \<and> wf_levels asks \<and>
     (\<forall>l\<in>set bids. Offset l < base) \<and> (\<forall>l\<in>set asks. unat (Offset l) + unat base \<le> unat MaxTick)"

definition valid_spec :: "frame_spec \<Rightarrow> bool" where
  "valid_spec spec \<longleftrightarrow> fs_CodecVersion spec = CodecVersion \<and> pp_PairID (fs_Pair spec) \<noteq> 0 \<and>
     fs_BaseTick spec \<noteq> 0 \<and> fs_BaseTick spec \<le> MaxTick \<and>
     valid_book (fs_BaseTick spec) (fs_Bids spec) (fs_Asks spec)"

definition submittable_header :: "header \<Rightarrow> bool" where
  "submittable_header h \<longleftrightarrow> h_CodecVersion h = CodecVersion \<and> h_BidFilledLots h = 0 \<and>
     h_AskFilledLots h = 0 \<and> h_WrittenAt h = 0 \<and> h_Reserved h = 0 \<and> h_PairID h \<noteq> 0 \<and> h_BaseTick h \<noteq> 0"

lemma decodeCompactFrame_iff:
  assumes "frame_arrays f"
  shows "decodeCompactFrame f = Inr d \<longleftrightarrow>
    d_header d = DecodeHeader f \<and> submittable_header (d_header d) \<and>
    valid_book (h_BaseTick (d_header d)) (d_bids d) (d_asks d) \<and>
    holds_levels (BidLevels f) (d_bids d) \<and> holds_levels (AskLevels f) (d_asks d)"
proof -
  have b: "\<not> (ls \<noteq> [] \<and> h \<le> Offset (last ls)) \<longleftrightarrow> (\<forall>l\<in>set ls. Offset l < h)"
    if "wf_levels ls" for ls and h :: u32
    using last_bound_iff [of ls "\<lambda>x. x < h"] that by (auto simp: wf_levels_def not_le)
  have a: "\<not> (ls \<noteq> [] \<and> (ucast MaxTick :: u64) < ucast (Offset (last ls)) + ucast h) \<longleftrightarrow>
      (\<forall>l\<in>set ls. unat (Offset l) + unat h \<le> unat MaxTick)"
    if "wf_levels ls" for ls and h :: u32
    using last_bound_iff [of ls "\<lambda>x. unat x + unat h \<le> unat MaxTick"] that
    by (auto simp: wf_levels_def u64_sum_of_u32 not_less word_le_nat_alt)
  have "decodeCompactFrame f = Inr d \<longleftrightarrow>
      submittable_header (DecodeHeader f) \<and>
      (\<exists>bids. (wf_levels bids \<and> holds_levels (BidLevels f) bids) \<and>
      (\<exists>asks. (wf_levels asks \<and> holds_levels (AskLevels f) asks) \<and>
        \<not> (bids \<noteq> [] \<and> h_BaseTick (DecodeHeader f) \<le> Offset (last bids)) \<and>
        \<not> (asks \<noteq> [] \<and>
           (ucast MaxTick :: u64) < ucast (Offset (last asks)) + ucast (h_BaseTick (DecodeHeader f))) \<and>
        \<lparr>d_header = DecodeHeader f, d_bids = bids, d_asks = asks\<rparr> = d))"
    using assms unfolding decodeCompactFrame_def frame_arrays_def Let_def reject_Inr attempt_Inr wrap_err_Inr
    by (simp add: DecodeLevels_iff submittable_header_def) blast
  also have "\<dots> \<longleftrightarrow> submittable_header (DecodeHeader f) \<and>
      (\<exists>bids. (wf_levels bids \<and> holds_levels (BidLevels f) bids) \<and>
      (\<exists>asks. (wf_levels asks \<and> holds_levels (AskLevels f) asks) \<and>
        (\<forall>l\<in>set bids. Offset l < h_BaseTick (DecodeHeader f)) \<and>
        (\<forall>l\<in>set asks. unat (Offset l) + unat (h_BaseTick (DecodeHeader f)) \<le> unat MaxTick) \<and>
        \<lparr>d_header = DecodeHeader f, d_bids = bids, d_asks = asks\<rparr> = d))"
    by (intro conj_cong ex_cong1 refl a b) simp_all
  also have "\<dots> \<longleftrightarrow> d_header d = DecodeHeader f \<and> submittable_header (d_header d) \<and>
    valid_book (h_BaseTick (d_header d)) (d_bids d) (d_asks d) \<and>
    holds_levels (BidLevels f) (d_bids d) \<and> holds_levels (AskLevels f) (d_asks d)"
    by (cases d) (auto simp: valid_book_def)
  finally show ?thesis .
qed

text \<open>What decoding an encoded specification yields.\<close>

definition decoded_of :: "frame_spec \<Rightarrow> decoded_compact_frame" where
  "decoded_of spec = \<lparr>d_header =
     \<lparr>h_UpdatedAt = fs_UpdatedAt spec, h_MajorVersion = fs_MajorVersion spec,
      h_MinorVersion = fs_MinorVersion spec, h_BaseTick = fs_BaseTick spec,
      h_PairID = pp_PairID (fs_Pair spec), h_CodecVersion = fs_CodecVersion spec,
      h_BidFilledLots = 0, h_AskFilledLots = 0, h_WrittenAt = 0, h_Reserved = 0\<rparr>,
     d_bids = fs_Bids spec, d_asks = fs_Asks spec\<rparr>"

text \<open>The specification with the quote of a decoded frame, the rest taken from \<open>spec\<close>.\<close>

definition with_decoded :: "frame_spec \<Rightarrow> decoded_compact_frame \<Rightarrow> frame_spec" where
  "with_decoded spec d = spec\<lparr>fs_Pair := (fs_Pair spec)\<lparr>pp_PairID := h_PairID (d_header d)\<rparr>,
     fs_BaseTick := h_BaseTick (d_header d), fs_Bids := d_bids d, fs_Asks := d_asks d,
     fs_UpdatedAt := h_UpdatedAt (d_header d), fs_MajorVersion := h_MajorVersion (d_header d),
     fs_MinorVersion := h_MinorVersion (d_header d), fs_CodecVersion := h_CodecVersion (d_header d)\<rparr>"

lemma encodeCompactFrame_iff:
  "encodeCompactFrame spec = Inr f \<longleftrightarrow>
    fs_CodecVersion spec = CodecVersion \<and> fs_BaseTick spec \<noteq> 0 \<and> fs_BaseTick spec \<le> MaxTick \<and>
    frame_arrays f \<and> decodeCompactFrame f = Inr (decoded_of spec)"
proof -
  let ?H = "header_word (fs_CodecVersion spec) (pp_PairID (fs_Pair spec)) (fs_BaseTick spec)
      (fs_MinorVersion spec) (fs_MajorVersion spec) (fs_UpdatedAt spec)"
  let ?pre = "fs_CodecVersion spec = CodecVersion \<and> fs_BaseTick spec \<noteq> 0 \<and> fs_BaseTick spec \<le> MaxTick"
  have hdr: "DecodeHeader \<lparr>Header = ?H, BidLevels = b, AskLevels = a\<rparr> = d_header (decoded_of spec)"
    if ?pre for a b
    using that by (simp add: DecodeHeader_header_word decoded_of_def)
  have "encodeCompactFrame spec = Inr f \<longleftrightarrow> ?pre \<and>
      (\<exists>b a. encodeLevels (fs_Bids spec) = Inr b \<and> encodeLevels (fs_Asks spec) = Inr a \<and>
        f = \<lparr>Header = ?H, BidLevels = b, AskLevels = a\<rparr> \<and> (\<exists>d. decodeCompactFrame f = Inr d))"
    unfolding encodeCompactFrame_def ValidateCompactFrame_def Let_def header_word_puts
    by (auto simp: attempt_Inr not_less)
  also have "\<dots> \<longleftrightarrow> ?pre \<and> frame_arrays f \<and> decodeCompactFrame f = Inr (decoded_of spec)"
  proof (intro conj_cong refl iffI)
    assume pre: ?pre
    assume "\<exists>b a. encodeLevels (fs_Bids spec) = Inr b \<and> encodeLevels (fs_Asks spec) = Inr a \<and>
        f = \<lparr>Header = ?H, BidLevels = b, AskLevels = a\<rparr> \<and> (\<exists>d. decodeCompactFrame f = Inr d)"
    then obtain b a d where ba: "encodeLevels (fs_Bids spec) = Inr b" "encodeLevels (fs_Asks spec) = Inr a"
      and f: "f = \<lparr>Header = ?H, BidLevels = b, AskLevels = a\<rparr>" and d: "decodeCompactFrame f = Inr d"
      by blast
    have arr: "frame_arrays f" using f ba by (simp add: frame_arrays_def encodeLevels_iff)
    have "DecodeLevels b = Inr (fs_Bids spec)" "DecodeLevels a = Inr (fs_Asks spec)"
      using ba level_words.enc_dec by blast+
    then have "d_bids d = fs_Bids spec" "d_asks d = fs_Asks spec" "d_header d = DecodeHeader f"
      using d f by (auto simp: decodeCompactFrame_def Let_def attempt_Inr)
    then have "d = decoded_of spec"
      using hdr [OF pre, of b a] f by (cases d) (simp add: decoded_of_def)
    then show "frame_arrays f \<and> decodeCompactFrame f = Inr (decoded_of spec)" using arr d by simp
  next
    assume pre: ?pre and "frame_arrays f \<and> decodeCompactFrame f = Inr (decoded_of spec)"
    then have arr: "frame_arrays f" and dec: "decodeCompactFrame f = Inr (decoded_of spec)" by simp_all
    from dec arr have d: "d_header (decoded_of spec) = DecodeHeader f"
      "submittable_header (DecodeHeader f)" "valid_book (fs_BaseTick spec) (fs_Bids spec) (fs_Asks spec)"
      "holds_levels (BidLevels f) (fs_Bids spec)" "holds_levels (AskLevels f) (fs_Asks spec)"
      by (auto simp: decodeCompactFrame_iff decoded_of_def)
    then have "encodeLevels (fs_Bids spec) = Inr (BidLevels f)" "encodeLevels (fs_Asks spec) = Inr (AskLevels f)"
      using arr by (simp_all add: encodeLevels_iff frame_arrays_def valid_book_def)
    moreover have "Header f = ?H"
      using header_word_DecodeHeader [of f] arr d(2) unfolding d(1) [symmetric]
      by (simp add: frame_arrays_def submittable_header_def decoded_of_def)
    ultimately show "\<exists>b a. encodeLevels (fs_Bids spec) = Inr b \<and> encodeLevels (fs_Asks spec) = Inr a \<and>
        f = \<lparr>Header = ?H, BidLevels = b, AskLevels = a\<rparr> \<and> (\<exists>d. decodeCompactFrame f = Inr d)"
      using dec by (cases f) auto
  qed
  finally show ?thesis by simp
qed

lemma decoded_of_with_decoded:
  "submittable_header (d_header d) \<Longrightarrow> decoded_of (with_decoded spec d) = d"
  by (cases d; cases "d_header d") (simp add: decoded_of_def with_decoded_def submittable_header_def)

interpretation frame_words: checked_codec
  "\<lambda>d. encodeCompactFrame (with_decoded spec d)" decodeCompactFrame frame_arrays
  "\<lambda>d. submittable_header (d_header d)" for spec
proof unfold_locales
  fix d f
  assume "submittable_header (d_header d)" "encodeCompactFrame (with_decoded spec d) = Inr f"
  then show "frame_arrays f \<and> decodeCompactFrame f = Inr d"
    by (simp add: encodeCompactFrame_iff decoded_of_with_decoded)
next
  fix f d
  assume f: "frame_arrays f" and d: "decodeCompactFrame f = Inr d"
  then have h: "submittable_header (d_header d)" "d_header d = DecodeHeader f"
    using decodeCompactFrame_iff by blast+
  have "h_BaseTick (DecodeHeader f) \<le> MaxTick"
    using f by (simp add: DecodeHeader_def Let_def frame_arrays_def)
  then have "encodeCompactFrame (with_decoded spec d) = Inr f"
    using f d h by (simp add: encodeCompactFrame_iff decoded_of_with_decoded)
      (simp add: with_decoded_def submittable_header_def)
  then show "submittable_header (d_header d) \<and> encodeCompactFrame (with_decoded spec d) = Inr f"
    using h(1) by simp
qed

lemma encodeCompactFrame_ok:
  assumes "valid_spec spec"
  shows "\<exists>f. encodeCompactFrame spec = Inr f"
proof -
  from assms obtain b a where "length b = 32" "holds_levels b (fs_Bids spec)"
      "length a = 32" "holds_levels a (fs_Asks spec)"
    using encodeLevels_ok unfolding valid_spec_def valid_book_def by blast
  then have "encodeCompactFrame spec = Inr
    \<lparr>Header = header_word (fs_CodecVersion spec) (pp_PairID (fs_Pair spec)) (fs_BaseTick spec)
        (fs_MinorVersion spec) (fs_MajorVersion spec) (fs_UpdatedAt spec),
     BidLevels = b, AskLevels = a\<rparr>"
    using assms
    by (simp add: encodeCompactFrame_iff frame_arrays_def decodeCompactFrame_iff
        DecodeHeader_header_word valid_spec_def) (simp add: decoded_of_def submittable_header_def)
  then show ?thesis ..
qed

subsection \<open>Properties\<close>

text \<open>The price ticks of a decoded book, as \<open>BaseTick - Offset\<close> and \<open>BaseTick + Offset\<close>.\<close>

definition bid_tick :: "u32 \<Rightarrow> level \<Rightarrow> nat" where
  "bid_tick base l = unat base - unat (Offset l)"

definition ask_tick :: "u32 \<Rightarrow> level \<Rightarrow> nat" where
  "ask_tick base l = unat base + unat (Offset l)"

definition sample_pair :: pair_params where
  "sample_pair = \<lparr>pp_PairID = 7, pp_BaseToken = 0xA1, pp_QuoteToken = 0xB2, pp_BaseDecimals = 18,
     pp_QuoteDecimals = 6, pp_PriceTickSize = Some 10000, pp_LotSize = Some 1000000000000000\<rparr>"

definition sample_spec :: frame_spec where
  "sample_spec = \<lparr>fs_ChainID = 1, fs_Protocol = 0xC3, fs_Maker = 0xD4, fs_Pair = sample_pair,
     fs_BaseTick = 300000, fs_Bids = [\<lparr>Offset = 0, QtyLots = 5\<rparr>, \<lparr>Offset = 10, QtyLots = 70000\<rparr>],
     fs_Asks = [\<lparr>Offset = 3, QtyLots = 8\<rparr>], fs_UpdatedAt = 1700000000, fs_MajorVersion = 2,
     fs_MinorVersion = 9, fs_CodecVersion = 1\<rparr>"

lemma sample_spec_valid: "valid_spec sample_spec"
  by (simp add: valid_spec_def valid_book_def wf_levels_def wf_level_def sample_spec_def
      sample_pair_def CodecVersion_def MaxTick_def MaxLevels_def)

lemma sample_frame:
  "\<exists>f. encodeCompactFrame sample_spec = Inr f \<and> frame_arrays f \<and>
     decodeCompactFrame f = Inr (decoded_of sample_spec)"
  using encodeCompactFrame_ok [OF sample_spec_valid] by (simp add: encodeCompactFrame_iff)

text \<open>C1: decoding the frame that \<open>encodeCompactFrame\<close> builds from a specification gives back
  exactly the specification's timestamp, versions, base tick, pair, codec version and both
  books, with every protocol-owned field zero; the frame's words have 32 bytes.\<close>

theorem encode_then_decode:
  assumes "encodeCompactFrame spec = Inr f"
  shows "frame_arrays f \<and> decodeCompactFrame f = Inr (decoded_of spec)"
  using assms by (simp add: encodeCompactFrame_iff)

theorem encode_then_decode_witness:
  "\<exists>f. encodeCompactFrame sample_spec = Inr f \<and> frame_arrays f \<and>
     decodeCompactFrame f = Inr (decoded_of sample_spec)"
  using sample_frame encode_then_decode [of sample_spec] by blast

text \<open>C6: a frame the decoder accepts is the encoder's own output: re-encoding the decoded
  header and books gives back the same 96 bytes, so accepted calldata is canonical.\<close>

theorem decode_then_encode:
  assumes "frame_arrays f" and "decodeCompactFrame f = Inr d"
  shows "encodeCompactFrame (with_decoded spec d) = Inr f"
  using frame_words.dec_enc [OF assms] by blast

theorem decode_then_encode_witness:
  "\<exists>f. frame_arrays f \<and> decodeCompactFrame f = Inr (decoded_of sample_spec) \<and>
     encodeCompactFrame (with_decoded sample_spec (decoded_of sample_spec)) = Inr f"
  using sample_frame decode_then_encode [of _ "decoded_of sample_spec" sample_spec] by blast

text \<open>C30: \<open>encodeCompactFrame\<close> succeeds on exactly the valid specifications: codec version 1, a
  nonzero pair, a base tick in the positive uint24 range, at most five levels per side with
  uint24 offsets and positive uint24 quantities in strictly increasing offset order, every bid
  at least one tick and every ask at most the largest tick.\<close>

theorem encode_accepts_iff: "(\<exists>f. encodeCompactFrame spec = Inr f) \<longleftrightarrow> valid_spec spec"
proof
  assume "\<exists>f. encodeCompactFrame spec = Inr f"
  then obtain f where f: "fs_CodecVersion spec = CodecVersion" "fs_BaseTick spec \<noteq> 0"
      "fs_BaseTick spec \<le> MaxTick" "frame_arrays f" "decodeCompactFrame f = Inr (decoded_of spec)"
    by (auto simp: encodeCompactFrame_iff)
  then have "submittable_header (d_header (decoded_of spec))"
      "valid_book (fs_BaseTick spec) (fs_Bids spec) (fs_Asks spec)"
    by (auto simp: decodeCompactFrame_iff decoded_of_def)
  then show "valid_spec spec"
    using f by (simp add: valid_spec_def submittable_header_def decoded_of_def)
qed (rule encodeCompactFrame_ok)

text \<open>an accepted frame never carries a crossed book: bid ticks lie between one and the base
  tick in strictly decreasing order, ask ticks between the base tick and \<open>MaxTick\<close> in strictly
  increasing order, so no bid is above any ask; a locked book is possible.\<close>

theorem accepted_book_uncrossed:
  assumes "frame_arrays f" and "decodeCompactFrame f = Inr d"
  shows "let base = h_BaseTick (d_header d) in
    (\<forall>b\<in>set (d_bids d). 1 \<le> bid_tick base b \<and> bid_tick base b \<le> unat base) \<and>
    (\<forall>a\<in>set (d_asks d). unat base \<le> ask_tick base a \<and> ask_tick base a \<le> unat MaxTick) \<and>
    sorted_wrt (>) (map (bid_tick base) (d_bids d)) \<and> sorted_wrt (<) (map (ask_tick base) (d_asks d))"
proof -
  let ?base = "h_BaseTick (d_header d)"
  have v: "valid_book ?base (d_bids d) (d_asks d)"
    using assms decodeCompactFrame_iff by blast
  then have bids: "\<forall>b\<in>set (d_bids d). unat (Offset b) < unat ?base"
    by (auto simp: valid_book_def word_less_nat_alt)
  have srt: "sorted_wrt (<) (map Offset (d_bids d))" "sorted_wrt (<) (map Offset (d_asks d))"
    using v by (simp_all add: valid_book_def wf_levels_def)
  have "sorted_wrt (>) (map (bid_tick ?base) (d_bids d))"
  proof (rule sorted_wrt_map_transfer [OF srt(1)])
    fix x y
    assume "x \<in> set (d_bids d)" "y \<in> set (d_bids d)" "Offset x < Offset y"
    then have "unat (Offset x) < unat (Offset y)" "unat (Offset y) < unat ?base"
      using bids by (simp_all add: word_less_nat_alt)
    then show "bid_tick ?base x > bid_tick ?base y" by (simp add: bid_tick_def)
  qed
  moreover have "sorted_wrt (<) (map (ask_tick ?base) (d_asks d))"
    by (rule sorted_wrt_map_transfer [OF srt(2)]) (simp add: ask_tick_def word_less_nat_alt)
  moreover have "\<forall>b\<in>set (d_bids d). 1 \<le> bid_tick ?base b \<and> bid_tick ?base b \<le> unat ?base"
    using bids by (simp add: bid_tick_def Suc_le_eq)
  moreover have "\<forall>a\<in>set (d_asks d). unat ?base \<le> ask_tick ?base a \<and> ask_tick ?base a \<le> unat MaxTick"
    using v by (simp add: ask_tick_def valid_book_def add.commute)
  ultimately show ?thesis by (simp add: Let_def)
qed

theorem accepted_book_uncrossed_witness:
  "\<exists>f. frame_arrays f \<and> decodeCompactFrame f = Inr (decoded_of sample_spec) \<and>
     map (bid_tick 300000) (fs_Bids sample_spec) = [300000, 299990] \<and>
     map (ask_tick 300000) (fs_Asks sample_spec) = [300003] \<and>
     (\<forall>a\<in>set (fs_Asks sample_spec). ask_tick 300000 a \<le> unat MaxTick)"
proof -
  obtain f where f: "frame_arrays f" "decodeCompactFrame f = Inr (decoded_of sample_spec)"
    using sample_frame by blast
  from accepted_book_uncrossed [OF f]
  have "\<forall>a\<in>set (fs_Asks sample_spec). ask_tick 300000 a \<le> unat MaxTick"
    by (simp add: Let_def decoded_of_def sample_spec_def)
  with f show ?thesis
    by (auto simp: sample_spec_def bid_tick_def ask_tick_def)
qed

end
