(* ===== verification/Wire_Messages.thy ===== *)
theory Wire_Messages
  imports Go_Library
begin

text \<open>
  The protobuf messages of \<open>pkg/types/marketstream.pb.go\<close> as records: a message pointer that
  may be nil is an \<open>option\<close>, a oneof is a datatype, and \<open>unknownFields\<close> (the bytes of fields
  the decoder did not know) is kept because the stream code inspects it. The wire encoding
  itself is the protobuf library's. \<open>common.IsHexAddress\<close> and \<open>common.HexToAddress\<close> of
  go-ethereum, applied to the address strings of these messages, are the fields of \<open>hexlib\<close>.
\<close>

record hexlib =
  IsHexAddress :: "string \<Rightarrow> bool"
  HexToAddress :: "string \<Rightarrow> address"

record heartbeat =
  hb_Ping :: bool
  hb_Pong :: bool
  hb_unknown :: bytes

record pair_key =
  pk_ChainId :: u64
  pk_PairId :: u32
  pk_BaseToken :: string
  pk_QuoteToken :: string
  pk_unknown :: bytes

record price_level =
  pl_Price :: string
  pl_Amount :: string
  pl_unknown :: bytes

record pb_compact_frame =
  pcf_Header :: bytes
  pcf_BidLevels :: bytes
  pcf_AskLevels :: bytes
  pcf_unknown :: bytes

record market_frame =
  mf_UpdatedAt :: u32
  mf_Pair :: "pair_key option"
  mf_Bids :: "price_level option list"
  mf_Asks :: "price_level option list"
  mf_Frame :: "pb_compact_frame option"
  mf_MakerAddr :: string
  mf_Signature :: bytes
  mf_unknown :: bytes

definition GetPrice :: "price_level option \<Rightarrow> string" where
  "GetPrice x = (case x of None \<Rightarrow> [] | Some l \<Rightarrow> pl_Price l)"

definition GetAmount :: "price_level option \<Rightarrow> string" where
  "GetAmount x = (case x of None \<Rightarrow> [] | Some l \<Rightarrow> pl_Amount l)"

subsection \<open>Envelopes\<close>

text \<open>A proto3 enum is open: a received number without a name is \<open>MMT_Other\<close> or \<open>RMT_Other\<close>.\<close>

datatype maker_message_type =
    MMT_UNSPECIFIED
  | MMT_FRAME_PUSH
  | MMT_FRAME_ACK
  | MMT_HEARTBEAT
  | MMT_CONNECTION_ACK
  | MMT_Other int

datatype router_message_type =
    RMT_UNSPECIFIED
  | RMT_SUBSCRIBE
  | RMT_SUBSCRIBE_ACK
  | RMT_FRAME_UPDATE
  | RMT_HEARTBEAT
  | RMT_ERROR
  | RMT_CONNECTION_ACK
  | RMT_Other int

record frame_ack =
  fa_Pair :: "pair_key option"
  fa_MajorVersion :: u32
  fa_MinorVersion :: u32
  fa_Accepted :: bool
  fa_RejectStep :: string
  fa_RejectReason :: string
  fa_unknown :: bytes

record connection_ack =
  ca_Success :: bool
  ca_Identity :: string
  ca_ServerTime :: int
  ca_unknown :: bytes

record pb_error =
  pe_Code :: string
  pe_Message :: string
  pe_unknown :: bytes

record pair_filter =
  pf_Pair :: "pair_key option"
  pf_Maker :: string
  pf_AllowPairGray :: bool
  pf_AllowMakerGray :: bool
  pf_unknown :: bytes

record subscribe_request =
  sr_Filters :: "pair_filter list"
  sr_unknown :: bytes

record pair_filter_result =
  pr_Filter :: "pair_filter option"
  pr_Ok :: bool
  pr_Reason :: string
  pr_unknown :: bytes

record subscribe_ack =
  sa_Results :: "pair_filter_result option list"
  sa_unknown :: bytes

datatype maker_payload =
    MP_None
  | MP_FramePush market_frame
  | MP_FrameAck frame_ack
  | MP_Heartbeat heartbeat
  | MP_ConnectionAck connection_ack

datatype router_payload =
    RP_None
  | RP_Subscribe subscribe_request
  | RP_SubscribeAck subscribe_ack
  | RP_Update market_frame
  | RP_Heartbeat heartbeat
  | RP_Error pb_error
  | RP_ConnectionAck connection_ack

record maker_envelope =
  me_Type :: maker_message_type
  me_Timestamp :: int
  me_Payload :: maker_payload
  me_unknown :: bytes

record router_envelope =
  re_Type :: router_message_type
  re_Timestamp :: int
  re_Payload :: router_payload
  re_unknown :: bytes

definition me_GetFrameAck :: "maker_envelope \<Rightarrow> frame_ack option" where
  "me_GetFrameAck e = (case me_Payload e of MP_FrameAck a \<Rightarrow> Some a | _ \<Rightarrow> None)"

definition me_GetHeartbeat :: "maker_envelope \<Rightarrow> heartbeat option" where
  "me_GetHeartbeat e = (case me_Payload e of MP_Heartbeat h \<Rightarrow> Some h | _ \<Rightarrow> None)"

definition me_GetConnectionAck :: "maker_envelope \<Rightarrow> connection_ack option" where
  "me_GetConnectionAck e = (case me_Payload e of MP_ConnectionAck a \<Rightarrow> Some a | _ \<Rightarrow> None)"

definition re_GetSubscribeAck :: "router_envelope \<Rightarrow> subscribe_ack option" where
  "re_GetSubscribeAck e = (case re_Payload e of RP_SubscribeAck a \<Rightarrow> Some a | _ \<Rightarrow> None)"

definition re_GetUpdate :: "router_envelope \<Rightarrow> market_frame option" where
  "re_GetUpdate e = (case re_Payload e of RP_Update m \<Rightarrow> Some m | _ \<Rightarrow> None)"

definition re_GetHeartbeat :: "router_envelope \<Rightarrow> heartbeat option" where
  "re_GetHeartbeat e = (case re_Payload e of RP_Heartbeat h \<Rightarrow> Some h | _ \<Rightarrow> None)"

definition re_GetError :: "router_envelope \<Rightarrow> pb_error option" where
  "re_GetError e = (case re_Payload e of RP_Error a \<Rightarrow> Some a | _ \<Rightarrow> None)"

definition re_GetConnectionAck :: "router_envelope \<Rightarrow> connection_ack option" where
  "re_GetConnectionAck e = (case re_Payload e of RP_ConnectionAck a \<Rightarrow> Some a | _ \<Rightarrow> None)"

end
