(* ===== verification/Frame_Decimal.thy ===== *)
theory Frame_Decimal
  imports Frame_Codec Wire_Messages
begin

text \<open>
  The readable prices and amounts of \<open>pkg/frame/decimal.go\<close>: \<open>decimal\<close> writes
  \<open>n / 10 ^ scale\<close> without rounding and \<open>humanLevels\<close> renders both columns of one side of a
  book. The lemmas give the shape of the text and its exact value.
\<close>

definition maxDecimalLength :: nat where
  "maxDecimalLength = 64"

definition decimal :: "int \<Rightarrow> int \<Rightarrow> string" where
  "decimal n scale = (let s = big_String n in
     if scale \<le> 0 then s @ Repeat ''0'' (nat (- scale))
     else
       let s = (if int (length s) \<le> scale then Repeat ''0'' (nat (scale + 1 - int (length s))) @ s else s);
           split = length s - nat scale;
           s = take split s @ ''.'' @ drop split s
       in TrimRight (TrimRight s ''0'') ''.'')"

text \<open>\<open>18 + int(pair.QuoteDecimals) - int(pair.BaseDecimals)\<close>, which both the maker and the
  router compute.\<close>

definition priceScale :: "pair_params \<Rightarrow> int" where
  "priceScale pair = 18 + uint (pp_QuoteDecimals pair) - uint (pp_BaseDecimals pair)"

text \<open>The uint64 tick of a level.\<close>

definition level_tick :: "u32 \<Rightarrow> bool \<Rightarrow> level \<Rightarrow> u64" where
  "level_tick base bid l = (if bid then ucast base - ucast (Offset l) else ucast base + ucast (Offset l))"

text \<open>\<open>humanLevels\<close> with the two scale integers already dereferenced; its only caller has
  checked with \<open>ValidatePair\<close> that they are not nil.\<close>

fun humanLevels_loop ::
  "u32 \<Rightarrow> bool \<Rightarrow> int \<Rightarrow> int \<Rightarrow> int \<Rightarrow> int \<Rightarrow> level list \<Rightarrow> price_level option list
     \<Rightarrow> frame_error + price_level option list" where
  "humanLevels_loop base bid pscale ascale ptick lot [] out = Inr out"
| "humanLevels_loop base bid pscale ascale ptick lot (l # ls) out =
     (let priceUnits = uint (level_tick base bid l) * ptick;
          amountUnits = uint (QtyLots l) * lot;
          price = decimal priceUnits pscale;
          amount = decimal amountUnits ascale
      in reject (length price > maxDecimalLength \<or> length amount > maxDecimalLength) ReadableTooLong
        (humanLevels_loop base bid pscale ascale ptick lot ls
           (out @ [Some \<lparr>pl_Price = price, pl_Amount = amount, pl_unknown = []\<rparr>])))"

definition humanLevels ::
  "level list \<Rightarrow> u32 \<Rightarrow> bool \<Rightarrow> pair_params \<Rightarrow> frame_error + price_level option list" where
  "humanLevels levels base bid pair =
     (case (pp_PriceTickSize pair, pp_LotSize pair) of
        (Some ptick, Some lot) \<Rightarrow>
          humanLevels_loop base bid (priceScale pair) (uint (pp_BaseDecimals pair)) ptick lot levels []
      | _ \<Rightarrow> if levels = [] then Inr [] else Inl NilDereference)"

subsection \<open>Shape and value of the text\<close>

lemma TrimRight_snoc [simp]:
  "TrimRight (xs @ [c]) [d] = (if c = d then TrimRight xs [d] else xs @ [c])"
  by (simp add: TrimRight_def)

lemma TrimRight_Nil [simp]: "TrimRight [] cs = []"
  by (simp add: TrimRight_def)

lemma TrimRight_replicate [simp]: "TrimRight (xs @ replicate k d) [d] = TrimRight xs [d]"
  by (induction k) (simp_all add: replicate_append_same [symmetric] flip: append_assoc)

lemma TrimRight_id: "xs = [] \<or> last xs \<noteq> d \<Longrightarrow> TrimRight xs [d] = xs"
  by (cases xs rule: rev_cases) simp_all

text \<open>The text has a nonempty whole part and an optional fraction without trailing zeros;
  together with \<open>z\<close> dropped zeros the digits are those of \<open>n\<close>.\<close>

lemma decimal_text:
  assumes "w \<noteq> []" "list_all is_digit (w @ f)"
  shows "TrimRight (TrimRight (w @ ''.'' @ f) ''0'') ''.'' =
    (let f' = TrimRight f ''0'' in if f' = [] then w else w @ ''.'' @ f')"
proof -
  obtain z where z: "f = TrimRight f ''0'' @ replicate z zero_char"
    using TrimRight_split by blast
  let ?f = "TrimRight f ''0''"
  have digits: "list_all is_digit ?f"
    using assms(2) by (subst (asm) z) simp
  have "TrimRight (w @ ''.'' @ f) ''0'' = TrimRight (w @ ''.'' @ ?f) ''0''"
    by (subst z) (metis TrimRight_replicate append_assoc)
  also have "\<dots> = w @ ''.'' @ ?f"
    using TrimRight_last [of f zero_char] by (intro TrimRight_id) (auto simp: last_append)
  finally have *: "TrimRight (w @ ''.'' @ f) ''0'' = w @ ''.'' @ ?f" .
  show ?thesis
  proof (cases "?f = []")
    case True
    have "last w \<noteq> dot_char"
      using assms by (simp add: last_digit_not_dot)
    then show ?thesis
      unfolding * using True assms(1) by (simp add: TrimRight_id)
  next
    case False
    then have "last ?f \<noteq> dot_char" using digits by (simp add: last_digit_not_dot)
    then have "TrimRight (w @ ''.'' @ ?f) ''.'' = w @ ''.'' @ ?f"
      using False by (intro TrimRight_id) simp
    then show ?thesis unfolding * using False by (simp add: Let_def)
  qed
qed

lemma decimal_shape:
  assumes "0 \<le> n" "0 < scale"
  obtains w f z where "w \<noteq> []" "list_all is_digit w" "list_all is_digit f"
    "decimal n scale = (if f = [] then w else w @ ''.'' @ f)"
    "length f + z = nat scale" "digits_val (w @ f) * 10 ^ z = nat n"
proof -
  let ?s0 = "nat_text (nat n)"
  define s where "s = (if int (length ?s0) \<le> scale
    then Repeat ''0'' (nat (scale + 1 - int (length ?s0))) @ ?s0 else ?s0)"
  define w f where "w = take (length s - nat scale) s" and "f = drop (length s - nat scale) s"
  have len: "nat scale < length s"
    using assms by (auto simp: s_def)
  have dig: "list_all is_digit s"
    by (simp add: s_def nat_text_digits)
  have val: "digits_val s = nat n"
    by (simp add: s_def digits_val_append)
  have s: "s = w @ f" "length f = nat scale" "w \<noteq> []"
    using len by (auto simp: w_def f_def)
  obtain z where z: "f = TrimRight f ''0'' @ replicate z zero_char"
    using TrimRight_split by blast
  have dec: "decimal n scale = (let f' = TrimRight f ''0'' in if f' = [] then w else w @ ''.'' @ f')"
    using assms decimal_text [of w f] s dig
    by (simp add: decimal_def big_String_def Let_def s_def [symmetric] w_def [symmetric] f_def [symmetric])
  have "digits_val (w @ TrimRight f ''0'') * 10 ^ z = digits_val (w @ TrimRight f ''0'' @ replicate z zero_char)"
    by (simp add: digits_val_append power_add algebra_simps)
  also have "\<dots> = nat n" using val s(1) z by metis
  finally have "digits_val (w @ TrimRight f ''0'') * 10 ^ z = nat n" .
  moreover have "length (TrimRight f ''0'') + z = nat scale"
    using s(2) by (subst (asm) z) simp
  moreover have "list_all is_digit w" "list_all is_digit (TrimRight f ''0'')"
    using dig s(1) z by (metis list_all_append)+
  ultimately show ?thesis using that [of w "TrimRight f ''0''" z] s(3) dec by (simp add: Let_def)
qed

text \<open>Without a fraction the text is the digits of \<open>n\<close> followed by the zeros of a negative
  scale.\<close>

lemma decimal_nonpos_scale:
  "0 \<le> n \<Longrightarrow> scale \<le> 0 \<Longrightarrow> decimal n scale = nat_text (nat n) @ replicate (nat (- scale)) zero_char"
  by (simp add: decimal_def big_String_def)

lemma plain_decimal_parts:
  assumes "w \<noteq> []" "list_all is_digit w" "list_all is_digit f"
  shows "plain_decimal (if f = [] then w else w @ ''.'' @ f)"
    and "decimal_rat (if f = [] then w else w @ ''.'' @ f) =
      of_nat (digits_val (w @ f)) / 10 ^ length f"
  using assms by (simp_all add: plain_decimal_def decimal_rat_def Cut_digits Cut_dot)

lemma decimal_exact_value:
  assumes "0 \<le> n"
  shows "plain_decimal (decimal n scale) \<and> decimal_rat (decimal n scale) = of_int n / 10 powi scale"
proof (cases "scale \<le> 0")
  case True
  let ?t = "nat_text (nat n) @ replicate (nat (- scale)) zero_char"
  have "list_all is_digit ?t" by (simp add: nat_text_digits)
  moreover have "of_nat (digits_val ?t) = (of_int n / 10 powi scale :: rat)"
  proof -
    define k where "k = nat (- scale)"
    have k: "scale = - int k" using True by (simp add: k_def)
    have "of_nat (digits_val ?t) = (of_nat (nat n) * 10 ^ k :: rat)"
      by (simp add: digits_val_append k_def)
    also have "\<dots> = of_int n * 10 ^ k" using assms by simp
    finally show ?thesis by (simp add: k power_int_minus divide_inverse)
  qed
  ultimately show ?thesis
    using plain_decimal_parts [of ?t "[]"] by (simp add: decimal_nonpos_scale [OF assms True])
next
  case False
  then have pos: "0 < scale" by simp
  obtain w f z where wf: "w \<noteq> []" "list_all is_digit w" "list_all is_digit f"
    and dec: "decimal n scale = (if f = [] then w else w @ ''.'' @ f)"
    and len: "length f + z = nat scale" and val: "digits_val (w @ f) * 10 ^ z = nat n"
    by (rule decimal_shape [OF assms pos])
  have "of_int n = (of_nat (digits_val (w @ f) * 10 ^ z) :: rat)"
    using assms by (simp add: val)
  also have "\<dots> = of_nat (digits_val (w @ f)) * 10 ^ z"
    by simp
  finally have n: "of_int n = (of_nat (digits_val (w @ f)) * 10 ^ z :: rat)" .
  have "10 powi scale = (10 ^ length f * 10 ^ z :: rat)"
    using False by (simp add: power_int_def flip: len power_add)
  then have "of_nat (digits_val (w @ f)) / 10 ^ length f = (of_int n / 10 powi scale :: rat)"
    using n by simp
  then show ?thesis
    using plain_decimal_parts [OF wf] unfolding dec by simp
qed

text \<open>\<open>decimal n scale\<close> is a plain decimal whose exact rational value is \<open>n / 10 ^ scale\<close>,
  for every nonnegative \<open>n\<close> and every scale, negative ones included: nothing is rounded.\<close>

theorem decimal_exact:
  assumes "0 \<le> n"
  shows "plain_decimal (decimal n scale) \<and> decimal_rat (decimal n scale) = of_int n / 10 powi scale"
  using decimal_exact_value [OF assms] .

theorem decimal_exact_witness:
  "decimal 12345000 4 = ''1234.5'' \<and> plain_decimal ''1234.5'' \<and>
   decimal_rat (decimal 12345000 4) = of_int 12345000 / 10 powi 4 \<and> decimal 70 (- 1) = ''700''"
proof -
  have "nat_text 12345000 = ''12345000''"
    by (simp add: nat_text.simps digit_char_numeral)
  moreover have "TrimRight (TrimRight ''1234.5000'' ''0'') ''.'' = ''1234.5''"
    by (simp add: TrimRight_def)
  ultimately have "decimal 12345000 4 = ''1234.5''"
    by (simp add: decimal_def big_String_def)
  moreover have "decimal 70 (- 1) = ''700''"
    by (simp add: decimal_def big_String_def nat_text.simps digit_char_numeral)
  ultimately show ?thesis using decimal_exact [of 12345000 4] by simp
qed

text \<open>A readable level says exactly what the signed integers say: its price is
  \<open>tick * PriceTickSize\<close> contract units, read with 18 fixed-point decimals in native token
  units, its amount \<open>QtyLots * LotSize\<close> native base units, and both fit the limit of 64
  characters.\<close>

definition price_value :: "pair_params \<Rightarrow> nat \<Rightarrow> rat" where
  "price_value pair tick = of_nat tick * of_int (the (pp_PriceTickSize pair)) / 10 powi priceScale pair"

definition amount_value :: "pair_params \<Rightarrow> nat \<Rightarrow> rat" where
  "amount_value pair lots =
     of_nat lots * of_int (the (pp_LotSize pair)) / 10 ^ unat (pp_BaseDecimals pair)"

definition renders :: "pair_params \<Rightarrow> nat \<Rightarrow> level \<Rightarrow> price_level option \<Rightarrow> bool" where
  "renders pair tick l out \<longleftrightarrow>
     plain_decimal (GetPrice out) \<and> decimal_rat (GetPrice out) = price_value pair tick \<and>
     plain_decimal (GetAmount out) \<and> decimal_rat (GetAmount out) = amount_value pair (unat (QtyLots l)) \<and>
     length (GetPrice out) \<le> 64 \<and> length (GetAmount out) \<le> 64"

definition level_text :: "pair_params \<Rightarrow> u64 \<Rightarrow> level \<Rightarrow> price_level option" where
  "level_text pair tick l = Some
     \<lparr>pl_Price = decimal (uint tick * the (pp_PriceTickSize pair)) (priceScale pair),
      pl_Amount = decimal (uint (QtyLots l) * the (pp_LotSize pair)) (uint (pp_BaseDecimals pair)),
      pl_unknown = []\<rparr>"

definition short_text :: "price_level option \<Rightarrow> bool" where
  "short_text x \<longleftrightarrow> length (GetPrice x) \<le> 64 \<and> length (GetAmount x) \<le> 64"

lemma humanLevels_loop_iff:
  assumes "pp_PriceTickSize pair = Some pt" "pp_LotSize pair = Some lot"
  shows "humanLevels_loop base bid (priceScale pair) (uint (pp_BaseDecimals pair)) pt lot ls acc = Inr out \<longleftrightarrow>
    out = acc @ map (\<lambda>l. level_text pair (level_tick base bid l) l) ls \<and>
    (\<forall>l\<in>set ls. short_text (level_text pair (level_tick base bid l) l))"
proof (induction ls arbitrary: acc)
  case (Cons l ls)
  show ?case
    using assms
    by (auto simp: Let_def Cons.IH level_text_def short_text_def GetPrice_def GetAmount_def
        maxDecimalLength_def not_less)
qed auto

lemma humanLevels_iff:
  assumes "ValidatePair pair = Inr ()"
  shows "humanLevels ls base bid pair = Inr out \<longleftrightarrow>
    out = map (\<lambda>l. level_text pair (level_tick base bid l) l) ls \<and> list_all short_text out"
proof -
  obtain pt lot where "pp_PriceTickSize pair = Some pt" "pp_LotSize pair = Some lot"
    using assms by (auto simp: ValidatePair_def bad_scale_def split: option.splits)
  then show ?thesis
    by (auto simp: humanLevels_def humanLevels_loop_iff list_all_iff)
qed

lemma level_text_renders:
  assumes "ValidatePair pair = Inr ()" "short_text (level_text pair tick l)"
  shows "renders pair (unat tick) l (level_text pair tick l)"
proof -
  obtain pt lot where s: "pp_PriceTickSize pair = Some pt" "0 < pt" "pp_LotSize pair = Some lot" "0 < lot"
    using assms by (auto simp: ValidatePair_def bad_scale_def split: option.splits)
  then have nn: "0 \<le> uint tick * pt" "0 \<le> uint (QtyLots l) * lot" by simp_all
  have "decimal_rat (GetPrice (level_text pair tick l)) = price_value pair (unat tick)"
      "plain_decimal (GetPrice (level_text pair tick l))"
    using decimal_exact_value [OF nn(1)] s
    by (simp_all add: level_text_def GetPrice_def price_value_def)
  moreover have "10 powi uint (pp_BaseDecimals pair) = (10 ^ unat (pp_BaseDecimals pair) :: rat)"
    by (metis power_int_of_nat uint_nat)
  then have "decimal_rat (GetAmount (level_text pair tick l)) = amount_value pair (unat (QtyLots l))"
      "plain_decimal (GetAmount (level_text pair tick l))"
    using decimal_exact_value [OF nn(2)] s
    by (simp_all add: level_text_def GetAmount_def amount_value_def)
  ultimately show ?thesis using assms(2) by (simp add: renders_def short_text_def)
qed

lemma bid_level_tick: "Offset l \<le> base \<Longrightarrow> unat (level_tick base True l) = bid_tick base l"
  by (simp add: level_tick_def bid_tick_def unat_u64_sub_u32)

lemma ask_level_tick: "unat (level_tick base False l) = ask_tick base l"
  by (simp add: level_tick_def ask_tick_def)

lemma humanLevels_renders:
  assumes "ValidatePair pair = Inr ()" "valid_book base bids asks"
  shows "humanLevels bids base True pair = Inr out \<Longrightarrow>
      list_all2 (\<lambda>l. renders pair (bid_tick base l) l) bids out"
    and "humanLevels asks base False pair = Inr out \<Longrightarrow>
      list_all2 (\<lambda>l. renders pair (ask_tick base l) l) asks out"
proof -
  have "\<forall>l\<in>set bids. Offset l \<le> base" using assms(2) by (auto simp: valid_book_def)
  then show "humanLevels bids base True pair = Inr out \<Longrightarrow>
      list_all2 (\<lambda>l. renders pair (bid_tick base l) l) bids out"
    using assms(1) level_text_renders [OF assms(1)]
    by (force simp: humanLevels_iff list_all2_conv_all_nth list_all_iff bid_level_tick [symmetric])
  show "humanLevels asks base False pair = Inr out \<Longrightarrow>
      list_all2 (\<lambda>l. renders pair (ask_tick base l) l) asks out"
    using assms(1) level_text_renders [OF assms(1)]
    by (force simp: humanLevels_iff list_all2_conv_all_nth list_all_iff ask_level_tick [symmetric])
qed

end
