(* ===== verification/Frame_Signing.thy ===== *)
theory Frame_Signing
  imports Frame_Decimal
begin

text \<open>
  Signing and preparing quotes: \<open>pkg/frame/signing.go\<close> and \<open>pkg/frame/prepare.go\<close>. What
  go-ethereum and protobuf provide (Keccak-256, signature recovery, padding, address text,
  message cloning) is the record \<open>ethlib\<close>, an argument of every definition that calls them;
  the external \<open>Signer\<close> is the record \<open>signer\<close>. The lemmas show that a signature is
  normalized once and for all, that a signed frame verifies for its signer, and that the
  message built for the stream carries the signed integers and nothing else.
\<close>

subsection \<open>Parameters\<close>

text \<open>\<open>crypto.Keccak256\<close> hashes the concatenation of its arguments; a public key is kept as its
  bytes.\<close>

record ethlib =
  keccak :: "bytes \<Rightarrow> bytes"
  ValidateSignatureValues :: "u8 \<Rightarrow> int \<Rightarrow> int \<Rightarrow> bool \<Rightarrow> bool"
  SigToPub :: "bytes \<Rightarrow> bytes \<Rightarrow> string + bytes"
  PubkeyToAddress :: "bytes \<Rightarrow> address"
  LeftPadBytes :: "bytes \<Rightarrow> nat \<Rightarrow> bytes"
  Hex :: "address \<Rightarrow> string"
  CloneFrame :: "market_frame \<Rightarrow> market_frame"

definition Keccak256 :: "ethlib \<Rightarrow> bytes list \<Rightarrow> bytes" where
  "Keccak256 L chunks = keccak L (concat chunks)"

record signer =
  signer_Address :: address
  SignDigest :: "ctx \<Rightarrow> bytes \<Rightarrow> string + bytes"

text \<open>An interface value of type \<open>Signer\<close>: nil, a non-nil interface holding a nil pointer, or a
  usable signer.\<close>

datatype signer_value = NilSigner | TypedNilSigner | LiveSigner signer

subsection \<open>signing.go\<close>

record signed_frame =
  sf_Frame :: compact_frame
  sf_Maker :: address
  sf_Signature :: bytes

record signing_domain =
  dom_ChainID :: u64
  dom_Protocol :: address

definition ascii :: "string \<Rightarrow> bytes" where
  "ascii s = map of_char s"

definition address_bytes :: "address \<Rightarrow> bytes" where
  "address_bytes a = map (\<lambda>i. ucast (drop_bit (8 * (19 - i)) a)) [0..<20]"

text \<open>\<open>big.Int.SetBytes\<close> and \<open>big.Int.Bytes\<close>: big-endian, the latter without leading zeros.\<close>

definition big_SetBytes :: "bytes \<Rightarrow> int" where
  "big_SetBytes b = foldl (\<lambda>a x. 256 * a + uint x) 0 b"

fun big_Bytes :: "nat \<Rightarrow> bytes" where
  "big_Bytes n = (if n = 0 then [] else big_Bytes (n div 256) @ [word_of_nat n])"

declare big_Bytes.simps [simp del]

definition domainTypeHash :: "ethlib \<Rightarrow> bytes" where
  "domainTypeHash L = Keccak256 L
     [ascii ''EIP712Domain(string name,string version,uint256 chainId,address verifyingContract)'']"

definition frameTypeHash :: "ethlib \<Rightarrow> bytes" where
  "frameTypeHash L = Keccak256 L
     [ascii ''UpdateFrame(bytes32 header,bytes32 bidLevels,bytes32 askLevels,address maker)'']"

definition domainNameHash :: "ethlib \<Rightarrow> bytes" where
  "domainNameHash L = Keccak256 L [ascii ''Takapu Protocol'']"

definition domainVersionHash :: "ethlib \<Rightarrow> bytes" where
  "domainVersionHash L = Keccak256 L [ascii ''1'']"

definition validateDomain :: "signing_domain \<Rightarrow> frame_error + unit" where
  "validateDomain d =
     reject (dom_ChainID d = 0) ChainIDZero
    (reject (dom_Protocol d = 0) ProtocolZero
    (Inr ()))"

definition domain_chunks :: "ethlib \<Rightarrow> signing_domain \<Rightarrow> bytes list" where
  "domain_chunks L d =
     [domainTypeHash L, domainNameHash L, domainVersionHash L,
      LeftPadBytes L (big_Bytes (unat (dom_ChainID d))) 32,
      LeftPadBytes L (address_bytes (dom_Protocol d)) 32]"

definition frame_chunks :: "ethlib \<Rightarrow> address \<Rightarrow> compact_frame \<Rightarrow> bytes list" where
  "frame_chunks L maker f =
     [frameTypeHash L, Header f, BidLevels f, AskLevels f, LeftPadBytes L (address_bytes maker) 32]"

definition digest :: "ethlib \<Rightarrow> signing_domain \<Rightarrow> address \<Rightarrow> compact_frame \<Rightarrow> bytes" where
  "digest L d maker f = (let
     separator = Keccak256 L (domain_chunks L d);
     payload = Keccak256 L (frame_chunks L maker f)
   in Keccak256 L [[0x19, 0x01], separator, payload])"

definition SigningDigest ::
  "ethlib \<Rightarrow> signing_domain \<Rightarrow> address \<Rightarrow> compact_frame \<Rightarrow> frame_error + bytes" where
  "SigningDigest L domn maker f =
     attempt (validateDomain domn) (\<lambda>_.
     reject (maker = 0) MakerZero
    (attempt (ValidateCompactFrame f) (\<lambda>_.
     Inr (digest L domn maker f))))"

definition NormalizeSignature :: "ethlib \<Rightarrow> bytes \<Rightarrow> frame_error + bytes" where
  "NormalizeSignature L sig =
     reject (length sig \<noteq> 65) SignatureLength
    (reject (sig ! 64 \<noteq> 27 \<and> sig ! 64 \<noteq> 28 \<and> sig ! 64 \<noteq> 0 \<and> sig ! 64 \<noteq> 1) SignatureRecoveryID
    (let out = (if sig ! 64 = 27 \<or> sig ! 64 = 28 then sig[64 := sig ! 64 - 27] else sig);
         r = big_SetBytes (slice_of out 0 32);
         s = big_SetBytes (slice_of out 32 64)
     in reject (\<not> ValidateSignatureValues L (out ! 64) r s True) SignatureValues
       (Inr (out[64 := out ! 64 + 27]))))"

definition VerifySignature ::
  "ethlib \<Rightarrow> signing_domain \<Rightarrow> signed_frame \<Rightarrow> address \<Rightarrow> frame_error + unit" where
  "VerifySignature L domn v expectedSigner =
     reject (expectedSigner = 0) ExpectedSignerZero
    (attempt (SigningDigest L domn (sf_Maker v) (sf_Frame v)) (\<lambda>d.
     attempt (NormalizeSignature L (sf_Signature v)) (\<lambda>sig.
     attempt (wrap_err RecoverSigner (SigToPub L d (sig[64 := sig ! 64 - 27]))) (\<lambda>pub.
     reject (PubkeyToAddress L pub \<noteq> expectedSigner) SignerMismatch
    (Inr ())))))"

text \<open>\<open>ctx.Err\<close> is called twice, before and after the signer runs.\<close>

definition SignFrame ::
  "ethlib \<Rightarrow> ctx option \<Rightarrow> signing_domain \<Rightarrow> address \<Rightarrow> compact_frame \<Rightarrow> signer_value
     \<Rightarrow> frame_error + signed_frame" where
  "SignFrame L cx domn maker f sv = (case cx of None \<Rightarrow> Inl ContextNil | Some ctx \<Rightarrow>
     (case ctx 0 of Some e \<Rightarrow> Inl (ContextErr e) | None \<Rightarrow>
     (case sv of NilSigner \<Rightarrow> Inl SignerNil | TypedNilSigner \<Rightarrow> Inl SignerNil | LiveSigner s \<Rightarrow>
       let expected = signer_Address s in
       reject (expected = 0) SignerAddressZero
      (attempt (SigningDigest L domn maker f) (\<lambda>d.
       attempt (wrap_err SignDigestErr (SignDigest s ctx d)) (\<lambda>sig.
       case ctx 1 of Some e \<Rightarrow> Inl (ContextErr e) | None \<Rightarrow>
       attempt (NormalizeSignature L sig) (\<lambda>normalized.
       let out = \<lparr>sf_Frame = f, sf_Maker = maker, sf_Signature = normalized\<rparr> in
       attempt (VerifySignature L domn out expected) (\<lambda>_. Inr out))))))))"

subsection \<open>prepare.go\<close>

record payload =
  pay_Domain :: signing_domain
  pay_Maker :: address
  pay_Frame :: compact_frame
  pay_Digest :: bytes

record prepared_frame =
  pf_payload :: payload
  pf_wire :: "market_frame option"

definition zero_payload :: payload where
  "zero_payload = \<lparr>pay_Domain = \<lparr>dom_ChainID = 0, dom_Protocol = 0\<rparr>, pay_Maker = 0,
     pay_Frame = \<lparr>Header = replicate 32 0, BidLevels = replicate 32 0, AskLevels = replicate 32 0\<rparr>,
     pay_Digest = replicate 32 0\<rparr>"

definition PrepareSigningPayload :: "ethlib \<Rightarrow> frame_spec \<Rightarrow> frame_error + payload" where
  "PrepareSigningPayload L spec = (let
     domn = \<lparr>dom_ChainID = fs_ChainID spec, dom_Protocol = fs_Protocol spec\<rparr> in
     attempt (validateDomain domn) (\<lambda>_.
     reject (fs_Maker spec = 0) MakerZero
    (attempt (ValidatePair (fs_Pair spec)) (\<lambda>_.
     attempt (encodeCompactFrame spec) (\<lambda>f.
     Inr \<lparr>pay_Domain = domn, pay_Maker = fs_Maker spec, pay_Frame = f,
          pay_Digest = digest L domn (fs_Maker spec) f\<rparr>)))))"

definition wire_frame ::
  "ethlib \<Rightarrow> frame_spec \<Rightarrow> compact_frame \<Rightarrow> price_level option list \<Rightarrow> price_level option list \<Rightarrow> market_frame"
where
  "wire_frame L spec f bids asks =
     \<lparr>mf_UpdatedAt = fs_UpdatedAt spec,
      mf_Pair = Some \<lparr>pk_ChainId = fs_ChainID spec, pk_PairId = pp_PairID (fs_Pair spec),
        pk_BaseToken = Hex L (pp_BaseToken (fs_Pair spec)),
        pk_QuoteToken = Hex L (pp_QuoteToken (fs_Pair spec)), pk_unknown = []\<rparr>,
      mf_Bids = bids, mf_Asks = asks,
      mf_Frame = Some \<lparr>pcf_Header = Header f, pcf_BidLevels = BidLevels f, pcf_AskLevels = AskLevels f,
        pcf_unknown = []\<rparr>,
      mf_MakerAddr = Hex L (fs_Maker spec), mf_Signature = [], mf_unknown = []\<rparr>"

definition Prepare :: "ethlib \<Rightarrow> frame_spec \<Rightarrow> frame_error + prepared_frame" where
  "Prepare L spec =
     attempt (PrepareSigningPayload L spec) (\<lambda>p.
     attempt (humanLevels (fs_Bids spec) (fs_BaseTick spec) True (fs_Pair spec)) (\<lambda>bids.
     attempt (humanLevels (fs_Asks spec) (fs_BaseTick spec) False (fs_Pair spec)) (\<lambda>asks.
     Inr \<lparr>pf_payload = p, pf_wire = Some (wire_frame L spec (pay_Frame p) bids asks)\<rparr>)))"

definition SigningPayload :: "prepared_frame option \<Rightarrow> payload" where
  "SigningPayload p = (case p of None \<Rightarrow> zero_payload | Some q \<Rightarrow> pf_payload q)"

definition AttachSignature ::
  "ethlib \<Rightarrow> prepared_frame option \<Rightarrow> bytes \<Rightarrow> address \<Rightarrow> frame_error + market_frame" where
  "AttachSignature L p sig expectedSigner = (case p of None \<Rightarrow> Inl UninitializedPrepared | Some q \<Rightarrow>
     (case pf_wire q of None \<Rightarrow> Inl UninitializedPrepared | Some wire \<Rightarrow>
       attempt (NormalizeSignature L sig) (\<lambda>normalized.
       let v = \<lparr>sf_Frame = pay_Frame (pf_payload q), sf_Maker = pay_Maker (pf_payload q),
                sf_Signature = normalized\<rparr> in
       attempt (VerifySignature L (pay_Domain (pf_payload q)) v expectedSigner) (\<lambda>_.
       Inr ((CloneFrame L wire)\<lparr>mf_Signature := normalized\<rparr>)))))"

definition BuildAndSign ::
  "ethlib \<Rightarrow> ctx option \<Rightarrow> frame_spec \<Rightarrow> signer_value \<Rightarrow> frame_error + market_frame" where
  "BuildAndSign L cx spec sv =
     attempt (Prepare L spec) (\<lambda>p.
     attempt (SignFrame L cx (pay_Domain (pf_payload p)) (pay_Maker (pf_payload p))
        (pay_Frame (pf_payload p)) sv) (\<lambda>signed.
     case pf_wire p of None \<Rightarrow> Inl NilDereference
     | Some wire \<Rightarrow> Inr ((CloneFrame L wire)\<lparr>mf_Signature := sf_Signature signed\<rparr>)))"

subsection \<open>Normalized signatures\<close>

definition normal_sig :: "ethlib \<Rightarrow> bytes \<Rightarrow> bool" where
  "normal_sig L sig \<longleftrightarrow> length sig = 65 \<and> (sig ! 64 = 27 \<or> sig ! 64 = 28) \<and>
     ValidateSignatureValues L (sig ! 64 - 27) (big_SetBytes (slice_of sig 0 32))
       (big_SetBytes (slice_of sig 32 64)) True"

lemma update_same: "xs ! k = v \<Longrightarrow> xs[k := v] = xs"
  by auto

lemma slice_update_after: "j \<le> k \<Longrightarrow> slice_of (xs[k := v]) i j = slice_of xs i j"
proof (cases "i \<le> j")
  case True
  assume "j \<le> k"
  then have "take j (xs[k := v]) = take j xs" by simp
  moreover have "slice_of ys i j = drop i (take j ys)" for ys :: "'a list"
    by (simp add: slice_of_def drop_take)
  ultimately show ?thesis by simp
qed (simp add: slice_of_def)

text \<open>What \<open>NormalizeSignature\<close> returns: the same \<open>r\<close> and \<open>s\<close> with the recovery id moved to
  27 or 28.\<close>

lemma NormalizeSignature_Inr:
  "NormalizeSignature L sig = Inr out \<longleftrightarrow>
     length sig = 65 \<and> normal_sig L out \<and>
     out = sig[64 := (if sig ! 64 = 0 \<or> sig ! 64 = 1 then sig ! 64 + 27 else sig ! 64)]"
proof (cases "length sig = 65")
  case True
  then show ?thesis
    by (auto simp: NormalizeSignature_def normal_sig_def Let_def slice_update_after update_same
        split: if_splits)
qed (simp add: NormalizeSignature_def)

lemma NormalizeSignature_normal [simp]:
  "normal_sig L sig \<Longrightarrow> NormalizeSignature L sig = Inr sig"
  unfolding NormalizeSignature_Inr by (auto simp: normal_sig_def)

lemma NormalizeSignature_Inr_normal: "NormalizeSignature L sig = Inr n \<Longrightarrow> NormalizeSignature L n = Inr n"
  by (auto simp: NormalizeSignature_Inr normal_sig_def)

text \<open>The recovered identity.\<close>

definition recovers :: "ethlib \<Rightarrow> bytes \<Rightarrow> bytes \<Rightarrow> address \<Rightarrow> bool" where
  "recovers L d sig a \<longleftrightarrow> (\<exists>pub. SigToPub L d (sig[64 := sig ! 64 - 27]) = Inr pub \<and> PubkeyToAddress L pub = a)"

definition signable :: "signing_domain \<Rightarrow> address \<Rightarrow> compact_frame \<Rightarrow> bool" where
  "signable d maker f \<longleftrightarrow> dom_ChainID d \<noteq> 0 \<and> dom_Protocol d \<noteq> 0 \<and> maker \<noteq> 0 \<and>
     (\<exists>v. decodeCompactFrame f = Inr v)"

lemma ValidateCompactFrame_Inr: "ValidateCompactFrame f = Inr u \<longleftrightarrow> (\<exists>v. decodeCompactFrame f = Inr v)"
  by (simp add: ValidateCompactFrame_def attempt_Inr)

lemma SigningDigest_Inr: "SigningDigest L d maker f = Inr x \<longleftrightarrow> signable d maker f \<and> x = digest L d maker f"
  by (auto simp: SigningDigest_def attempt_Inr validateDomain_def signable_def ValidateCompactFrame_Inr)

lemma VerifySignature_Inr:
  "VerifySignature L d v a = Inr u \<longleftrightarrow> a \<noteq> 0 \<and> signable d (sf_Maker v) (sf_Frame v) \<and>
     (\<exists>sig. NormalizeSignature L (sf_Signature v) = Inr sig \<and>
        recovers L (digest L d (sf_Maker v) (sf_Frame v)) sig a)"
  by (auto simp: VerifySignature_def attempt_Inr SigningDigest_Inr recovers_def)

lemma VerifySignature_normalized:
  "NormalizeSignature L sig = Inr n \<Longrightarrow>
   VerifySignature L d \<lparr>sf_Frame = f, sf_Maker = m, sf_Signature = n\<rparr> a = Inr u \<longleftrightarrow>
     a \<noteq> 0 \<and> signable d m f \<and> recovers L (digest L d m f) n a"
  by (simp add: VerifySignature_Inr NormalizeSignature_Inr_normal)

lemma SignFrame_Inr:
  "SignFrame L cx d maker f sv = Inr out \<longleftrightarrow>
     (\<exists>ctx s sig n. cx = Some ctx \<and> ctx 0 = None \<and> ctx 1 = None \<and> sv = LiveSigner s \<and>
        signer_Address s \<noteq> 0 \<and> signable d maker f \<and>
        SignDigest s ctx (digest L d maker f) = Inr sig \<and> NormalizeSignature L sig = Inr n \<and>
        recovers L (digest L d maker f) n (signer_Address s) \<and>
        out = \<lparr>sf_Frame = f, sf_Maker = maker, sf_Signature = n\<rparr>)"
  by (auto simp: SignFrame_def Let_def attempt_Inr SigningDigest_Inr VerifySignature_normalized
      split: option.splits signer_value.splits)

lemma PrepareSigningPayload_Inr:
  "PrepareSigningPayload L spec = Inr p \<longleftrightarrow>
     fs_ChainID spec \<noteq> 0 \<and> fs_Protocol spec \<noteq> 0 \<and> fs_Maker spec \<noteq> 0 \<and> ValidatePair (fs_Pair spec) = Inr () \<and>
     (\<exists>f. encodeCompactFrame spec = Inr f \<and>
       p = (let d = \<lparr>dom_ChainID = fs_ChainID spec, dom_Protocol = fs_Protocol spec\<rparr> in
         \<lparr>pay_Domain = d, pay_Maker = fs_Maker spec, pay_Frame = f, pay_Digest = digest L d (fs_Maker spec) f\<rparr>))"
  by (auto simp: PrepareSigningPayload_def Let_def attempt_Inr validateDomain_def)

lemma Prepare_Inr:
  "Prepare L spec = Inr p \<longleftrightarrow> (\<exists>pl bids asks. PrepareSigningPayload L spec = Inr pl \<and>
     humanLevels (fs_Bids spec) (fs_BaseTick spec) True (fs_Pair spec) = Inr bids \<and>
     humanLevels (fs_Asks spec) (fs_BaseTick spec) False (fs_Pair spec) = Inr asks \<and>
     p = \<lparr>pf_payload = pl, pf_wire = Some (wire_frame L spec (pay_Frame pl) bids asks)\<rparr>)"
  by (auto simp: Prepare_def attempt_Inr)

text \<open>The message that belongs to a specification: the signed words, and readable levels that say
  the same.\<close>

definition describes :: "ethlib \<Rightarrow> frame_spec \<Rightarrow> market_frame \<Rightarrow> bool" where
  "describes L spec m \<longleftrightarrow> (\<exists>f. encodeCompactFrame spec = Inr f \<and>
     decodeCompactFrame f = Inr (decoded_of spec) \<and>
     m\<lparr>mf_Signature := []\<rparr> = wire_frame L spec f (mf_Bids m) (mf_Asks m) \<and>
     list_all2 (\<lambda>l. renders (fs_Pair spec) (bid_tick (fs_BaseTick spec) l) l) (fs_Bids spec) (mf_Bids m) \<and>
     list_all2 (\<lambda>l. renders (fs_Pair spec) (ask_tick (fs_BaseTick spec) l) l) (fs_Asks spec) (mf_Asks m))"

lemma Prepare_describes:
  assumes "Prepare L spec = Inr p"
  shows "\<exists>w. pf_wire p = Some w \<and> describes L spec w \<and>
    describes L spec (w\<lparr>mf_Signature := sig\<rparr>) \<and> encodeCompactFrame spec = Inr (pay_Frame (pf_payload p)) \<and>
    pf_payload p = \<lparr>pay_Domain = \<lparr>dom_ChainID = fs_ChainID spec, dom_Protocol = fs_Protocol spec\<rparr>,
      pay_Maker = fs_Maker spec, pay_Frame = pay_Frame (pf_payload p),
      pay_Digest = digest L \<lparr>dom_ChainID = fs_ChainID spec, dom_Protocol = fs_Protocol spec\<rparr>
        (fs_Maker spec) (pay_Frame (pf_payload p))\<rparr>"
proof -
  obtain pl bids asks where p: "PrepareSigningPayload L spec = Inr pl"
      "humanLevels (fs_Bids spec) (fs_BaseTick spec) True (fs_Pair spec) = Inr bids"
      "humanLevels (fs_Asks spec) (fs_BaseTick spec) False (fs_Pair spec) = Inr asks"
      "p = \<lparr>pf_payload = pl, pf_wire = Some (wire_frame L spec (pay_Frame pl) bids asks)\<rparr>"
    using assms by (auto simp: Prepare_Inr)
  then obtain f where f: "encodeCompactFrame spec = Inr f" "ValidatePair (fs_Pair spec) = Inr ()"
      "pl = \<lparr>pay_Domain = \<lparr>dom_ChainID = fs_ChainID spec, dom_Protocol = fs_Protocol spec\<rparr>,
        pay_Maker = fs_Maker spec, pay_Frame = f,
        pay_Digest = digest L \<lparr>dom_ChainID = fs_ChainID spec, dom_Protocol = fs_Protocol spec\<rparr> (fs_Maker spec) f\<rparr>"
    by (auto simp: PrepareSigningPayload_Inr Let_def)
  have d: "decodeCompactFrame f = Inr (decoded_of spec)" "frame_arrays f"
    using f(1) by (simp_all add: encodeCompactFrame_iff)
  then have "valid_book (fs_BaseTick spec) (fs_Bids spec) (fs_Asks spec)"
    by (auto simp: decodeCompactFrame_iff decoded_of_def)
  note r = humanLevels_renders [OF f(2) this]
  have "describes L spec ((wire_frame L spec f bids asks)\<lparr>mf_Signature := sig\<rparr>)" for sig
    unfolding describes_def using f(1) d(1) r(1) [OF p(2)] r(2) [OF p(3)]
    by (intro exI [of _ f]) (simp add: wire_frame_def)
  from this [of "[]"] this [of sig] show ?thesis
    using p(4) f by (simp add: wire_frame_def)
qed

subsection \<open>What a digest binds\<close>

lemma big_SetBytes_append: "big_SetBytes (b @ [x]) = 256 * big_SetBytes b + uint x"
  by (simp add: big_SetBytes_def)

lemma uint_word_of_nat_u8: "uint (word_of_nat n :: u8) = int (n mod 256)"
  by (simp add: unsigned_of_nat take_bit_eq_mod zmod_int)

lemma big_SetBytes_big_Bytes: "big_SetBytes (big_Bytes n) = int n"
proof (induction n rule: big_Bytes.induct)
  case (1 n)
  show ?case
  proof (cases "n = 0")
    case False
    then show ?thesis
      using 1 by (subst big_Bytes.simps) (simp add: big_SetBytes_append uint_word_of_nat_u8 zdiv_int zmod_int)
  qed (simp add: big_Bytes.simps big_SetBytes_def)
qed

lemma big_SetBytes_pad: "big_SetBytes (replicate k 0 @ b) = big_SetBytes b"
  by (induction k) (simp_all add: big_SetBytes_def)

lemma address_bytes_inj:
  assumes "address_bytes a = address_bytes b" shows "a = b"
proof (rule bit_word_eqI)
  fix n assume n: "n < LENGTH(160)"
  define i where "i = 19 - n div 8"
  have i: "i < 20" "8 * (19 - i) = 8 * (n div 8)" using n by (simp_all add: i_def)
  have "(ucast (drop_bit (8 * (19 - i)) a) :: u8) = ucast (drop_bit (8 * (19 - i)) b)"
    using arg_cong [OF assms, of "\<lambda>xs. xs ! i"] i(1) by (simp add: address_bytes_def)
  then have "bit (ucast (drop_bit (8 * (n div 8)) a) :: u8) (n mod 8) =
      bit (ucast (drop_bit (8 * (n div 8)) b) :: u8) (n mod 8)"
    unfolding i(2) by simp
  then show "bit a n = bit b n" by (simp add: bit_simps)
qed

text \<open>The documented behaviour of the two functions: 32-byte hashes and zero padding on the left.\<close>

definition ethlib_spec :: "ethlib \<Rightarrow> bool" where
  "ethlib_spec L \<longleftrightarrow> (\<forall>x. length (keccak L x) = 32) \<and>
     (\<forall>b n. LeftPadBytes L b n = replicate (n - length b) 0 @ b)"

text \<open>The three byte strings that are hashed for one digest, after the fixed type hashes.\<close>

definition digest_inputs :: "ethlib \<Rightarrow> signing_domain \<Rightarrow> address \<Rightarrow> compact_frame \<Rightarrow> bytes set" where
  "digest_inputs L d maker f =
     {concat (domain_chunks L d), concat (frame_chunks L maker f),
      concat [[0x19, 0x01], Keccak256 L (domain_chunks L d), Keccak256 L (frame_chunks L maker f)]}"

lemma length_address_bytes [simp]: "length (address_bytes a) = 20"
  by (simp add: address_bytes_def)

lemma length_Keccak256: "ethlib_spec L \<Longrightarrow> length (Keccak256 L cs) = 32"
  by (simp add: ethlib_spec_def Keccak256_def)

lemma length_big_Bytes: "n < 256 ^ k \<Longrightarrow> length (big_Bytes n) \<le> k"
proof (induction k arbitrary: n)
  case (Suc k)
  then have "n div 256 < 256 ^ k" by (simp add: less_mult_imp_div_less mult.commute)
  from Suc.IH [OF this] show ?case by (subst big_Bytes.simps) simp
qed (simp add: big_Bytes.simps)

lemma length_chain_bytes: "length (big_Bytes (unat (c :: u64))) \<le> 8"
  using unsigned_less [of c, where 'a = nat] by (intro length_big_Bytes) simp

lemma pad_inj:
  assumes "ethlib_spec L" "LeftPadBytes L x 32 = LeftPadBytes L y 32"
  shows "big_SetBytes x = big_SetBytes y"
  using assms big_SetBytes_pad unfolding ethlib_spec_def by metis

lemma pad_address_inj:
  assumes "ethlib_spec L" "LeftPadBytes L (address_bytes a) 32 = LeftPadBytes L (address_bytes b) 32"
  shows "a = b"
  using assms by (intro address_bytes_inj) (simp add: ethlib_spec_def)

lemma length_pad: "ethlib_spec L \<Longrightarrow> length b \<le> 32 \<Longrightarrow> length (LeftPadBytes L b 32) = 32"
  by (simp add: ethlib_spec_def)

lemma domain_chunks_inj:
  assumes L: "ethlib_spec L" and eq: "concat (domain_chunks L d) = concat (domain_chunks L d')"
  shows "d = d'"
proof -
  have l: "length (LeftPadBytes L (big_Bytes (unat (c :: u64))) 32) = 32" for c
    using length_pad [OF L] length_chain_bytes [of c] by simp
  have "LeftPadBytes L (big_Bytes (unat (dom_ChainID d))) 32 = LeftPadBytes L (big_Bytes (unat (dom_ChainID d'))) 32"
      "LeftPadBytes L (address_bytes (dom_Protocol d)) 32 = LeftPadBytes L (address_bytes (dom_Protocol d')) 32"
    using eq by (simp_all add: domain_chunks_def l)
  with pad_inj [OF L] pad_address_inj [OF L]
  have "int (unat (dom_ChainID d)) = int (unat (dom_ChainID d'))" "dom_Protocol d = dom_Protocol d'"
    using big_SetBytes_big_Bytes by metis+
  then show ?thesis by (cases d; cases d') (simp add: word_uint_eq_iff)
qed

lemma frame_chunks_inj:
  assumes L: "ethlib_spec L" and f: "frame_arrays f" "frame_arrays f'"
    and eq: "concat (frame_chunks L m f) = concat (frame_chunks L m' f')"
  shows "m = m' \<and> f = f'"
proof -
  have "LeftPadBytes L (address_bytes m) 32 = LeftPadBytes L (address_bytes m') 32 \<and>
      Header f = Header f' \<and> BidLevels f = BidLevels f' \<and> AskLevels f = AskLevels f'"
    using eq f by (simp add: frame_chunks_def frame_arrays_def)
  then have "m = m'" "f = f'"
    using pad_address_inj [OF L, of m m'] by simp_all
  then show ?thesis ..
qed

lemma digest_inj:
  assumes L: "ethlib_spec L" and f: "frame_arrays f" "frame_arrays f'"
    and inj: "inj_on (keccak L) (digest_inputs L d m f \<union> digest_inputs L d' m' f')"
    and eq: "digest L d m f = digest L d' m' f'"
  shows "d = d' \<and> m = m' \<and> f = f'"
proof -
  let ?D = "concat (domain_chunks L d)" and ?D' = "concat (domain_chunks L d')"
    and ?F = "concat (frame_chunks L m f)" and ?F' = "concat (frame_chunks L m' f')"
  have len: "length (keccak L x) = 32" for x using L by (simp add: ethlib_spec_def)
  have "keccak L ([0x19, 0x01] @ keccak L ?D @ keccak L ?F) =
      keccak L ([0x19, 0x01] @ keccak L ?D' @ keccak L ?F')"
    using eq by (simp only: digest_def Let_def Keccak256_def concat.simps append_Nil2)
  then have "[0x19, 0x01] @ keccak L ?D @ keccak L ?F = [0x19, 0x01] @ keccak L ?D' @ keccak L ?F'"
    by (rule inj_onD [OF inj]) (simp_all only: digest_inputs_def Keccak256_def concat.simps
        append_Nil2 Un_iff insert_iff simp_thms)
  then have "keccak L ?D @ keccak L ?F = keccak L ?D' @ keccak L ?F'"
    by (simp only: same_append_eq)
  then have "keccak L ?D = keccak L ?D'" "keccak L ?F = keccak L ?F'"
    by (simp_all only: append_eq_append_conv len simp_thms)
  then have "?D = ?D'" "?F = ?F'"
    by (auto intro!: inj_onD [OF inj] simp only: digest_inputs_def Un_iff insert_iff simp_thms)
  then show ?thesis using domain_chunks_inj [OF L] frame_chunks_inj [OF L f] by blast
qed

subsection \<open>Properties\<close>

text \<open>A concrete library and signer: the "hash" records length and last byte, every signature
  with small values is valid, and recovery reads the address from byte 0 of the signature.\<close>

definition toy_lib :: ethlib where
  "toy_lib = \<lparr>keccak = (\<lambda>x. replicate 30 0 @ [word_of_nat (length x), if x = [] then 0 else last x]),
     ValidateSignatureValues = (\<lambda>v r s homestead. r > 0 \<and> s > 0),
     SigToPub = (\<lambda>d sig. Inr [hd sig]), PubkeyToAddress = (\<lambda>pub. ucast (hd pub)),
     LeftPadBytes = (\<lambda>b n. replicate (n - length b) 0 @ b), Hex = (\<lambda>a. ''0x''), CloneFrame = (\<lambda>m. m)\<rparr>"

definition toy_signer :: signer where
  "toy_signer = \<lparr>signer_Address = 9, SignDigest = (\<lambda>ctx d. Inr (replicate 64 9 @ [1]))\<rparr>"

definition never_done :: ctx where
  "never_done k = None"

lemma toy_lib_spec: "ethlib_spec toy_lib"
  by (simp add: ethlib_spec_def toy_lib_def)

text \<open>normalizing keeps \<open>r\<close> and \<open>s\<close>, leaves the recovery id 27 or 28, and doing it again
  changes nothing; so the second normalization inside \<open>VerifySignature\<close> never refuses what the
  signing helpers produced.\<close>

theorem normalize_signature:
  assumes "NormalizeSignature L sig = Inr out"
  shows "length out = 65 \<and> take 64 out = take 64 sig \<and> out ! 64 \<in> {27, 28} \<and>
    NormalizeSignature L out = Inr out"
proof -
  have n: "normal_sig L out" "\<exists>v. out = sig[64 := v]"
    using assms NormalizeSignature_Inr by blast+
  then have "take 64 out = take 64 sig" by auto
  with n(1) show ?thesis by (auto simp: normal_sig_def)
qed

lemma toy_normalize: "NormalizeSignature toy_lib (replicate 64 9 @ [1]) = Inr (replicate 64 9 @ [28])"
  by code_simp

theorem normalize_signature_witness:
  "NormalizeSignature toy_lib (replicate 64 9 @ [1]) = Inr (replicate 64 9 @ [28]) \<and>
   NormalizeSignature toy_lib (replicate 64 9 @ [28]) = Inr (replicate 64 9 @ [28])"
  using toy_normalize normalize_signature [OF toy_normalize] by blast

text \<open>\<open>SignFrame\<close> returns a signature exactly when the context was live before and after
  signing, the signer is usable with a nonzero address, domain, maker and frame are valid, and
  the signer's own signature over the frame's digest normalizes and recovers to its address; the
  result is the same frame and maker with the normalized signature, and it passes
  \<open>VerifySignature\<close> for that signer.\<close>

theorem sign_frame_iff:
  "SignFrame L cx d maker f sv = Inr out \<longleftrightarrow>
     (\<exists>ctx s sig n. cx = Some ctx \<and> ctx 0 = None \<and> ctx 1 = None \<and> sv = LiveSigner s \<and>
        signer_Address s \<noteq> 0 \<and> signable d maker f \<and>
        SignDigest s ctx (digest L d maker f) = Inr sig \<and> NormalizeSignature L sig = Inr n \<and>
        recovers L (digest L d maker f) n (signer_Address s) \<and>
        out = \<lparr>sf_Frame = f, sf_Maker = maker, sf_Signature = n\<rparr> \<and>
        VerifySignature L d out (signer_Address s) = Inr ())"
  unfolding SignFrame_Inr by (auto simp: VerifySignature_normalized)

text \<open>C9: the EIP-712 digest binds chain, protocol, maker and all 96 frame bytes: unless two of the
  at most six strings hashed for them collide, equal digests come from equal inputs.\<close>

theorem digest_binds:
  assumes "ethlib_spec L" "frame_arrays f" "frame_arrays f'"
    and "inj_on (keccak L) (digest_inputs L d m f \<union> digest_inputs L d' m' f')"
  shows "digest L d m f = digest L d' m' f' \<longleftrightarrow> d = d' \<and> m = m' \<and> f = f'"
  using digest_inj [OF assms] by blast

lemma toy_digest_inputs:
  assumes "frame_arrays f"
  shows "\<exists>x. concat (domain_chunks toy_lib d) = x @ [ucast (dom_Protocol d)] \<and> length x = 159"
    and "\<exists>x. concat (frame_chunks toy_lib m f) = x @ [ucast m] \<and> length x = 159"
proof -
  have u: "[0..<20] = [0..<19] @ [19 :: nat]"
    using upt_Suc_append [of 0 19] by simp
  have a: "LeftPadBytes toy_lib (address_bytes a) 32 =
      (replicate 12 0 @ butlast (address_bytes a)) @ [ucast a]" for a
    by (simp add: toy_lib_def) (simp add: address_bytes_def u)
  have k: "length (Keccak256 toy_lib cs) = 32" for cs
    by (rule length_Keccak256 [OF toy_lib_spec])
  have c: "length (LeftPadBytes toy_lib (big_Bytes (unat (v :: u64))) 32) = 32" for v
    using length_pad [OF toy_lib_spec] length_chain_bytes [of v] by simp
  show "\<exists>x. concat (domain_chunks toy_lib d) = x @ [ucast (dom_Protocol d)] \<and> length x = 159"
    by (simp add: domain_chunks_def a c k domainTypeHash_def domainNameHash_def domainVersionHash_def)
  show "\<exists>x. concat (frame_chunks toy_lib m f) = x @ [ucast m] \<and> length x = 159"
    using assms by (simp add: frame_chunks_def frame_arrays_def a k frameTypeHash_def)
qed

lemma toy_Keccak256: "concat cs = x @ [b] \<Longrightarrow>
    Keccak256 toy_lib cs = replicate 30 0 @ [word_of_nat (Suc (length x)), b]"
  by (simp add: Keccak256_def toy_lib_def)

theorem digest_binds_witness:
  "\<exists>f. frame_arrays f \<and> digest toy_lib \<lparr>dom_ChainID = 1, dom_Protocol = 0xC3\<rparr> 0xD4 f \<noteq>
     digest toy_lib \<lparr>dom_ChainID = 1, dom_Protocol = 0xC3\<rparr> 0xD5 f"
proof -
  obtain f where f: "frame_arrays f" using sample_frame by blast
  let ?d = "\<lparr>dom_ChainID = 1, dom_Protocol = 0xC3\<rparr>"
  obtain x where x: "concat (domain_chunks toy_lib ?d) = x @ [0xC3]" "length x = 159"
    using toy_digest_inputs(1) [OF f, of ?d] by auto
  obtain y where y: "concat (frame_chunks toy_lib 0xD4 f) = y @ [0xD4]" "length y = 159"
    using toy_digest_inputs(2) [OF f, of "0xD4"] by auto
  obtain z where z: "concat (frame_chunks toy_lib 0xD5 f) = z @ [0xD5]" "length z = 159"
    using toy_digest_inputs(2) [OF f, of "0xD5"] by auto
  have "inj_on (keccak toy_lib) (digest_inputs toy_lib ?d 0xD4 f \<union> digest_inputs toy_lib ?d 0xD5 f)"
    unfolding digest_inputs_def x(1) y(1) z(1) toy_Keccak256 [OF x(1)] toy_Keccak256 [OF y(1)]
      toy_Keccak256 [OF z(1)]
    by (simp add: inj_on_def toy_lib_def x(2) y(2) z(2))
  from digest_binds [OF toy_lib_spec f f this] f show ?thesis by auto
qed

lemma toy_Prepare: "\<exists>p. Prepare toy_lib sample_spec = Inr p"
proof -
  have t: "nat_text 3000000000 = ''3000000000''" "nat_text 2999900000 = ''2999900000''"
      "nat_text 3000030000 = ''3000030000''" "nat_text 5000000000000000 = ''5000000000000000''"
      "nat_text 70000000000000000000 = ''70000000000000000000''" "nat_text 8000000000000000 = ''8000000000000000''"
    by (simp_all add: nat_text.simps digit_char_numeral)
  have v: "ValidatePair sample_pair = Inr ()"
    by (simp add: ValidatePair_def sample_pair_def bad_scale_def not_less BitLen_le)
  have "list_all short_text (map (\<lambda>l. level_text sample_pair (level_tick 300000 True l) l) (fs_Bids sample_spec))"
      "list_all short_text (map (\<lambda>l. level_text sample_pair (level_tick 300000 False l) l) (fs_Asks sample_spec))"
    by (simp_all add: sample_spec_def level_text_def level_tick_def short_text_def GetPrice_def GetAmount_def
        decimal_def big_String_def sample_pair_def priceScale_def t TrimRight_def)
  then show ?thesis
    using sample_frame v
    by (auto simp: Prepare_Inr PrepareSigningPayload_Inr humanLevels_iff)
      (simp_all add: sample_spec_def humanLevels_iff v)
qed

lemma toy_recovers: "recovers toy_lib d (replicate 64 9 @ [28]) 9"
proof -
  have "replicate 64 (9 :: u8) = 9 # replicate 63 9"
    using replicate_Suc [of 63 "9 :: u8"] by simp
  then show ?thesis by (simp add: recovers_def toy_lib_def)
qed

lemma toy_BuildAndSign:
  "\<exists>m. BuildAndSign toy_lib (Some never_done) sample_spec (LiveSigner toy_signer) = Inr m"
proof -
  obtain p where p: "Prepare toy_lib sample_spec = Inr p" using toy_Prepare ..
  then obtain w where w: "pf_wire p = Some w" by (auto simp: Prepare_Inr)
  have "signable (pay_Domain (pf_payload p)) (pay_Maker (pf_payload p)) (pay_Frame (pf_payload p))"
    using p by (auto simp: Prepare_Inr PrepareSigningPayload_Inr signable_def Let_def encodeCompactFrame_iff)
  then have "\<exists>x. SignFrame toy_lib (Some never_done) (pay_Domain (pf_payload p))
      (pay_Maker (pf_payload p)) (pay_Frame (pf_payload p)) (LiveSigner toy_signer) = Inr x"
    using toy_normalize toy_recovers by (simp add: SignFrame_Inr never_done_def toy_signer_def)
  then show ?thesis using p w by (auto simp: BuildAndSign_def)
qed

lemma BuildAndSign_consistent:
  assumes "\<forall>m. CloneFrame L m = m" and "BuildAndSign L cx spec sv = Inr m"
  shows "\<exists>f s. sv = LiveSigner s \<and> encodeCompactFrame spec = Inr f \<and> describes L spec m \<and>
    VerifySignature L \<lparr>dom_ChainID = fs_ChainID spec, dom_Protocol = fs_Protocol spec\<rparr>
      \<lparr>sf_Frame = f, sf_Maker = fs_Maker spec, sf_Signature = mf_Signature m\<rparr> (signer_Address s) = Inr ()"
proof -
  obtain p signed w where p: "Prepare L spec = Inr p"
      "SignFrame L cx (pay_Domain (pf_payload p)) (pay_Maker (pf_payload p)) (pay_Frame (pf_payload p)) sv = Inr signed"
      "pf_wire p = Some w" "m = w\<lparr>mf_Signature := sf_Signature signed\<rparr>"
    using assms by (auto simp: BuildAndSign_def attempt_Inr split: option.splits)
  from Prepare_describes [OF p(1), of "sf_Signature signed"] p(3,4)
  have d: "describes L spec m" "encodeCompactFrame spec = Inr (pay_Frame (pf_payload p))"
    and pay: "pay_Domain (pf_payload p) = \<lparr>dom_ChainID = fs_ChainID spec, dom_Protocol = fs_Protocol spec\<rparr>"
      "pay_Maker (pf_payload p) = fs_Maker spec"
    by (metis option.inject payload.select_convs)+
  from p(2) [unfolded SignFrame_Inr] p(4) show ?thesis
    using d pay by (auto simp: VerifySignature_normalized)
qed

text \<open>the message \<open>BuildAndSign\<close> returns is consistent: its compact words are the encoding of
  the specification and decode to it, its readable levels have exactly the signed prices and
  amounts, its pair, maker and timestamp are the specification's, and its signature verifies for
  the signer over those words in the specification's domain.\<close>

theorem build_and_sign_consistent:
  assumes "\<forall>m. CloneFrame L m = m" and "BuildAndSign L cx spec sv = Inr m"
  shows "\<exists>f s. sv = LiveSigner s \<and> encodeCompactFrame spec = Inr f \<and> describes L spec m \<and>
    VerifySignature L \<lparr>dom_ChainID = fs_ChainID spec, dom_Protocol = fs_Protocol spec\<rparr>
      \<lparr>sf_Frame = f, sf_Maker = fs_Maker spec, sf_Signature = mf_Signature m\<rparr> (signer_Address s) = Inr ()"
  by (rule BuildAndSign_consistent [OF assms])

theorem build_and_sign_consistent_witness:
  "\<exists>m f. BuildAndSign toy_lib (Some never_done) sample_spec (LiveSigner toy_signer) = Inr m \<and>
     encodeCompactFrame sample_spec = Inr f \<and> describes toy_lib sample_spec m \<and>
     VerifySignature toy_lib \<lparr>dom_ChainID = 1, dom_Protocol = 0xC3\<rparr>
       \<lparr>sf_Frame = f, sf_Maker = 0xD4, sf_Signature = mf_Signature m\<rparr> 9 = Inr ()"
proof -
  obtain m where m: "BuildAndSign toy_lib (Some never_done) sample_spec (LiveSigner toy_signer) = Inr m"
    using toy_BuildAndSign ..
  have "\<forall>m. CloneFrame toy_lib m = m" by (simp add: toy_lib_def)
  from build_and_sign_consistent [OF this m] m show ?thesis
    by (auto simp: toy_signer_def sample_spec_def)
qed

text \<open>C31: signing locally with \<open>BuildAndSign\<close> and signing remotely (\<open>Prepare\<close>, sign the payload's
  digest, \<open>AttachSignature\<close>) are the same function, error for error, while the context is live and for a
  signer whose address is not zero.\<close>

theorem remote_signing_agrees:
  assumes "ctx 0 = None" "ctx 1 = None" "signer_Address s \<noteq> 0"
  shows "BuildAndSign L (Some ctx) spec (LiveSigner s) =
    attempt (Prepare L spec) (\<lambda>p.
    attempt (wrap_err SignDigestErr (SignDigest s ctx (pay_Digest (SigningPayload (Some p))))) (\<lambda>sig.
    AttachSignature L (Some p) sig (signer_Address s)))"
proof (cases "Prepare L spec")
  case (Inr p)
  then obtain w where w: "pf_wire p = Some w" by (auto simp: Prepare_Inr)
  let ?pl = "pf_payload p"
  have "SigningDigest L (pay_Domain ?pl) (pay_Maker ?pl) (pay_Frame ?pl) = Inr (pay_Digest ?pl)"
    using Inr by (auto simp: Prepare_Inr PrepareSigningPayload_Inr SigningDigest_Inr signable_def Let_def
        encodeCompactFrame_iff)
  then show ?thesis
    using assms Inr w
    by (auto simp: BuildAndSign_def SignFrame_def AttachSignature_def SigningPayload_def Let_def attempt_def
        split: sum.splits)
qed (simp add: BuildAndSign_def)

theorem remote_signing_agrees_witness:
  "\<exists>m. attempt (Prepare toy_lib sample_spec) (\<lambda>p.
     attempt (wrap_err SignDigestErr (SignDigest toy_signer never_done (pay_Digest (SigningPayload (Some p)))))
       (\<lambda>sig. AttachSignature toy_lib (Some p) sig (signer_Address toy_signer))) = Inr m"
  using toy_BuildAndSign remote_signing_agrees [of never_done toy_signer toy_lib sample_spec]
  by (simp add: never_done_def toy_signer_def)

end
