(* ===== verification/Maker_Quote.thy ===== *)
theory Maker_Quote
  imports Frame_Signing
begin

text \<open>
  The maker's conversion of decimal quotes into ticks and lots: \<open>pkg/maker/quote.go\<close> with the
  data of \<open>pkg/maker/types.go\<close>. \<open>big.Rat\<close> values are \<open>rat\<close>; \<open>Num\<close> and \<open>Denom\<close> are the
  components of \<open>quotient_of\<close>. The lemmas show that rounding is outward and by less than one unit,
  that no subtraction of ticks underflows, and that whatever \<open>quoteSpec\<close> returns is encodable.
\<close>

record quote_level =
  ql_Price :: string
  ql_Amount :: string

record publish_params =
  pub_ChainID :: u64
  pub_Protocol :: address
  pub_Maker :: address
  pub_Pair :: pair_params
  pub_Bids :: "quote_level list"
  pub_Asks :: "quote_level list"
  pub_UpdatedAt :: u32
  pub_MajorVersion :: u32
  pub_MinorVersion :: u8
  pub_Signer :: signer_value

datatype quote_error =
    NotPlainDecimal
  | NotPositive
  | CountRange
  | TooManyQuoteLevels
  | LevelPrice nat quote_error
  | LevelAmount nat quote_error
  | RoundedOrder
  | QuotePair frame_error
  | QuoteBids quote_error
  | QuoteAsks quote_error
  | CrossedInput
  | QuoteNilStep

definition quoteUnits :: "string \<Rightarrow> int \<Rightarrow> int \<Rightarrow> bool \<Rightarrow> quote_error + u32" where
  "quoteUnits s scale step roundUp =
     reject (length s = 0 \<or> length s > 64 \<or> \<not> plain_decimal s) NotPlainDecimal
    (let v = decimal_rat s in
     reject (v \<le> 0) NotPositive
    (let power = (10 :: int) ^ nat \<bar>scale\<bar>;
         v = (if scale \<ge> 0 then v * of_int power else v / of_int power);
         v = v / of_int step;
         num = fst (quotient_of v);
         denom = snd (quotient_of v);
         count = Quo num denom;
         remainder = num - count * denom;
         count = (if roundUp \<and> remainder \<noteq> 0 then count + 1 else count)
     in reject (count \<le> 0 \<or> count > uint MaxTick) CountRange
       (Inr (word_of_int count))))"

text \<open>The loop of \<open>quoteLevels\<close>; \<open>out\<close> holds the levels already converted, with the absolute tick
  in \<open>Offset\<close>. The two steps are dereferenced, \<open>ValidatePair\<close> having refused nil ones.\<close>

fun quoteLevels_loop ::
  "pair_params \<Rightarrow> int \<Rightarrow> int \<Rightarrow> bool \<Rightarrow> nat \<Rightarrow> quote_level list \<Rightarrow> level list \<Rightarrow> quote_error + level list" where
  "quoteLevels_loop pair ptick lot bid i [] out = Inr out"
| "quoteLevels_loop pair ptick lot bid i (l # ls) out =
     attempt (wrap_err (LevelPrice i) (quoteUnits (ql_Price l) (priceScale pair) ptick (\<not> bid))) (\<lambda>tick.
     attempt (wrap_err (LevelAmount i) (quoteUnits (ql_Amount l) (uint (pp_BaseDecimals pair)) lot False)) (\<lambda>lots.
     reject (i > 0 \<and> ((bid \<and> tick \<ge> Offset (out ! (i - 1))) \<or> (\<not> bid \<and> tick \<le> Offset (out ! (i - 1)))))
       RoundedOrder
    (quoteLevels_loop pair ptick lot bid (Suc i) ls (out @ [\<lparr>Offset = tick, QtyLots = lots\<rparr>]))))"

definition quoteLevels :: "quote_level list \<Rightarrow> pair_params \<Rightarrow> bool \<Rightarrow> quote_error + level list" where
  "quoteLevels levels pair bid =
     reject (length levels > MaxLevels) TooManyQuoteLevels
    (case (pp_PriceTickSize pair, pp_LotSize pair) of
       (Some ptick, Some lot) \<Rightarrow> quoteLevels_loop pair ptick lot bid 0 levels []
     | _ \<Rightarrow> if levels = [] then Inr [] else Inl QuoteNilStep)"

definition quoteSpec :: "publish_params \<Rightarrow> quote_error + frame_spec" where
  "quoteSpec params =
     attempt (wrap_err QuotePair (ValidatePair (pub_Pair params))) (\<lambda>_.
     attempt (wrap_err QuoteBids (quoteLevels (pub_Bids params) (pub_Pair params) True)) (\<lambda>bids.
     attempt (wrap_err QuoteAsks (quoteLevels (pub_Asks params) (pub_Pair params) False)) (\<lambda>asks.
     reject (bids \<noteq> [] \<and> asks \<noteq> [] \<and>
         decimal_rat (ql_Price (pub_Bids params ! 0)) > decimal_rat (ql_Price (pub_Asks params ! 0)))
       CrossedInput
    (let base = (if bids \<noteq> [] then Offset (bids ! 0) else if asks \<noteq> [] then Offset (asks ! 0) else 1);
         bids = map (\<lambda>l. l\<lparr>Offset := base - Offset l\<rparr>) bids;
         asks = map (\<lambda>l. l\<lparr>Offset := Offset l - base\<rparr>) asks
     in Inr \<lparr>fs_ChainID = pub_ChainID params, fs_Protocol = pub_Protocol params, fs_Maker = pub_Maker params,
       fs_Pair = pub_Pair params, fs_BaseTick = base, fs_Bids = bids, fs_Asks = asks,
       fs_UpdatedAt = pub_UpdatedAt params, fs_MajorVersion = pub_MajorVersion params,
       fs_MinorVersion = pub_MinorVersion params, fs_CodecVersion = CodecVersion\<rparr>))))"

subsection \<open>Rounding\<close>

text \<open>The exact number of ticks or lots, before rounding.\<close>

definition exact_units :: "string \<Rightarrow> int \<Rightarrow> int \<Rightarrow> rat" where
  "exact_units s scale step = decimal_rat s * 10 powi scale / of_int step"

definition rounded :: "bool \<Rightarrow> rat \<Rightarrow> int" where
  "rounded up x = (if up then \<lceil>x\<rceil> else \<lfloor>x\<rfloor>)"

lemma scale_power:
  "(if scale \<ge> 0 then v * of_int (10 ^ nat \<bar>scale\<bar>) else v / of_int (10 ^ nat \<bar>scale\<bar>)) =
     (v :: rat) * 10 powi scale"
proof (cases scale rule: int_cases)
  case (neg k)
  define m where "m = Suc k"
  have m: "scale = - int m" "0 < m" using neg by (simp_all add: m_def)
  then have "(10 :: rat) powi scale = inverse (10 ^ m)" by (simp add: power_int_minus)
  then show ?thesis using m by (simp add: divide_inverse)
qed simp

lemma quotient_round:
  fixes x :: rat
  assumes "0 \<le> x"
  defines "n \<equiv> fst (quotient_of x)" and "d \<equiv> snd (quotient_of x)"
  shows "(if up \<and> n - Quo n d * d \<noteq> 0 then Quo n d + 1 else Quo n d) = rounded up x"
proof -
  have d: "0 < d" by (simp add: d_def quotient_of_denom_pos')
  have x: "x = of_int n / of_int d" by (simp add: n_def d_def quotient_of_div)
  have n: "0 \<le> n" using assms(1) d by (simp add: x zero_le_divide_iff)
  have q: "Quo n d = n div d" using n d by (simp add: Quo_nonneg)
  have f: "\<lfloor>x\<rfloor> = n div d" by (simp add: x floor_divide_of_int_eq)
  have "n - n div d * d = 0 \<longleftrightarrow> x = of_int \<lfloor>x\<rfloor>"
    unfolding f using d by (simp add: x field_simps) (metis of_int_eq_iff of_int_mult)
  then show ?thesis by (simp add: q f rounded_def ceiling_altdef)
qed

text \<open>\<open>quoteUnits\<close> accepts a positive plain decimal of at most 64 characters whose exact count,
  rounded down or up, is a positive uint24, and returns that count.\<close>

lemma quoteUnits_iff:
  assumes "0 < step"
  shows "quoteUnits s scale step up = Inr t \<longleftrightarrow>
    0 < length s \<and> length s \<le> 64 \<and> plain_decimal s \<and> 0 < decimal_rat s \<and>
    0 < t \<and> t \<le> MaxTick \<and> uint t = rounded up (exact_units s scale step)"
proof -
  let ?x = "exact_units s scale step"
  have x: "decimal_rat s * 10 powi scale / of_int step = ?x" by (simp add: exact_units_def)
  have nn: "0 < decimal_rat s \<Longrightarrow> 0 \<le> ?x"
    using assms by (simp add: exact_units_def)
  have w: "0 < c \<and> c \<le> uint MaxTick \<and> word_of_int c = t \<longleftrightarrow> 0 < t \<and> t \<le> MaxTick \<and> uint t = c" for c
    using uint_nonnegative [of t]
    by (auto simp: word_less_def word_le_def MaxTick_def take_bit_int_eq_self unsigned_of_int)
  show ?thesis
  proof (cases "0 < length s \<and> length s \<le> 64 \<and> plain_decimal s \<and> 0 < decimal_rat s")
    case True
    then have g: "(length s = 0 \<or> length s > 64 \<or> \<not> plain_decimal s) = False" "(decimal_rat s \<le> 0) = False"
      and r: "0 \<le> ?x" using nn by auto
    have "quoteUnits s scale step up =
       reject (rounded up ?x \<le> 0 \<or> rounded up ?x > uint MaxTick) CountRange (Inr (word_of_int (rounded up ?x)))"
      by (simp only: quoteUnits_def Let_def scale_power x quotient_round [OF r] g reject_False)
    then show ?thesis using True w [of "rounded up ?x"] by auto
  next
    case False
    then show ?thesis by (auto simp: quoteUnits_def Let_def not_less)
  qed
qed

subsection \<open>Converted levels\<close>

text \<open>How one input level relates to its converted level (absolute tick in \<open>Offset\<close>).\<close>

definition converts :: "pair_params \<Rightarrow> int \<Rightarrow> int \<Rightarrow> bool \<Rightarrow> quote_level \<Rightarrow> level \<Rightarrow> bool" where
  "converts pair ptick lot bid q l \<longleftrightarrow>
     quoteUnits (ql_Price q) (priceScale pair) ptick (\<not> bid) = Inr (Offset l) \<and>
     quoteUnits (ql_Amount q) (uint (pp_BaseDecimals pair)) lot False = Inr (QtyLots l)"

definition best_first :: "bool \<Rightarrow> level list \<Rightarrow> bool" where
  "best_first bid ls \<longleftrightarrow> sorted_wrt (if bid then (>) else (<)) (map Offset ls)"

lemma best_first_snoc:
  "best_first bid (ls @ [l]) \<longleftrightarrow> best_first bid ls \<and>
     (ls \<noteq> [] \<longrightarrow> (if bid then Offset l < Offset (last ls) else Offset (last ls) < Offset l))"
proof (cases ls rule: rev_cases)
  case (snoc ks k)
  then show ?thesis by (auto simp: best_first_def sorted_wrt_append)
qed (simp add: best_first_def)

lemma best_first_prefix: "best_first bid (xs @ ys) \<Longrightarrow> best_first bid xs"
  by (simp add: best_first_def sorted_wrt_append)

lemma quoteLevels_loop_iff:
  assumes "best_first bid acc"
  shows "quoteLevels_loop pair pt lot bid (length acc) qs acc = Inr out \<longleftrightarrow>
    (\<exists>ls. out = acc @ ls \<and> list_all2 (converts pair pt lot bid) qs ls \<and> best_first bid out)"
  using assms
proof (induction qs arbitrary: acc)
  case (Cons q qs)
  have "quoteLevels_loop pair pt lot bid (length acc) (q # qs) acc = Inr out \<longleftrightarrow>
      (\<exists>l. converts pair pt lot bid q l \<and> best_first bid (acc @ [l]) \<and>
        quoteLevels_loop pair pt lot bid (length (acc @ [l])) qs (acc @ [l]) = Inr out)"
  proof -
    have split: "(\<exists>l. P l) \<longleftrightarrow> (\<exists>t k. P \<lparr>Offset = t, QtyLots = k\<rparr>)" for P
      by (metis level.cases)
    show ?thesis
      unfolding quoteLevels_loop.simps attempt_Inr reject_Inr wrap_err_Inr split converts_def
      using Cons.prems by (cases bid) (simp_all add: best_first_snoc last_conv_nth not_le imp_conv_disj)
  qed
  also have "\<dots> \<longleftrightarrow> (\<exists>l ls. out = (acc @ [l]) @ ls \<and> converts pair pt lot bid q l \<and>
      list_all2 (converts pair pt lot bid) qs ls \<and> best_first bid out)"
    using Cons.IH best_first_prefix by metis
  finally show ?case by (auto simp: list_all2_Cons1)
qed auto

lemma quoteLevels_iff:
  assumes "ValidatePair pair = Inr ()"
  shows "quoteLevels qs pair bid = Inr out \<longleftrightarrow> length qs \<le> MaxLevels \<and> best_first bid out \<and>
    list_all2 (converts pair (the (pp_PriceTickSize pair)) (the (pp_LotSize pair)) bid) qs out"
proof -
  obtain pt lot where "pp_PriceTickSize pair = Some pt" "pp_LotSize pair = Some lot"
    using assms by (auto simp: ValidatePair_def bad_scale_def split: option.splits)
  then show ?thesis
    using quoteLevels_loop_iff [of bid "[]" pair pt lot qs out]
    by (auto simp: quoteLevels_def best_first_def)
qed

lemma ValidatePair_scales:
  assumes "ValidatePair pair = Inr ()"
  shows "0 < the (pp_PriceTickSize pair)" "0 < the (pp_LotSize pair)" "pp_PairID pair \<noteq> 0"
  using assms by (auto simp: ValidatePair_def bad_scale_def split: option.splits)

text \<open>A converted level is inside uint24, and a bid that is not above an ask stays not above it.\<close>

lemma converts_range:
  assumes "ValidatePair pair = Inr ()" "converts pair (the (pp_PriceTickSize pair)) (the (pp_LotSize pair)) bid q l"
  shows "0 < Offset l" "Offset l \<le> MaxTick" "0 < QtyLots l" "QtyLots l \<le> MaxTick"
    "uint (Offset l) = rounded (\<not> bid) (exact_units (ql_Price q) (priceScale pair) (the (pp_PriceTickSize pair)))"
    "uint (QtyLots l) = \<lfloor>exact_units (ql_Amount q) (uint (pp_BaseDecimals pair)) (the (pp_LotSize pair))\<rfloor>"
  using assms ValidatePair_scales [OF assms(1)]
  by (simp_all add: converts_def quoteUnits_iff rounded_def)

lemma rounded_outward: "x \<le> y \<Longrightarrow> rounded False x \<le> rounded True y"
  unfolding rounded_def by simp (metis ceiling_mono floor_le_ceiling order_trans)

lemma exact_units_mono:
  "0 < step \<Longrightarrow> decimal_rat s \<le> decimal_rat t \<Longrightarrow> exact_units s scale step \<le> exact_units t scale step"
  by (simp add: exact_units_def divide_right_mono mult_right_mono)

lemma converts_uncrossed:
  assumes "ValidatePair pair = Inr ()"
    and "converts pair (the (pp_PriceTickSize pair)) (the (pp_LotSize pair)) True q l"
    and "converts pair (the (pp_PriceTickSize pair)) (the (pp_LotSize pair)) False r k"
    and "decimal_rat (ql_Price q) \<le> decimal_rat (ql_Price r)"
  shows "Offset l \<le> Offset k"
  using converts_range(5) [OF assms(1,2)] converts_range(5) [OF assms(1,3)]
    rounded_outward [OF exact_units_mono [OF ValidatePair_scales(1) [OF assms(1)] assms(4)]]
  by (simp add: word_le_def)

subsection \<open>Specifications\<close>

definition base_tick :: "level list \<Rightarrow> level list \<Rightarrow> u32" where
  "base_tick bids asks =
     (if bids \<noteq> [] then Offset (bids ! 0) else if asks \<noteq> [] then Offset (asks ! 0) else 1)"

text \<open>The converted levels behind a specification: absolute ticks \<open>bids\<close> and \<open>asks\<close>.\<close>

definition quoted_from :: "publish_params \<Rightarrow> level list \<Rightarrow> level list \<Rightarrow> bool" where
  "quoted_from params bids asks \<longleftrightarrow>
     ValidatePair (pub_Pair params) = Inr () \<and>
     quoteLevels (pub_Bids params) (pub_Pair params) True = Inr bids \<and>
     quoteLevels (pub_Asks params) (pub_Pair params) False = Inr asks \<and>
     (bids \<noteq> [] \<and> asks \<noteq> [] \<longrightarrow>
        decimal_rat (ql_Price (pub_Bids params ! 0)) \<le> decimal_rat (ql_Price (pub_Asks params ! 0)))"

definition spec_from :: "publish_params \<Rightarrow> level list \<Rightarrow> level list \<Rightarrow> frame_spec" where
  "spec_from params bids asks = (let base = base_tick bids asks in
     \<lparr>fs_ChainID = pub_ChainID params, fs_Protocol = pub_Protocol params, fs_Maker = pub_Maker params,
      fs_Pair = pub_Pair params, fs_BaseTick = base,
      fs_Bids = map (\<lambda>l. l\<lparr>Offset := base - Offset l\<rparr>) bids,
      fs_Asks = map (\<lambda>l. l\<lparr>Offset := Offset l - base\<rparr>) asks,
      fs_UpdatedAt = pub_UpdatedAt params, fs_MajorVersion = pub_MajorVersion params,
      fs_MinorVersion = pub_MinorVersion params, fs_CodecVersion = CodecVersion\<rparr>)"

lemma quoteSpec_alt:
  "quoteSpec params =
     attempt (wrap_err QuotePair (ValidatePair (pub_Pair params))) (\<lambda>_.
     attempt (wrap_err QuoteBids (quoteLevels (pub_Bids params) (pub_Pair params) True)) (\<lambda>bids.
     attempt (wrap_err QuoteAsks (quoteLevels (pub_Asks params) (pub_Pair params) False)) (\<lambda>asks.
     reject (\<not> (bids \<noteq> [] \<and> asks \<noteq> [] \<longrightarrow>
         decimal_rat (ql_Price (pub_Bids params ! 0)) \<le> decimal_rat (ql_Price (pub_Asks params ! 0))))
       CrossedInput (Inr (spec_from params bids asks)))))"
  by (simp only: quoteSpec_def spec_from_def base_tick_def Let_def not_imp not_le conj_assoc)

lemma quoteSpec_Inr:
  "quoteSpec params = Inr spec \<longleftrightarrow> (\<exists>bids asks. quoted_from params bids asks \<and> spec = spec_from params bids asks)"
  unfolding quoteSpec_alt attempt_Inr reject_Inr wrap_err_Inr quoted_from_def sum.inject not_not by auto

abbreviation spec_converts :: "publish_params \<Rightarrow> bool \<Rightarrow> quote_level \<Rightarrow> level \<Rightarrow> bool" where
  "spec_converts params \<equiv>
     converts (pub_Pair params) (the (pp_PriceTickSize (pub_Pair params))) (the (pp_LotSize (pub_Pair params)))"

lemma quoted_converts:
  assumes "quoted_from params bids asks"
  shows "ValidatePair (pub_Pair params) = Inr ()"
    "list_all2 (spec_converts params True) (pub_Bids params) bids"
    "list_all2 (spec_converts params False) (pub_Asks params) asks"
    "best_first True bids" "best_first False asks" "length bids \<le> MaxLevels" "length asks \<le> MaxLevels"
proof -
  show v: "ValidatePair (pub_Pair params) = Inr ()" using assms by (simp add: quoted_from_def)
  show b: "list_all2 (spec_converts params True) (pub_Bids params) bids"
    and a: "list_all2 (spec_converts params False) (pub_Asks params) asks"
    and "best_first True bids" "best_first False asks"
    using assms by (auto simp: quoted_from_def quoteLevels_iff [OF v])
  show "length bids \<le> MaxLevels" "length asks \<le> MaxLevels"
    using assms list_all2_lengthD [OF b] list_all2_lengthD [OF a]
    by (auto simp: quoted_from_def quoteLevels_iff [OF v])
qed

text \<open>The facts every specification proof needs: ranges, and the base tick between the bids and
  the asks.\<close>

lemma quoted_levels:
  assumes "quoted_from params bids asks"
  shows "\<forall>l\<in>set bids \<union> set asks. 0 < Offset l \<and> Offset l \<le> MaxTick \<and> 0 < QtyLots l \<and> QtyLots l \<le> MaxTick"
proof -
  note qc = quoted_converts [OF assms]
  have "\<exists>bid q. spec_converts params bid q l" if "l \<in> set bids \<union> set asks" for l
    using that qc(2,3) by (metis UnE list_all2_conv_all_nth in_set_conv_nth)
  then show ?thesis using converts_range [OF qc(1)] by blast
qed

lemma best_first_extreme:
  assumes "best_first bid ls" "l \<in> set ls"
  shows "if bid then Offset l \<le> Offset (ls ! 0) else Offset (ls ! 0) \<le> Offset l"
  using assms by (cases ls) (auto simp: best_first_def)

lemma best_uncrossed:
  assumes "quoted_from params bids asks" "bids \<noteq> []" "asks \<noteq> []"
  shows "Offset (bids ! 0) \<le> Offset (asks ! 0)"
proof (rule converts_uncrossed)
  note qc = quoted_converts [OF assms(1)]
  show "ValidatePair (pub_Pair params) = Inr ()" by (rule qc(1))
  show "spec_converts params True (pub_Bids params ! 0) (bids ! 0)"
    using qc(2) assms(2) by (simp add: list_all2_conv_all_nth)
  show "spec_converts params False (pub_Asks params ! 0) (asks ! 0)"
    using qc(3) assms(3) by (simp add: list_all2_conv_all_nth)
  show "decimal_rat (ql_Price (pub_Bids params ! 0)) \<le> decimal_rat (ql_Price (pub_Asks params ! 0))"
    using assms by (simp add: quoted_from_def)
qed

lemma base_between:
  assumes "quoted_from params bids asks"
  shows "l \<in> set bids \<Longrightarrow> Offset l \<le> base_tick bids asks" "l \<in> set asks \<Longrightarrow> base_tick bids asks \<le> Offset l"
proof -
  note qc = quoted_converts [OF assms]
  show "l \<in> set bids \<Longrightarrow> Offset l \<le> base_tick bids asks"
    using best_first_extreme [OF qc(4), of l] by (auto simp: base_tick_def)
  show "l \<in> set asks \<Longrightarrow> base_tick bids asks \<le> Offset l"
    using best_first_extreme [OF qc(5), of l] best_uncrossed [OF assms]
    by (cases "bids = []"; cases "asks = []") (auto simp: base_tick_def)
qed

text \<open>So the offset subtractions do not wrap, and undoing them gives the absolute ticks.\<close>

lemma offset_subtractions:
  assumes "quoted_from params bids asks"
  shows "l \<in> set bids \<Longrightarrow> unat (base_tick bids asks - Offset l) + unat (Offset l) = unat (base_tick bids asks)"
    and "l \<in> set asks \<Longrightarrow> unat (Offset l - base_tick bids asks) + unat (base_tick bids asks) = unat (Offset l)"
  using base_between [OF assms, of l] by (simp_all add: unat_sub word_le_nat_alt)

lemma wf_offsets:
  assumes "best_first bid ls" "length ls \<le> MaxLevels"
    and "\<forall>l\<in>set ls. wf_level (g l)"
    and "\<And>x y. x \<in> set ls \<Longrightarrow> y \<in> set ls \<Longrightarrow> (if bid then Offset y < Offset x else Offset x < Offset y) \<Longrightarrow>
      Offset (g x) < Offset (g y)"
  shows "wf_levels (map g ls)"
proof -
  have "sorted_wrt (<) (map (Offset \<circ> g) ls)"
    using assms(1) assms(4) unfolding best_first_def
    by (cases bid) (auto intro: sorted_wrt_map_transfer [where f = Offset])
  then show ?thesis
    using assms(2,3) by (simp add: wf_levels_def list_all_iff)
qed

lemma quoteSpec_valid:
  assumes q: "quoted_from params bids asks"
  shows "valid_spec (spec_from params bids asks)"
proof -
  let ?b = "base_tick bids asks"
  let ?fb = "\<lambda>l. l\<lparr>Offset := ?b - Offset l\<rparr>" and ?fa = "\<lambda>l. l\<lparr>Offset := Offset l - ?b\<rparr>"
  note qc = quoted_converts [OF q] and sub = offset_subtractions [OF q]
  have pos: "0 < unat (Offset l)" "unat (Offset l) \<le> unat MaxTick" "0 < QtyLots l" "QtyLots l \<le> MaxTick"
    if "l \<in> set bids \<union> set asks" for l
    using quoted_levels [OF q] that by (auto simp: word_less_nat_alt word_le_nat_alt)
  have b: "?b \<noteq> 0" "?b \<le> MaxTick"
    using quoted_levels [OF q] by (auto simp: base_tick_def word_gt_0 MaxTick_def)
  have "wf_levels (map ?fb bids)"
  proof (rule wf_offsets [OF qc(4) qc(6)])
    show "\<forall>l\<in>set bids. wf_level (?fb l)"
    proof
      fix l assume l: "l \<in> set bids"
      then have "unat (?b - Offset l) \<le> unat MaxTick"
        using sub(1) [OF l] b(2) by (simp add: word_le_nat_alt)
      then show "wf_level (?fb l)" using pos [of l] l by (simp add: wf_level_def word_le_nat_alt)
    qed
    show "Offset (?fb x) < Offset (?fb y)" if "x \<in> set bids" "y \<in> set bids"
      "if True then Offset y < Offset x else Offset x < Offset y" for x y
      using that(3) sub(1) [OF that(1)] sub(1) [OF that(2)] by (simp add: word_less_nat_alt)
  qed
  moreover have "wf_levels (map ?fa asks)"
  proof (rule wf_offsets [OF qc(5) qc(7)])
    show "\<forall>l\<in>set asks. wf_level (?fa l)"
    proof
      fix l assume l: "l \<in> set asks"
      then have "unat (Offset l - ?b) \<le> unat MaxTick"
        using sub(2) [OF l] pos(2) [of l] by simp
      then show "wf_level (?fa l)" using pos [of l] l by (simp add: wf_level_def word_le_nat_alt)
    qed
    show "Offset (?fa x) < Offset (?fa y)" if "x \<in> set asks" "y \<in> set asks"
      "if False then Offset y < Offset x else Offset x < Offset y" for x y
      using that(3) sub(2) [OF that(1)] sub(2) [OF that(2)] by (simp add: word_less_nat_alt)
  qed
  moreover have "?b - Offset l < ?b" if "l \<in> set bids" for l
    using pos(1) [of l] sub(1) [OF that] that by (simp add: word_less_nat_alt)
  moreover have "unat (Offset l - ?b) + unat ?b \<le> unat MaxTick" if "l \<in> set asks" for l
    using pos(2) [of l] sub(2) [OF that] that by simp
  moreover have "pp_PairID (pub_Pair params) \<noteq> 0"
    by (rule ValidatePair_scales [OF qc(1)])
  ultimately show ?thesis
    using b by (simp add: valid_spec_def valid_book_def spec_from_def Let_def)
qed

subsection \<open>Properties\<close>

text \<open>\<open>quoteUnits\<close> returns \<open>t\<close> exactly when the text is a positive plain decimal of at most 64
  characters and \<open>t\<close>, a positive uint24, is the floor (or, rounding up, the ceiling) of the exact
  quotient \<open>value * 10 ^ scale / step\<close>.\<close>

theorem quote_units_exact:
  assumes "0 < step"
  shows "quoteUnits s scale step up = Inr t \<longleftrightarrow>
    0 < length s \<and> length s \<le> 64 \<and> plain_decimal s \<and> 0 < decimal_rat s \<and> 0 < t \<and> t \<le> MaxTick \<and>
    uint t = (if up then \<lceil>decimal_rat s * 10 powi scale / of_int step\<rceil>
      else \<lfloor>decimal_rat s * 10 powi scale / of_int step\<rfloor>)"
  unfolding quoteUnits_iff [OF assms] rounded_def exact_units_def ..

lemma digits_eval: "is_digit CHR ''1''" "is_digit CHR ''2''" "is_digit CHR ''5''" "is_digit CHR ''9''"
    "digit_val CHR ''1'' = 1" "digit_val CHR ''2'' = 2" "digit_val CHR ''5'' = 5" "digit_val CHR ''9'' = 9"
    "is_digit CHR ''3''" "is_digit CHR ''7''" "digit_val CHR ''3'' = 3" "digit_val CHR ''7'' = 7"
  by (simp_all add: is_digit_def digit_val_def)

theorem quote_units_exact_witness:
  "quoteUnits ''12.5'' 6 1000000 False = Inr 12 \<and> quoteUnits ''12.5'' 6 1000000 True = Inr 13"
proof -
  have v: "plain_decimal ''12.5''" "decimal_rat ''12.5'' = 25 / 2"
    by (simp_all add: plain_decimal_def decimal_rat_def Cut_def digits_eval)
  show ?thesis
    using quote_units_exact [of 1000000 "''12.5''" 6 False 12] quote_units_exact [of 1000000 "''12.5''" 6 True 13]
    by (simp add: MaxTick_def v floor_eq_iff ceiling_eq_iff)
qed

text \<open>A sample quote: the bid is aligned, the ask and both amounts are rounded.\<close>

definition sample_params :: publish_params where
  "sample_params = \<lparr>pub_ChainID = 1, pub_Protocol = 0xC3, pub_Maker = 0xD4, pub_Pair = sample_pair,
     pub_Bids = [\<lparr>ql_Price = ''12.5'', ql_Amount = ''5.2''\<rparr>],
     pub_Asks = [\<lparr>ql_Price = ''12.5'', ql_Amount = ''3''\<rparr>, \<lparr>ql_Price = ''12.517'', ql_Amount = ''1.5''\<rparr>],
     pub_UpdatedAt = 1700000000, pub_MajorVersion = 2, pub_MinorVersion = 9,
     pub_Signer = LiveSigner toy_signer\<rparr>"

lemma sample_units:
  "quoteUnits ''12.5'' 6 10000 up = Inr 1250" "quoteUnits ''12.517'' 6 10000 True = Inr 1252"
  "quoteUnits ''5.2'' 18 1000000000000000 False = Inr 5200" "quoteUnits ''3'' 18 1000000000000000 False = Inr 3000"
  "quoteUnits ''1.5'' 18 1000000000000000 False = Inr 1500"
  by (simp_all add: quoteUnits_iff exact_units_def rounded_def plain_decimal_def decimal_rat_def Cut_def
      digits_eval MaxTick_def floor_eq_iff ceiling_eq_iff)

lemma sample_quoted:
  "quoted_from sample_params [\<lparr>Offset = 1250, QtyLots = 5200\<rparr>]
     [\<lparr>Offset = 1250, QtyLots = 3000\<rparr>, \<lparr>Offset = 1252, QtyLots = 1500\<rparr>]"
proof -
  have v: "ValidatePair sample_pair = Inr ()"
    by (simp add: ValidatePair_def sample_pair_def bad_scale_def not_less BitLen_le)
  have p: "priceScale sample_pair = 6" "uint (pp_BaseDecimals sample_pair) = 18"
      "the (pp_PriceTickSize sample_pair) = 10000" "the (pp_LotSize sample_pair) = 1000000000000000"
    by (simp_all add: sample_pair_def priceScale_def)
  show ?thesis
    unfolding quoted_from_def
    by (simp add: sample_params_def v quoteLevels_iff converts_def p sample_units best_first_def MaxLevels_def)
qed

lemma sample_quoteSpec: "\<exists>spec. quoteSpec sample_params = Inr spec"
  using sample_quoted quoteSpec_Inr by blast

text \<open>whatever \<open>quoteSpec\<close> returns is a valid specification that the encoder accepts: the
  offset subtractions never wrap, both books are inside the codec's range and strictly ordered.\<close>

theorem quote_spec_encodable:
  assumes "quoteSpec params = Inr spec"
  shows "valid_spec spec \<and> ValidatePair (fs_Pair spec) = Inr () \<and> (\<exists>f. encodeCompactFrame spec = Inr f)"
proof -
  obtain bids asks where q: "quoted_from params bids asks" "spec = spec_from params bids asks"
    using assms by (auto simp: quoteSpec_Inr)
  with quoteSpec_valid [OF q(1)] encodeCompactFrame_ok quoted_converts(1) [OF q(1)]
  show ?thesis by (auto simp: spec_from_def Let_def)
qed

theorem quote_spec_encodable_witness:
  "\<exists>spec f. quoteSpec sample_params = Inr spec \<and> valid_spec spec \<and> encodeCompactFrame spec = Inr f"
  using sample_quoteSpec quote_spec_encodable [of sample_params] by blast

text \<open>What a converted side promises: each level's price is on the maker's side of the input price
  by less than one tick, its amount at most the input amount by less than one lot.\<close>

definition conservative :: "pair_params \<Rightarrow> bool \<Rightarrow> (level \<Rightarrow> nat) \<Rightarrow> quote_level \<Rightarrow> level \<Rightarrow> bool" where
  "conservative pair bid tick q l \<longleftrightarrow>
     (let price = decimal_rat (ql_Price q); amount = decimal_rat (ql_Amount q) in
      (if bid then price_value pair (tick l) \<le> price \<and> price < price_value pair (tick l + 1)
       else price \<le> price_value pair (tick l) \<and> price_value pair (tick l - 1) < price) \<and>
      amount_value pair (unat (QtyLots l)) \<le> amount \<and> amount < amount_value pair (unat (QtyLots l) + 1))"

lemma exact_units_value:
  assumes "0 < step"
  shows "exact_units s scale step \<le> y \<longleftrightarrow> decimal_rat s \<le> y * of_int step / 10 powi scale"
    and "exact_units s scale step < y \<longleftrightarrow> decimal_rat s < y * of_int step / 10 powi scale"
    and "y \<le> exact_units s scale step \<longleftrightarrow> y * of_int step / 10 powi scale \<le> decimal_rat s"
    and "y < exact_units s scale step \<longleftrightarrow> y * of_int step / 10 powi scale < decimal_rat s"
proof -
  have "0 < (10 :: rat) powi scale" "0 < (of_int step :: rat)" using assms by simp_all
  then show "exact_units s scale step \<le> y \<longleftrightarrow> decimal_rat s \<le> y * of_int step / 10 powi scale"
    and "exact_units s scale step < y \<longleftrightarrow> decimal_rat s < y * of_int step / 10 powi scale"
    and "y \<le> exact_units s scale step \<longleftrightarrow> y * of_int step / 10 powi scale \<le> decimal_rat s"
    and "y < exact_units s scale step \<longleftrightarrow> y * of_int step / 10 powi scale < decimal_rat s"
    unfolding exact_units_def
    by (simp_all only: pos_divide_le_eq pos_divide_less_eq pos_le_divide_eq pos_less_divide_eq)
qed

lemma converts_conservative:
  assumes v: "ValidatePair pair = Inr ()"
    and c: "converts pair (the (pp_PriceTickSize pair)) (the (pp_LotSize pair)) bid q l"
    and t: "tick k = unat (Offset l)" "QtyLots k = QtyLots l"
  shows "conservative pair bid tick q k"
proof -
  let ?x = "exact_units (ql_Price q) (priceScale pair) (the (pp_PriceTickSize pair))"
    and ?y = "exact_units (ql_Amount q) (uint (pp_BaseDecimals pair)) (the (pp_LotSize pair))"
  note r = converts_range [OF v c] and sc = ValidatePair_scales [OF v]
  have pw: "(10 :: rat) powi uint (pp_BaseDecimals pair) = 10 ^ unat (pp_BaseDecimals pair)"
    by (metis power_int_of_nat uint_nat)
  have pos: "1 \<le> unat (Offset l)" using r(1) by (simp add: word_less_nat_alt)
  have "(of_nat (unat (QtyLots l)) :: rat) = of_int \<lfloor>?y\<rfloor>"
    using r(6) by (metis of_int_of_nat_eq uint_nat)
  then have "of_nat (unat (QtyLots l)) \<le> ?y" "?y < of_nat (unat (QtyLots l) + 1)"
    using floor_correct [of ?y] by simp_all
  then have amount: "amount_value pair (unat (QtyLots l)) \<le> decimal_rat (ql_Amount q)"
      "decimal_rat (ql_Amount q) < amount_value pair (unat (QtyLots l) + 1)"
    by (simp_all only: exact_units_value [OF sc(2)] amount_value_def pw)
  have o: "(of_nat (unat (Offset l)) :: rat) = of_int (rounded (\<not> bid) ?x)"
    using r(5) by (metis of_int_of_nat_eq uint_nat)
  have "if bid then of_nat (unat (Offset l)) \<le> ?x \<and> ?x < of_nat (unat (Offset l) + 1)
      else ?x \<le> of_nat (unat (Offset l)) \<and> of_nat (unat (Offset l) - 1) < ?x"
    using o pos ceiling_correct [of ?x] floor_correct [of ?x] by (simp add: rounded_def of_nat_diff)
  then have "if bid then price_value pair (unat (Offset l)) \<le> decimal_rat (ql_Price q) \<and>
        decimal_rat (ql_Price q) < price_value pair (unat (Offset l) + 1)
      else decimal_rat (ql_Price q) \<le> price_value pair (unat (Offset l)) \<and>
        price_value pair (unat (Offset l) - 1) < decimal_rat (ql_Price q)"
    by (simp only: exact_units_value [OF sc(1)] price_value_def)
  with amount show ?thesis by (simp only: conservative_def Let_def t)
qed

text \<open>C4: outward rounding: in the specification \<open>quoteSpec\<close> returns, every bid is priced at or below
  its input and every ask at or above it, by less than one price tick, every amount is at most its
  input by less than one lot, and levels keep their number and order.\<close>

theorem quote_spec_conservative:
  assumes "quoteSpec params = Inr spec"
  shows "list_all2 (conservative (pub_Pair params) True (bid_tick (fs_BaseTick spec))) (pub_Bids params) (fs_Bids spec) \<and>
    list_all2 (conservative (pub_Pair params) False (ask_tick (fs_BaseTick spec))) (pub_Asks params) (fs_Asks spec)"
proof -
  obtain bids asks where q: "quoted_from params bids asks" and s: "spec = spec_from params bids asks"
    using assms by (auto simp: quoteSpec_Inr)
  let ?b = "base_tick bids asks"
  note qc = quoted_converts [OF q] and sub = offset_subtractions [OF q]
  have "conservative (pub_Pair params) True (bid_tick ?b) x (l\<lparr>Offset := ?b - Offset l\<rparr>)"
    if "spec_converts params True x l" "l \<in> set bids" for x l
    using sub(1) [OF that(2)] by (intro converts_conservative [OF qc(1) that(1)]) (simp_all add: bid_tick_def)
  moreover have "conservative (pub_Pair params) False (ask_tick ?b) x (l\<lparr>Offset := Offset l - ?b\<rparr>)"
    if "spec_converts params False x l" "l \<in> set asks" for x l
    using sub(2) [OF that(2)] by (intro converts_conservative [OF qc(1) that(1)]) (simp_all add: ask_tick_def)
  ultimately show ?thesis
    using qc(2,3) by (simp add: s spec_from_def Let_def list_all2_conv_all_nth)
qed

theorem quote_spec_conservative_witness:
  "\<exists>spec. quoteSpec sample_params = Inr spec \<and>
     list_all2 (conservative sample_pair False (ask_tick (fs_BaseTick spec))) (pub_Asks sample_params) (fs_Asks spec)"
proof -
  obtain spec where s: "quoteSpec sample_params = Inr spec" using sample_quoteSpec ..
  moreover have "pub_Pair sample_params = sample_pair" by (simp add: sample_params_def)
  ultimately show ?thesis using quote_spec_conservative [OF s] by auto
qed

text \<open>a locked or ordered input book is never refused as crossed, and a crossed one always is,
  even where rounding would uncross it: once both sides convert, \<open>quoteSpec\<close> fails exactly when the
  best bid text is strictly above the best ask text.\<close>

theorem quote_spec_crossed:
  assumes "ValidatePair (pub_Pair params) = Inr ()"
    and "quoteLevels (pub_Bids params) (pub_Pair params) True = Inr bids" "bids \<noteq> []"
    and "quoteLevels (pub_Asks params) (pub_Pair params) False = Inr asks" "asks \<noteq> []"
  shows "quoteSpec params =
    (if decimal_rat (ql_Price (hd (pub_Asks params))) < decimal_rat (ql_Price (hd (pub_Bids params)))
     then Inl CrossedInput else Inr (spec_from params bids asks))"
proof -
  have "pub_Bids params \<noteq> []" "pub_Asks params \<noteq> []"
    using assms by (auto simp: quoteLevels_iff)
  then show ?thesis
    using assms by (simp add: quoteSpec_alt hd_conv_nth not_le)
qed

theorem quote_spec_crossed_witness:
  "quoteSpec sample_params =
     Inr (spec_from sample_params [\<lparr>Offset = 1250, QtyLots = 5200\<rparr>]
       [\<lparr>Offset = 1250, QtyLots = 3000\<rparr>, \<lparr>Offset = 1252, QtyLots = 1500\<rparr>])"
  using quote_spec_crossed [of sample_params "[\<lparr>Offset = 1250, QtyLots = 5200\<rparr>]"
      "[\<lparr>Offset = 1250, QtyLots = 3000\<rparr>, \<lparr>Offset = 1252, QtyLots = 1500\<rparr>]"]
    sample_quoted unfolding quoted_from_def by (simp add: sample_params_def)

end
