(* ===== verification/Router_Quote.thy ===== *)
theory Router_Quote
  imports Maker_Quote
begin

text \<open>
  The router's local quote, \<open>pkg/router/quote.go\<close>: exact reading of readable levels, input and
  output fees, and matching of a budget against one side of a book. \<open>common.IsHexAddress\<close> and
  \<open>common.HexToAddress\<close> are fields of the parameter record \<open>hexlib\<close> of Wire_Messages; the clock is an argument.
  The lemmas show that reading inverts the maker's rendering, that the fee and cost formulas are
  the optima they are documented to be, that a quote never spends more than its budget, and where
  an output can exceed a uint256.
\<close>

definition quotePPM :: int where
  "quotePPM = 1000000"

record quote_config =
  qc_Pair :: pair_params
  qc_FeeToken :: address
  qc_FeeRatePPM :: u32
  qc_DecayStartOffsetSeconds :: u32

datatype router_error =
    FrameRequired
  | ErrFutureFrame
  | ErrExpiredFrame
  | AmountInRange
  | RouterPair frame_error
  | DirectionMismatch
  | InvalidFee
  | FeeTokenForeign
  | PairMismatch
  | RLevelPrice nat router_error
  | RLevelAmount nat router_error
  | DecimalLength
  | DecimalSyntax
  | DecimalInexact
  | DecimalRange
  | OutputExceedsUint256
  | ErrZeroOutput

definition quote_fees_bad :: "quote_config \<Rightarrow> bool" where
  "quote_fees_bad cfg \<longleftrightarrow> uint (qc_FeeRatePPM cfg) \<ge> quotePPM \<or> (qc_FeeRatePPM cfg = 0) \<noteq> (qc_FeeToken cfg = 0)"

definition validateQuote ::
  "hexlib \<Rightarrow> market_frame option \<Rightarrow> address \<Rightarrow> address \<Rightarrow> int option \<Rightarrow> quote_config \<Rightarrow> u64
     \<Rightarrow> router_error + unit" where
  "validateQuote H v tokenIn tokenOut amountIn cfg now = (case v of None \<Rightarrow> Inl FrameRequired | Some m \<Rightarrow>
     (case mf_Pair m of None \<Rightarrow> Inl FrameRequired | Some pair \<Rightarrow>
       let updatedAt = (ucast (mf_UpdatedAt m) :: u64);
           sell = (tokenIn = pp_BaseToken (qc_Pair cfg) \<and> tokenOut = pp_QuoteToken (qc_Pair cfg));
           buy = (tokenIn = pp_QuoteToken (qc_Pair cfg) \<and> tokenOut = pp_BaseToken (qc_Pair cfg))
       in reject (now < updatedAt) ErrFutureFrame
         (reject (now - updatedAt > ucast (qc_DecayStartOffsetSeconds cfg)) ErrExpiredFrame
         (reject (case amountIn of None \<Rightarrow> True | Some a \<Rightarrow> a \<le> 0 \<or> BitLen a > 256) AmountInRange
         (attempt (wrap_err RouterPair (ValidatePair (qc_Pair cfg))) (\<lambda>_.
          reject (\<not> sell \<and> \<not> buy) DirectionMismatch
         (reject (quote_fees_bad cfg) InvalidFee
         (reject (qc_FeeToken cfg \<noteq> 0 \<and> qc_FeeToken cfg \<noteq> pp_BaseToken (qc_Pair cfg) \<and>
                  qc_FeeToken cfg \<noteq> pp_QuoteToken (qc_Pair cfg)) FeeTokenForeign
         (reject (pk_PairId pair \<noteq> pp_PairID (qc_Pair cfg) \<or> \<not> IsHexAddress H (pk_BaseToken pair) \<or>
                  \<not> IsHexAddress H (pk_QuoteToken pair) \<or>
                  HexToAddress H (pk_BaseToken pair) \<noteq> pp_BaseToken (qc_Pair cfg) \<or>
                  HexToAddress H (pk_QuoteToken pair) \<noteq> pp_QuoteToken (qc_Pair cfg)) PairMismatch
         (Inr ()))))))))))"

definition priceScale18 :: int where
  "priceScale18 = 1000000000000000000"

definition scaleMinusOne :: int where
  "scaleMinusOne = priceScale18 - 1"

definition quoteCost :: "int \<Rightarrow> int \<Rightarrow> int" where
  "quoteCost base price = Quo (base * price + scaleMinusOne) priceScale18"

definition quoteValue :: "int \<Rightarrow> int \<Rightarrow> int" where
  "quoteValue base price = Quo (base * price) priceScale18"

definition baseAffordable :: "int \<Rightarrow> int \<Rightarrow> int" where
  "baseAffordable budget price = Quo (budget * priceScale18) price"

definition legBudgetWithInputFee :: "int \<Rightarrow> quote_config \<Rightarrow> address \<Rightarrow> int" where
  "legBudgetWithInputFee amountIn cfg tokenIn =
     (if qc_FeeRatePPM cfg = 0 \<or> qc_FeeToken cfg \<noteq> tokenIn then amountIn
      else Quo ((amountIn + 1) * quotePPM - 1) (quotePPM + uint (qc_FeeRatePPM cfg)))"

definition quoteDeduction :: "int \<Rightarrow> u32 \<Rightarrow> int" where
  "quoteDeduction amount rate = Quo (amount * uint rate) quotePPM"

definition applyOutputFee :: "int \<Rightarrow> quote_config \<Rightarrow> address \<Rightarrow> router_error + int" where
  "applyOutputFee gross cfg tokenOut =
     (let gross = (if qc_FeeRatePPM cfg > 0 \<and> qc_FeeToken cfg = tokenOut
                   then gross - quoteDeduction gross (qc_FeeRatePPM cfg) else gross)
      in reject (gross = 0) ErrZeroOutput (Inr gross))"

text \<open>The runes of a Go string outside \<open>'0'..'9'\<close> are refused; on the byte string every byte of
  such a rune is outside \<open>'0'..'9'\<close> too.\<close>

definition quoteDecimal :: "string \<Rightarrow> int \<Rightarrow> router_error + int" where
  "quoteDecimal s scale =
     reject (length s = 0 \<or> length s > 64) DecimalLength
    (case Cut s dot_char of (whole, fraction, dot) \<Rightarrow>
     reject (whole = [] \<or> (dot \<and> fraction = [])) DecimalSyntax
    (let digits = whole @ fraction in
     reject (\<not> list_all is_digit digits) DecimalSyntax
    (let shift = scale - int (length fraction);
         end_pos = int (length digits) + shift
     in reject (shift < 0 \<and> (end_pos \<le> 0 \<or> Trim (drop (nat end_pos) digits) ''0'' \<noteq> [])) DecimalInexact
    (let digits = (if shift < 0 then take (nat end_pos) digits
                   else if shift > 0 then digits @ Repeat ''0'' (nat shift) else digits)
     in case big_SetString digits of None \<Rightarrow> Inl DecimalRange
        | Some n \<Rightarrow> reject (n \<le> 0 \<or> BitLen n > 256) DecimalRange (Inr n)))))"

text \<open>The loop of \<open>matchQuote\<close>: \<open>i\<close> is the index of the next level. \<open>break\<close> ends it with the output
  accumulated so far.\<close>

fun matchQuote_loop ::
  "pair_params \<Rightarrow> bool \<Rightarrow> nat \<Rightarrow> price_level option list \<Rightarrow> int \<Rightarrow> int \<Rightarrow> router_error + int" where
  "matchQuote_loop pair buy i [] budget out = Inr out"
| "matchQuote_loop pair buy i (l # ls) budget out =
     (if budget = 0 then Inr out else
      attempt (wrap_err (RLevelPrice i) (quoteDecimal (GetPrice l) (priceScale pair))) (\<lambda>price.
      attempt (wrap_err (RLevelAmount i) (quoteDecimal (GetAmount l) (uint (pp_BaseDecimals pair)))) (\<lambda>depth.
      if buy then
        let cost = quoteCost depth price in
        if cost > budget then
          let take = baseAffordable budget price in
          if take = 0 then Inr out
          else
            let cost = quoteCost take price; out = out + take; budget = budget - cost in
            if take < depth then Inr out
            else reject (BitLen out > 256) OutputExceedsUint256
              (matchQuote_loop pair buy (Suc i) ls budget out)
        else
          let out = out + depth; budget = budget - cost in
          reject (BitLen out > 256) OutputExceedsUint256
            (matchQuote_loop pair buy (Suc i) ls budget out)
      else
        let take = (if depth > budget then budget else depth);
            quote = quoteValue take price;
            out = out + quote; budget = budget - take in
        reject (BitLen out > 256) OutputExceedsUint256
          (matchQuote_loop pair buy (Suc i) ls budget out))))"

definition matchQuote ::
  "price_level option list \<Rightarrow> address \<Rightarrow> address \<Rightarrow> int \<Rightarrow> quote_config \<Rightarrow> router_error + int" where
  "matchQuote levels tokenIn tokenOut amountIn cfg =
     (let budget = legBudgetWithInputFee amountIn cfg tokenIn;
          buy = (tokenIn = pp_QuoteToken (qc_Pair cfg))
      in attempt (matchQuote_loop (qc_Pair cfg) buy 0 levels budget 0) (\<lambda>out.
         applyOutputFee out cfg tokenOut))"

definition Quote ::
  "hexlib \<Rightarrow> market_frame option \<Rightarrow> address \<Rightarrow> address \<Rightarrow> int option \<Rightarrow> quote_config \<Rightarrow> u64
     \<Rightarrow> router_error + int" where
  "Quote H v tokenIn tokenOut amountIn cfg now =
     attempt (validateQuote H v tokenIn tokenOut amountIn cfg now) (\<lambda>_.
     (case (v, amountIn) of
        (Some m, Some a) \<Rightarrow>
          let levels = (if tokenIn = pp_QuoteToken (qc_Pair cfg) then mf_Asks m else mf_Bids m)
          in matchQuote levels tokenIn tokenOut a cfg
      | _ \<Rightarrow> Inl FrameRequired))"

subsection \<open>Reading readable decimals\<close>

lemma Trim_zeros: "Trim s ''0'' = [] \<longleftrightarrow> set s \<subseteq> {zero_char}"
proof -
  let ?t = "TrimLeft s ''0''"
  have l: "?t = [] \<longleftrightarrow> set s \<subseteq> {zero_char}"
    by (auto simp: TrimLeft_def dropWhile_eq_Nil_conv)
  have r: "TrimRight ?t ''0'' = [] \<longleftrightarrow> set ?t \<subseteq> {zero_char}"
    by (auto simp: TrimRight_def dropWhile_eq_Nil_conv)
  show ?thesis
  proof (cases "?t = []")
    case False
    then have "hd ?t \<noteq> zero_char"
      using hd_dropWhile [of "\<lambda>c. c \<in> set ''0''" s] by (simp add: TrimLeft_def)
    then have "\<not> set ?t \<subseteq> {zero_char}" using hd_in_set [OF False] by blast
    then show ?thesis using l r False by (simp add: Trim_def)
  qed (use l in \<open>simp add: Trim_def\<close>)
qed

text \<open>Moving the decimal point by \<open>shift\<close> digits, to the left only over zeros.\<close>

definition shifted_digits :: "string \<Rightarrow> int \<Rightarrow> string" where
  "shifted_digits ds shift = (if shift < 0 then take (nat (int (length ds) + shift)) ds
     else if shift > 0 then ds @ Repeat ''0'' (nat shift) else ds)"

definition shift_exact :: "string \<Rightarrow> int \<Rightarrow> bool" where
  "shift_exact ds shift \<longleftrightarrow> \<not> (shift < 0 \<and> (int (length ds) + shift \<le> 0 \<or>
     Trim (drop (nat (int (length ds) + shift)) ds) ''0'' \<noteq> []))"

lemma shifted_value:
  assumes "list_all is_digit ds" "0 < n"
  shows "shift_exact ds shift \<and> int (digits_val (shifted_digits ds shift)) = n \<longleftrightarrow>
    of_int n = (of_nat (digits_val ds) * 10 powi shift :: rat)"
proof (cases "shift < 0")
  case False
  define k where "k = nat shift"
  have k: "shift = int k" using False by (simp add: k_def)
  have v: "digits_val (shifted_digits ds shift) = digits_val ds * 10 ^ k"
    by (auto simp: shifted_digits_def k digits_val_append)
  have "of_int n = (of_nat (digits_val ds) * 10 powi shift :: rat) \<longleftrightarrow>
      (of_int n :: rat) = of_int (int (digits_val ds * 10 ^ k))"
    by (simp add: k)
  also have "\<dots> \<longleftrightarrow> int (digits_val ds * 10 ^ k) = n" by (simp only: of_int_eq_iff eq_commute)
  finally show ?thesis using False by (simp add: shift_exact_def v)
next
  case True
  define k where "k = nat (- shift)"
  have k: "shift = - int k" "0 < k" using True by (simp_all add: k_def)
  have rat: "of_int n = (of_nat (digits_val ds) * 10 powi shift :: rat) \<longleftrightarrow> n * 10 ^ k = int (digits_val ds)"
  proof -
    have "of_int n = (of_nat (digits_val ds) * 10 powi shift :: rat) \<longleftrightarrow>
        (of_int n * 10 ^ k :: rat) = of_nat (digits_val ds)"
      by (simp add: k power_int_minus field_simps)
    also have "\<dots> \<longleftrightarrow> (of_int (n * 10 ^ k) :: rat) = of_int (int (digits_val ds))" by simp
    finally show ?thesis by (simp only: of_int_eq_iff)
  qed
  show ?thesis
  proof (cases "length ds \<le> k")
    case True
    have "digits_val ds < 10 ^ length ds" by (rule digits_val_less [OF assms(1)])
    also have "\<dots> \<le> 10 ^ k" using True by (simp add: power_increasing)
    finally have "int (digits_val ds) < 10 ^ k" by (metis of_nat_less_iff of_nat_numeral of_nat_power)
    moreover have "10 ^ k \<le> n * 10 ^ k" using assms(2) by simp
    ultimately have "n * 10 ^ k \<noteq> int (digits_val ds)" by linarith
    then show ?thesis using True k unfolding rat by (simp add: shift_exact_def)
  next
    case False
    define e where "e = length ds - k"
    have e: "nat (int (length ds) + shift) = e" "0 < e" "length (drop e ds) = k"
      using False by (simp_all add: e_def k)
    have dd: "list_all is_digit (drop e ds)"
      using assms(1) by (auto simp: list_all_iff dest: in_set_dropD)
    have val: "digits_val ds = digits_val (take e ds) * 10 ^ k + digits_val (drop e ds)"
      using digits_val_append [of "take e ds" "drop e ds"] e(3) by simp
    have less: "digits_val (drop e ds) < 10 ^ k"
      using digits_val_less [OF dd] e(3) by simp
    have "n * 10 ^ k = int (digits_val ds) \<longleftrightarrow> digits_val (drop e ds) = 0 \<and> int (digits_val (take e ds)) = n"
    proof
      assume a: "n * 10 ^ k = int (digits_val ds)"
      then have "nat n * 10 ^ k = digits_val ds"
        using assms(2) by (metis nat_int nat_mult_distrib less_imp_le nat_power_eq zero_le_numeral nat_numeral)
      then have "nat n = digits_val ds div 10 ^ k" "0 = digits_val ds mod 10 ^ k"
        by (metis nonzero_mult_div_cancel_right power_not_zero zero_neq_numeral, metis mod_mult_self2_is_0)
      then show "digits_val (drop e ds) = 0 \<and> int (digits_val (take e ds)) = n"
        using less assms(2) by (simp add: val)
    qed (simp add: val)
    then show ?thesis
      using True e digits_val_eq_0 [OF dd]
      unfolding rat by (auto simp: shift_exact_def shifted_digits_def Trim_zeros)
  qed
qed

lemma Cut_plain:
  assumes "Cut s dot_char = (w, f, dot)"
  shows "plain_decimal s \<longleftrightarrow> w \<noteq> [] \<and> \<not> (dot \<and> f = []) \<and> list_all is_digit (w @ f)"
    and "decimal_rat s = of_nat (digits_val (w @ f)) / 10 ^ length f"
proof -
  have "f = []" if "\<not> dot"
  proof -
    have "dot_char \<notin> set s" using assms that by (simp add: Cut_def)
    then have "dropWhile (\<lambda>c. c \<noteq> dot_char) s = []" unfolding dropWhile_eq_Nil_conv by blast
    then show ?thesis using assms unfolding Cut_def by (metis list.sel(2) prod.inject)
  qed
  then show "plain_decimal s \<longleftrightarrow> w \<noteq> [] \<and> \<not> (dot \<and> f = []) \<and> list_all is_digit (w @ f)"
    using assms by (auto simp: plain_decimal_def)
  show "decimal_rat s = of_nat (digits_val (w @ f)) / 10 ^ length f"
    using assms by (simp add: decimal_rat_def)
qed

lemma quoteDecimal_iff:
  "quoteDecimal s scale = Inr n \<longleftrightarrow> 0 < length s \<and> length s \<le> 64 \<and> plain_decimal s \<and>
     0 < n \<and> n < 2 ^ 256 \<and> of_int n = decimal_rat s * 10 powi scale"
proof -
  obtain w f dot where c: "Cut s dot_char = (w, f, dot)" by (cases "Cut s dot_char")
  let ?sh = "scale - int (length f)"
  have pw: "decimal_rat s * 10 powi scale = of_nat (digits_val (w @ f)) * 10 powi ?sh"
    by (simp add: Cut_plain(2) [OF c] power_int_diff)
  have ne: "shifted_digits (w @ f) ?sh \<noteq> []" if "w \<noteq> []" "shift_exact (w @ f) ?sh"
    using that by (auto simp: shifted_digits_def shift_exact_def not_le split: if_splits)
  have dg: "list_all is_digit (shifted_digits (w @ f) ?sh)" if "list_all is_digit (w @ f)"
    using that by (auto simp: shifted_digits_def list_all_iff dest: in_set_takeD)
  have "quoteDecimal s scale = Inr n \<longleftrightarrow> 0 < length s \<and> length s \<le> 64 \<and> w \<noteq> [] \<and> \<not> (dot \<and> f = []) \<and>
      list_all is_digit (w @ f) \<and> shift_exact (w @ f) ?sh \<and>
      (case big_SetString (shifted_digits (w @ f) ?sh) of None \<Rightarrow> False
        | Some m \<Rightarrow> m = n \<and> 0 < n \<and> n < 2 ^ 256)"
    unfolding quoteDecimal_def c prod.case Let_def shifted_digits_def [symmetric] shift_exact_def
    by (auto simp: not_less BitLen_le split: option.splits)
  also have "\<dots> \<longleftrightarrow> 0 < length s \<and> length s \<le> 64 \<and> plain_decimal s \<and> 0 < n \<and> n < 2 ^ 256 \<and>
      shift_exact (w @ f) ?sh \<and> int (digits_val (shifted_digits (w @ f) ?sh)) = n"
    using ne dg unfolding Cut_plain(1) [OF c] big_SetString_def by auto
  also have "\<dots> \<longleftrightarrow> 0 < length s \<and> length s \<le> 64 \<and> plain_decimal s \<and>
     0 < n \<and> n < 2 ^ 256 \<and> of_int n = decimal_rat s * 10 powi scale"
    using shifted_value [of "w @ f" n ?sh] unfolding pw Cut_plain(1) [OF c] by blast
  finally show ?thesis .
qed

subsection \<open>Fees and prices\<close>

lemma quoteCost_le:
  assumes "0 \<le> base" "0 \<le> price"
  shows "quoteCost base price \<le> budget \<longleftrightarrow> base * price \<le> budget * priceScale18"
proof -
  have "0 \<le> base * price" using assms by simp
  then have "quoteCost base price = (base * price + 999999999999999999) div 1000000000000000000"
    by (simp add: quoteCost_def scaleMinusOne_def priceScale18_def Quo_nonneg)
  then show ?thesis by (simp add: priceScale18_def) linarith
qed

lemma baseAffordable_ge:
  assumes "0 \<le> budget" "0 < price"
  shows "base \<le> baseAffordable budget price \<longleftrightarrow> base * price \<le> budget * priceScale18"
proof -
  have "baseAffordable budget price = budget * priceScale18 div price"
    using assms by (simp add: baseAffordable_def Quo_nonneg priceScale18_def)
  then show ?thesis using assms(2) by (simp add: int_le_div_iff)
qed

text \<open>The two are adjoint: cost and affordable base invert each other up to rounding.\<close>

lemma cost_affordable:
  assumes "0 \<le> base" "0 \<le> budget" "0 < price"
  shows "quoteCost base price \<le> budget \<longleftrightarrow> base \<le> baseAffordable budget price"
  using quoteCost_le [of base price budget] baseAffordable_ge [of budget price base] assms by simp

lemma legBudget_le:
  assumes "0 \<le> amountIn" "qc_FeeRatePPM cfg \<noteq> 0" "qc_FeeToken cfg = tokenIn"
  shows "b \<le> legBudgetWithInputFee amountIn cfg tokenIn \<longleftrightarrow>
    b + b * uint (qc_FeeRatePPM cfg) div quotePPM \<le> amountIn"
proof -
  let ?f = "uint (qc_FeeRatePPM cfg)"
  have f: "0 \<le> ?f" by simp
  then have pos: "0 < quotePPM + ?f" by (simp add: quotePPM_def add_pos_nonneg)
  have "legBudgetWithInputFee amountIn cfg tokenIn = ((amountIn + 1) * quotePPM - 1) div (quotePPM + ?f)"
    using assms f by (simp add: legBudgetWithInputFee_def Quo_nonneg quotePPM_def)
  then have "b \<le> legBudgetWithInputFee amountIn cfg tokenIn \<longleftrightarrow> b * (quotePPM + ?f) \<le> (amountIn + 1) * quotePPM - 1"
    by (simp only: int_le_div_iff [OF pos])
  also have "\<dots> \<longleftrightarrow> (b * ?f + b * quotePPM) div quotePPM < amountIn + 1"
    by (simp add: quotePPM_def algebra_simps) linarith
  also have "(b * ?f + b * quotePPM) div quotePPM = b + b * ?f div quotePPM"
    by (simp add: quotePPM_def)
  finally show ?thesis by linarith
qed

text \<open>A fee below one never takes the whole output, and a larger gross nets at least as much.\<close>

definition net_of :: "quote_config \<Rightarrow> address \<Rightarrow> int \<Rightarrow> int" where
  "net_of cfg tokenOut gross = (if qc_FeeRatePPM cfg > 0 \<and> qc_FeeToken cfg = tokenOut
     then gross - gross * uint (qc_FeeRatePPM cfg) div quotePPM else gross)"

lemma applyOutputFee_net:
  "0 \<le> gross \<Longrightarrow> applyOutputFee gross cfg tokenOut =
     reject (net_of cfg tokenOut gross = 0) ErrZeroOutput (Inr (net_of cfg tokenOut gross))"
  by (simp add: applyOutputFee_def net_of_def quoteDeduction_def Quo_nonneg quotePPM_def Let_def)

lemma fee_monotone:
  fixes g h f P :: int
  assumes "0 < P" "0 \<le> f" "f \<le> P" "g \<le> h"
  shows "g - g * f div P \<le> h - h * f div P"
proof -
  have "h * f = g * f + (h - g) * f" by (simp add: algebra_simps)
  also have "\<dots> \<le> g * f + (h - g) * P" using assms by (simp add: mult_left_mono)
  finally have "h * f div P \<le> (g * f + (h - g) * P) div P" using assms(1) by (intro zdiv_mono1)
  also have "\<dots> = g * f div P + (h - g)" using assms(1) by simp
  finally show ?thesis by linarith
qed

lemma fee_ok: "\<not> quote_fees_bad cfg \<Longrightarrow> 0 \<le> uint (qc_FeeRatePPM cfg) \<and> uint (qc_FeeRatePPM cfg) < quotePPM"
  by (auto simp: quote_fees_bad_def)

lemma net_of_mono:
  assumes "\<not> quote_fees_bad cfg" "g \<le> h"
  shows "net_of cfg tokenOut g \<le> net_of cfg tokenOut h"
  using fee_ok [OF assms(1)] assms(2) fee_monotone [of quotePPM "uint (qc_FeeRatePPM cfg)" g h]
  by (auto simp: net_of_def quotePPM_def)

lemma net_of_pos:
  assumes "\<not> quote_fees_bad cfg"
  shows "net_of cfg tokenOut 0 = 0" "0 < g \<Longrightarrow> 0 < net_of cfg tokenOut g" "0 \<le> g \<Longrightarrow> net_of cfg tokenOut g \<le> g"
proof -
  note f = fee_ok [OF assms]
  show "net_of cfg tokenOut 0 = 0" by (simp add: net_of_def quotePPM_def)
  show "0 < net_of cfg tokenOut g" if "0 < g"
  proof -
    have "g * uint (qc_FeeRatePPM cfg) < g * quotePPM" using f that by simp
    then have "g * uint (qc_FeeRatePPM cfg) div quotePPM < g"
      using int_le_div_iff [of quotePPM g "g * uint (qc_FeeRatePPM cfg)"] by (simp add: quotePPM_def not_le [symmetric])
    then show ?thesis using that by (simp add: net_of_def)
  qed
  show "0 \<le> g \<Longrightarrow> net_of cfg tokenOut g \<le> g"
    using f by (simp add: net_of_def quotePPM_def pos_imp_zdiv_nonneg_iff)
qed

subsection \<open>Matching against a book of integers\<close>

text \<open>The contract of matching: a book is a list of prices and depths in native units, and
  \<open>match_book\<close> says what is received and what is left of the budget. Prices are fixed-point numbers with 18
  decimals; what is paid is rounded up, what is received and what the budget affords are rounded down.\<close>

fun match_book :: "bool \<Rightarrow> (int \<times> int) list \<Rightarrow> int \<Rightarrow> int \<times> int" where
  "match_book buy [] budget = (0, budget)"
| "match_book buy ((price, depth) # rest) budget =
     (let take = (if buy then min depth (budget * 10 ^ 18 div price) else min depth budget);
          paid = (if buy then (take * price + (10 ^ 18 - 1)) div 10 ^ 18 else take);
          got = (if buy then take else take * price div 10 ^ 18)
      in if take < depth then (got, budget - paid)
         else let (more, left) = match_book buy rest (budget - paid) in (got + more, left))"

definition valid_book_units :: "(int \<times> int) list \<Rightarrow> bool" where
  "valid_book_units book \<longleftrightarrow> list_all (\<lambda>(p, d). 0 < p \<and> p < 2 ^ 256 \<and> 0 < d \<and> d < 2 ^ 256) book"

definition reads_as :: "pair_params \<Rightarrow> price_level option list \<Rightarrow> (int \<times> int) list \<Rightarrow> bool" where
  "reads_as pair levels book \<longleftrightarrow> list_all2 (\<lambda>l (p, d). quoteDecimal (GetPrice l) (priceScale pair) = Inr p \<and>
     quoteDecimal (GetAmount l) (uint (pp_BaseDecimals pair)) = Inr d) levels book"

lemma reads_as_valid: "reads_as pair levels book \<Longrightarrow> valid_book_units book"
  unfolding reads_as_def valid_book_units_def
  by (induction rule: list_all2_induct) (auto simp: quoteDecimal_iff)

lemma quoteValue_nonneg: "0 \<le> b \<Longrightarrow> 0 \<le> p \<Longrightarrow> quoteValue b p = b * p div priceScale18"
  by (simp add: quoteValue_def Quo_nonneg priceScale18_def)

lemma quoteValue_bounds: "0 \<le> b \<Longrightarrow> 0 \<le> p \<Longrightarrow> 0 \<le> quoteValue b p"
  by (simp add: quoteValue_nonneg priceScale18_def pos_imp_zdiv_nonneg_iff)

lemma quoteValue_mono: "0 \<le> b \<Longrightarrow> b \<le> c \<Longrightarrow> 0 \<le> p \<Longrightarrow> quoteValue b p \<le> quoteValue c p"
  by (simp add: quoteValue_nonneg priceScale18_def zdiv_mono1 mult_right_mono)

lemma baseAffordable_bounds:
  "0 \<le> b \<Longrightarrow> 0 < p \<Longrightarrow> 0 \<le> baseAffordable b p" "0 \<le> b \<Longrightarrow> b \<le> c \<Longrightarrow> 0 < p \<Longrightarrow> baseAffordable b p \<le> baseAffordable c p"
proof -
  show "0 \<le> b \<Longrightarrow> 0 < p \<Longrightarrow> 0 \<le> baseAffordable b p" by (simp add: baseAffordable_ge priceScale18_def)
  show "baseAffordable b p \<le> baseAffordable c p" if "0 \<le> b" "b \<le> c" "0 < p"
  proof -
    have "baseAffordable b p * p \<le> b * priceScale18"
      using baseAffordable_ge [of b p "baseAffordable b p"] that by simp
    also have "\<dots> \<le> c * priceScale18" using that by (simp add: priceScale18_def)
    finally show ?thesis using baseAffordable_ge [of c p] that by simp
  qed
qed

lemma quoteCost_nonneg: "0 \<le> b \<Longrightarrow> 0 \<le> p \<Longrightarrow> 0 \<le> quoteCost b p"
  by (simp add: quoteCost_def Quo_nonneg priceScale18_def scaleMinusOne_def pos_imp_zdiv_nonneg_iff)

text \<open>One level: what is taken is at most the depth and affordable.\<close>

definition level_take :: "bool \<Rightarrow> int \<Rightarrow> int \<Rightarrow> int \<Rightarrow> int" where
  "level_take buy price depth budget = (if buy then min depth (budget * 10 ^ 18 div price) else min depth budget)"

definition level_paid :: "bool \<Rightarrow> int \<Rightarrow> int \<Rightarrow> int" where
  "level_paid buy price t = (if buy then (t * price + (10 ^ 18 - 1)) div 10 ^ 18 else t)"

definition level_got :: "bool \<Rightarrow> int \<Rightarrow> int \<Rightarrow> int" where
  "level_got buy price t = (if buy then t else t * price div 10 ^ 18)"

text \<open>The code's truncating divisions compute these roundings.\<close>

lemma level_units:
  "0 \<le> budget \<Longrightarrow> 0 < price \<Longrightarrow>
    level_take buy price depth budget = (if buy then min depth (baseAffordable budget price) else min depth budget)"
  "0 \<le> t \<Longrightarrow> 0 \<le> price \<Longrightarrow> level_paid buy price t = (if buy then quoteCost t price else t)"
  "0 \<le> t \<Longrightarrow> 0 \<le> price \<Longrightarrow> level_got buy price t = (if buy then t else quoteValue t price)"
  by (simp_all add: level_take_def level_paid_def level_got_def baseAffordable_def quoteCost_def quoteValue_def scaleMinusOne_def
      priceScale18_def Quo_nonneg)

lemma match_book_Cons:
  "match_book buy ((price, depth) # rest) budget =
     (let t = level_take buy price depth budget; budget' = budget - level_paid buy price t in
      if t < depth then (level_got buy price t, budget')
      else (level_got buy price t + fst (match_book buy rest budget'), snd (match_book buy rest budget')))"
  by (simp add: level_take_def level_paid_def level_got_def Let_def split_beta)

declare match_book.simps(2) [simp del]

lemma level_bounds:
  fixes buy :: bool
  assumes "0 < price" "0 < depth" "0 \<le> budget"
  defines "t \<equiv> level_take buy price depth budget"
  shows "0 \<le> t" "t \<le> depth" "0 \<le> level_paid buy price t" "level_paid buy price t \<le> budget" "0 \<le> level_got buy price t"
proof -
  show t: "0 \<le> t" "t \<le> depth"
    using assms(1-3) baseAffordable_bounds(1) [of budget price] by (auto simp: t_def level_units(1))
  show "0 \<le> level_paid buy price t" "0 \<le> level_got buy price t"
    using t(1) assms(1) quoteCost_nonneg quoteValue_bounds by (auto simp: level_units(2,3))
  show "level_paid buy price t \<le> budget"
    using t(1) assms(1-3) cost_affordable [of t budget price] by (auto simp: level_units(2) t_def level_units(1))
qed

lemma match_book_bounds:
  assumes "valid_book_units book" "0 \<le> budget"
  shows "0 \<le> fst (match_book buy book budget) \<and> 0 \<le> snd (match_book buy book budget) \<and>
    snd (match_book buy book budget) \<le> budget"
  using assms
proof (induction book arbitrary: budget)
  case (Cons pd rest)
  obtain p d where pd: "pd = (p, d)" by (cases pd)
  have v: "0 < p" "0 < d" "valid_book_units rest" using Cons.prems pd by (auto simp: valid_book_units_def)
  note b = level_bounds [OF v(1,2) Cons.prems(2), of buy]
  have "0 \<le> budget - level_paid buy p (level_take buy p d budget)" using b(4) by simp
  from Cons.IH [OF v(3) this] show ?case
    using b unfolding pd match_book_Cons Let_def by auto
qed simp

text \<open>A larger budget never receives less.\<close>

lemma level_mono:
  assumes "0 < price" "0 < depth" "0 \<le> b" "b \<le> c"
  shows "level_take buy price depth b \<le> level_take buy price depth c"
    and "level_got buy price (level_take buy price depth b) \<le> level_got buy price (level_take buy price depth c)"
proof -
  show t: "level_take buy price depth b \<le> level_take buy price depth c"
    using assms baseAffordable_bounds(2) [of b c price] by (auto simp: level_units(1))
  show "level_got buy price (level_take buy price depth b) \<le> level_got buy price (level_take buy price depth c)"
    using t assms(1) by (cases buy) (simp_all add: level_got_def zdiv_mono1 mult_right_mono)
qed

lemma match_book_mono:
  assumes "valid_book_units book" "0 \<le> b" "b \<le> c"
  shows "fst (match_book buy book b) \<le> fst (match_book buy book c)"
  using assms
proof (induction book arbitrary: b c)
  case (Cons pd rest)
  obtain p d where pd: "pd = (p, d)" by (cases pd)
  have v: "0 < p" "0 < d" "valid_book_units rest" using Cons.prems pd by (auto simp: valid_book_units_def)
  note lb = level_bounds [OF v(1,2) Cons.prems(2), of buy]
  have c: "0 \<le> c" using Cons.prems by simp
  note lc = level_bounds [OF v(1,2) c, of buy]
  note m = level_mono [OF v(1,2) Cons.prems(2,3), of buy]
  let ?tb = "level_take buy p d b" and ?tc = "level_take buy p d c"
  have "?tc = ?tb" if "\<not> ?tb < d" using that m(1) lc(2) by simp
  moreover have "fst (match_book buy rest (b - level_paid buy p ?tb)) \<le> fst (match_book buy rest (c - level_paid buy p ?tb))"
    using Cons.IH [OF v(3)] lb(4) Cons.prems(3) by simp
  moreover have "0 \<le> fst (match_book buy rest (c - level_paid buy p ?tc))"
    using match_book_bounds [OF v(3)] lc(4) by simp
  ultimately show ?case
    unfolding pd match_book_Cons Let_def using m by auto
qed simp

lemma matchQuote_loop_zero: "matchQuote_loop pair buy i levels 0 out = Inr out"
  by (cases levels) simp_all

text \<open>One round of the loop, in terms of what the level gives and takes.\<close>

lemma matchQuote_loop_step:
  fixes buy :: bool
  assumes q: "quoteDecimal (GetPrice l) (priceScale pair) = Inr p"
      "quoteDecimal (GetAmount l) (uint (pp_BaseDecimals pair)) = Inr d"
    and nn: "0 < budget" "0 \<le> out"
  defines "t \<equiv> level_take buy p d budget"
  shows "matchQuote_loop pair buy i (l # ls) budget out =
    (if t < d then (if buy \<or> out + level_got buy p t < 2 ^ 256 then Inr (out + level_got buy p t) else Inl OutputExceedsUint256)
     else if out + level_got buy p t < 2 ^ 256
       then matchQuote_loop pair buy (Suc i) ls (budget - level_paid buy p t) (out + level_got buy p t)
     else Inl OutputExceedsUint256)"
proof -
  have v: "0 < p" "0 < d" using q by (simp_all add: quoteDecimal_iff)
  have got: "0 \<le> level_got buy p t" unfolding t_def by (rule level_bounds(5) [OF v order_less_imp_le [OF nn(1)]])
  have bl: "BitLen (out + level_got buy p t) > 256 \<longleftrightarrow> \<not> out + level_got buy p t < 2 ^ 256"
    using got nn by (simp add: BitLen_gt not_less)
  have t: "0 \<le> t" unfolding t_def by (rule level_bounds(1) [OF v order_less_imp_le [OF nn(1)]])
  have tu: "t = (if buy then min d (baseAffordable budget p) else min d budget)" "level_paid buy p t = (if buy then quoteCost t p else t)"
      "level_got buy p t = (if buy then t else quoteValue t p)"
    using t v nn by (simp_all add: t_def level_units)
  show ?thesis
  proof (cases buy)
    case True
    have c: "quoteCost d p > budget \<longleftrightarrow> baseAffordable budget p < d"
      using cost_affordable [of d budget p] v nn by auto
    have a: "0 \<le> baseAffordable budget p" using baseAffordable_bounds(1) nn v by simp
    show ?thesis
      using True q bl a v c nn unfolding tu(2,3) by (auto simp: tu(1) Let_def reject_def min_def)
  next
    case False
    then show ?thesis
      using q bl v nn unfolding tu(2,3) by (auto simp: tu(1) Let_def reject_def min_def matchQuote_loop_zero)
  qed
qed

lemma match_book_zero: "valid_book_units book \<Longrightarrow> fst (match_book buy book 0) = 0"
proof (cases book)
  case (Cons pd rest)
  assume "valid_book_units book"
  moreover obtain p d where "pd = (p, d)" by (cases pd)
  ultimately show ?thesis
    using Cons by (simp add: match_book_Cons valid_book_units_def level_take_def level_got_def Let_def)
qed simp

lemma guarded_result:
  assumes "(M = Inr r \<longrightarrow> r = o' + X) \<and> (o' + X < U \<longrightarrow> M = Inr (o' + X))" "0 \<le> (X :: int)"
  shows "((if o' < U then M else Inl e) = Inr r \<longrightarrow> r = o' + X) \<and>
    (o' + X < U \<longrightarrow> (if o' < U then M else Inl e) = Inr (o' + X))"
proof (cases "o' < U")
  case True
  then show ?thesis using assms(1) by (simp only: if_True)
next
  case False
  then have "\<not> o' + X < U" using assms(2) by linarith
  with False show ?thesis by simp
qed

lemma matchQuote_loop_match:
  assumes "reads_as pair levels book" "0 \<le> budget" "0 \<le> out"
  shows "matchQuote_loop pair buy i levels budget out = Inr r \<Longrightarrow> r = out + fst (match_book buy book budget)"
    and "out + fst (match_book buy book budget) < 2 ^ 256 \<Longrightarrow>
      matchQuote_loop pair buy i levels budget out = Inr (out + fst (match_book buy book budget))"
proof -
  have "(matchQuote_loop pair buy i levels budget out = Inr r \<longrightarrow> r = out + fst (match_book buy book budget)) \<and>
    (out + fst (match_book buy book budget) < 2 ^ 256 \<longrightarrow>
      matchQuote_loop pair buy i levels budget out = Inr (out + fst (match_book buy book budget)))"
    using assms unfolding reads_as_def
  proof (induction arbitrary: i budget out rule: list_all2_induct)
    case (Cons l ls pd rest)
    obtain p d where pd: "pd = (p, d)" by (cases pd)
    have q: "quoteDecimal (GetPrice l) (priceScale pair) = Inr p"
        "quoteDecimal (GetAmount l) (uint (pp_BaseDecimals pair)) = Inr d"
      using Cons.hyps(1) pd by auto
    then have v: "0 < p" "0 < d" by (simp_all add: quoteDecimal_iff)
    have vr: "valid_book_units rest"
      using reads_as_valid Cons.hyps(2) unfolding reads_as_def by blast
    note b = level_bounds [OF v Cons.prems(1), of buy]
    let ?t = "level_take buy p d budget"
    let ?b = "budget - level_paid buy p ?t" and ?o = "out + level_got buy p ?t"
    have IH: "(matchQuote_loop pair buy (Suc i) ls ?b ?o = Inr r \<longrightarrow> r = ?o + fst (match_book buy rest ?b)) \<and>
        (?o + fst (match_book buy rest ?b) < 2 ^ 256 \<longrightarrow>
          matchQuote_loop pair buy (Suc i) ls ?b ?o = Inr (?o + fst (match_book buy rest ?b)))"
      by (rule Cons.IH) (use b(4,5) Cons.prems in simp_all)
    have more: "0 \<le> fst (match_book buy rest ?b)"
      using match_book_bounds [OF vr, of ?b buy] b(4) by simp
    have step: "0 < budget \<Longrightarrow> matchQuote_loop pair buy i (l # ls) budget out =
       (if ?t < d then (if buy \<or> ?o < 2 ^ 256 then Inr ?o else Inl OutputExceedsUint256)
        else if ?o < 2 ^ 256 then matchQuote_loop pair buy (Suc i) ls ?b ?o else Inl OutputExceedsUint256)"
      using matchQuote_loop_step [OF q _ Cons.prems(2)] .
    have zero: "fst (match_book buy (pd # rest) 0) = 0"
      using vr q pd by (intro match_book_zero) (simp add: valid_book_units_def quoteDecimal_iff)
    consider "budget = 0" | "0 < budget" "?t < d" | "0 < budget" "\<not> ?t < d" using Cons.prems(1) by linarith
    then show ?case
    proof cases
      case 1
      then show ?thesis using zero by (simp only: matchQuote_loop_zero) simp
    next
      case 2
      then show ?thesis unfolding step [OF 2(1)] pd match_book_Cons Let_def by simp
    next
      case 3
      then have m: "fst (match_book buy (pd # rest) budget) = level_got buy p ?t + fst (match_book buy rest ?b)"
        unfolding pd match_book_Cons Let_def by simp
      have "(if ?t < d then (if buy \<or> ?o < 2 ^ 256 then Inr ?o else Inl OutputExceedsUint256)
          else if ?o < 2 ^ 256 then matchQuote_loop pair buy (Suc i) ls ?b ?o else Inl OutputExceedsUint256) =
          (if ?o < 2 ^ 256 then matchQuote_loop pair buy (Suc i) ls ?b ?o else Inl OutputExceedsUint256)"
        using 3(2) by (simp only: if_False simp_thms)
      then show ?thesis
        unfolding step [OF 3(1)] m add.assoc [symmetric] using guarded_result [OF IH more] by (simp only:)
    qed
  qed auto
  then show "matchQuote_loop pair buy i levels budget out = Inr r \<Longrightarrow> r = out + fst (match_book buy book budget)"
    and "out + fst (match_book buy book budget) < 2 ^ 256 \<Longrightarrow>
      matchQuote_loop pair buy i levels budget out = Inr (out + fst (match_book buy book budget))"
    by blast+
qed

subsection \<open>Books of signed frames\<close>

text \<open>The integers a signed book stands for.\<close>

definition bid_units :: "frame_spec \<Rightarrow> (int \<times> int) list" where
  "bid_units spec = map (\<lambda>l. (int (bid_tick (fs_BaseTick spec) l) * the (pp_PriceTickSize (fs_Pair spec)),
     uint (QtyLots l) * the (pp_LotSize (fs_Pair spec)))) (fs_Bids spec)"

definition ask_units :: "frame_spec \<Rightarrow> (int \<times> int) list" where
  "ask_units spec = map (\<lambda>l. (int (ask_tick (fs_BaseTick spec) l) * the (pp_PriceTickSize (fs_Pair spec)),
     uint (QtyLots l) * the (pp_LotSize (fs_Pair spec)))) (fs_Asks spec)"

lemma pair_scale_bounds:
  assumes "ValidatePair pair = Inr ()"
  shows "the (pp_PriceTickSize pair) < 2 ^ 128" "the (pp_LotSize pair) < 2 ^ 128"
  using assms by (auto simp: ValidatePair_def bad_scale_def not_less BitLen_le split: option.splits)

lemma product_bounds:
  assumes "0 < n" "n < 2 ^ 24" "0 < (s :: int)" "s < 2 ^ 128"
  shows "0 < n * s \<and> n * s < 2 ^ 152"
proof -
  have "n * s \<le> n * 2 ^ 128" using assms by (intro mult_left_mono) simp_all
  also have "\<dots> < 2 ^ 24 * 2 ^ 128" using assms(2) by (intro mult_strict_right_mono) simp_all
  finally show ?thesis using assms by simp
qed

lemma renders_reads:
  assumes "ValidatePair pair = Inr ()" "renders pair t l x" "0 < t" "t < 2 ^ 24" "0 < QtyLots l" "QtyLots l \<le> MaxTick"
  shows "quoteDecimal (GetPrice x) (priceScale pair) = Inr (int t * the (pp_PriceTickSize pair))"
    and "quoteDecimal (GetAmount x) (uint (pp_BaseDecimals pair)) = Inr (uint (QtyLots l) * the (pp_LotSize pair))"
    and "int t * the (pp_PriceTickSize pair) < 2 ^ 152" "uint (QtyLots l) * the (pp_LotSize pair) < 2 ^ 152"
proof -
  note sc = ValidatePair_scales [OF assms(1)] and sb = pair_scale_bounds [OF assms(1)]
  have q: "0 < uint (QtyLots l)" "uint (QtyLots l) < 2 ^ 24"
    using assms(5,6) by (simp_all add: word_less_def word_le_def MaxTick_def)
  have p1: "0 < int t * the (pp_PriceTickSize pair) \<and> int t * the (pp_PriceTickSize pair) < 2 ^ 152"
    using assms(3,4) sc(1) sb(1) by (intro product_bounds) simp_all
  have p2: "0 < uint (QtyLots l) * the (pp_LotSize pair) \<and> uint (QtyLots l) * the (pp_LotSize pair) < 2 ^ 152"
    using q sc(2) sb(2) by (intro product_bounds)
  then show "int t * the (pp_PriceTickSize pair) < 2 ^ 152" "uint (QtyLots l) * the (pp_LotSize pair) < 2 ^ 152"
    using p1 by blast+
  have plain: "plain_decimal s \<Longrightarrow> 0 < length s" for s by (auto simp: plain_decimal_def Cut_def)
  have pw: "(10 :: rat) powi uint (pp_BaseDecimals pair) = 10 ^ unat (pp_BaseDecimals pair)"
    by (metis power_int_of_nat uint_nat)
  show "quoteDecimal (GetPrice x) (priceScale pair) = Inr (int t * the (pp_PriceTickSize pair))"
    using assms(2) p1 by (simp add: quoteDecimal_iff renders_def price_value_def plain [simplified])
  show "quoteDecimal (GetAmount x) (uint (pp_BaseDecimals pair)) = Inr (uint (QtyLots l) * the (pp_LotSize pair))"
    using assms(2) p2 by (simp add: quoteDecimal_iff renders_def amount_value_def plain [simplified] pw)
qed

lemma spec_level_ranges:
  assumes "valid_spec spec"
  shows "l \<in> set (fs_Bids spec) \<Longrightarrow> 0 < bid_tick (fs_BaseTick spec) l \<and> bid_tick (fs_BaseTick spec) l < 2 ^ 24"
    and "l \<in> set (fs_Asks spec) \<Longrightarrow> 0 < ask_tick (fs_BaseTick spec) l \<and> ask_tick (fs_BaseTick spec) l < 2 ^ 24"
    and "l \<in> set (fs_Bids spec) \<union> set (fs_Asks spec) \<Longrightarrow> 0 < QtyLots l \<and> QtyLots l \<le> MaxTick"
proof -
  have b: "unat (fs_BaseTick spec) < 2 ^ 24" "0 < unat (fs_BaseTick spec)"
    using assms by (simp_all add: valid_spec_def le_MaxTick_unat unat_gt_0)
  have m: "unat MaxTick < 2 ^ 24" by (simp add: MaxTick_def)
  show "l \<in> set (fs_Bids spec) \<Longrightarrow> 0 < bid_tick (fs_BaseTick spec) l \<and> bid_tick (fs_BaseTick spec) l < 2 ^ 24"
    using assms b by (auto simp: valid_spec_def valid_book_def bid_tick_def word_less_nat_alt)
  show "l \<in> set (fs_Asks spec) \<Longrightarrow> 0 < ask_tick (fs_BaseTick spec) l \<and> ask_tick (fs_BaseTick spec) l < 2 ^ 24"
    using assms b m by (fastforce simp: valid_spec_def valid_book_def ask_tick_def)
  show "l \<in> set (fs_Bids spec) \<union> set (fs_Asks spec) \<Longrightarrow> 0 < QtyLots l \<and> QtyLots l \<le> MaxTick"
    using assms by (auto simp: valid_spec_def valid_book_def wf_levels_def wf_level_def list_all_iff)
qed

definition small_units :: "(int \<times> int) list \<Rightarrow> bool" where
  "small_units book \<longleftrightarrow> list_all (\<lambda>(p, d). 0 < p \<and> p < 2 ^ 152 \<and> 0 < d \<and> d < 2 ^ 152) book \<and> length book \<le> 5"

lemma side_reads:
  assumes v: "ValidatePair pair = Inr ()"
    and r: "list_all2 (\<lambda>l. renders pair (t l) l) ls xs"
    and b: "\<forall>l\<in>set ls. 0 < t l \<and> t l < 2 ^ 24 \<and> 0 < QtyLots l \<and> QtyLots l \<le> MaxTick"
  defines "units \<equiv> \<lambda>l. (int (t l) * the (pp_PriceTickSize pair), uint (QtyLots l) * the (pp_LotSize pair))"
  shows "reads_as pair xs (map units ls)"
    and "list_all (\<lambda>(p, d). 0 < p \<and> p < 2 ^ 152 \<and> 0 < d \<and> d < 2 ^ 152) (map units ls)"
proof -
  have one: "quoteDecimal (GetPrice x) (priceScale pair) = Inr (fst (units l)) \<and>
      quoteDecimal (GetAmount x) (uint (pp_BaseDecimals pair)) = Inr (snd (units l)) \<and>
      0 < fst (units l) \<and> fst (units l) < 2 ^ 152 \<and> 0 < snd (units l) \<and> snd (units l) < 2 ^ 152"
    if "l \<in> set ls" "renders pair (t l) l x" for l x
  proof -
    have a: "0 < t l" "t l < 2 ^ 24" "0 < QtyLots l" "QtyLots l \<le> MaxTick" using b that(1) by auto
    note rr = renders_reads [OF v that(2) a]
    show ?thesis
      using rr rr(1,2) [unfolded quoteDecimal_iff] by (simp add: units_def)
  qed
  show "reads_as pair xs (map units ls)"
    unfolding reads_as_def list_all2_conv_all_nth
  proof (intro conjI allI impI)
    show "length xs = length (map units ls)" using r by (simp add: list_all2_lengthD)
  next
    fix i assume i: "i < length xs"
    then have "ls ! i \<in> set ls" "renders pair (t (ls ! i)) (ls ! i) (xs ! i)" "map units ls ! i = units (ls ! i)"
      using r by (simp_all add: list_all2_conv_all_nth)
    with one [OF this(1,2)]
    show "case map units ls ! i of (p, d) \<Rightarrow> quoteDecimal (GetPrice (xs ! i)) (priceScale pair) = Inr p \<and>
        quoteDecimal (GetAmount (xs ! i)) (uint (pp_BaseDecimals pair)) = Inr d"
      by (simp only: split_beta)
  qed
  show "list_all (\<lambda>(p, d). 0 < p \<and> p < 2 ^ 152 \<and> 0 < d \<and> d < 2 ^ 152) (map units ls)"
  proof -
    have "\<exists>x. renders pair (t l) l x" if "l \<in> set ls" for l
    proof -
      obtain i where "i < length ls" "l = ls ! i" using \<open>l \<in> set ls\<close> by (auto simp: in_set_conv_nth)
      then show ?thesis using r by (auto simp: list_all2_conv_all_nth)
    qed
    then have "\<forall>l\<in>set ls. 0 < fst (units l) \<and> fst (units l) < 2 ^ 152 \<and> 0 < snd (units l) \<and> snd (units l) < 2 ^ 152"
      using one by blast
    then show ?thesis by (simp add: list_all_iff split_beta)
  qed
qed

lemma describes_reads:
  assumes "ValidatePair (fs_Pair spec) = Inr ()" "valid_spec spec" "describes L spec m"
  shows "reads_as (fs_Pair spec) (mf_Bids m) (bid_units spec)" "reads_as (fs_Pair spec) (mf_Asks m) (ask_units spec)"
    "small_units (bid_units spec)" "small_units (ask_units spec)"
proof -
  note rg = spec_level_ranges [OF assms(2)]
  have b: "list_all2 (\<lambda>l. renders (fs_Pair spec) (bid_tick (fs_BaseTick spec) l) l) (fs_Bids spec) (mf_Bids m)"
    and a: "list_all2 (\<lambda>l. renders (fs_Pair spec) (ask_tick (fs_BaseTick spec) l) l) (fs_Asks spec) (mf_Asks m)"
    using assms(3) by (auto simp: describes_def)
  have len: "length (fs_Bids spec) \<le> 5" "length (fs_Asks spec) \<le> 5"
    using assms(2) by (auto simp: valid_spec_def valid_book_def wf_levels_def MaxLevels_def)
  note sb = side_reads [OF assms(1) b, folded bid_units_def] and sa = side_reads [OF assms(1) a, folded ask_units_def]
  show "reads_as (fs_Pair spec) (mf_Bids m) (bid_units spec)" "reads_as (fs_Pair spec) (mf_Asks m) (ask_units spec)"
    using sb(1) sa(1) rg by blast+
  show "small_units (bid_units spec)"
    using sb(2) rg len unfolding small_units_def by (simp add: bid_units_def)
  show "small_units (ask_units spec)"
    using sa(2) rg len unfolding small_units_def by (simp add: ask_units_def)
qed

text \<open>A small book never overflows a uint256: each level gives less than \<open>2 ^ 245\<close>.\<close>

lemma small_got:
  assumes "0 < p" "p < 2 ^ 152" "0 \<le> t" "t < 2 ^ 152"
  shows "level_got buy p t < 2 ^ 245"
proof (cases buy)
  case False
  have "t * p \<le> 2 ^ 152 * 2 ^ 152" using assms by (intro mult_mono) simp_all
  then have "t * p div priceScale18 \<le> 2 ^ 304 div priceScale18"
    by (intro zdiv_mono1) (simp_all add: priceScale18_def)
  also have "\<dots> < 2 ^ 245" by (simp add: priceScale18_def)
  finally show ?thesis using False by (simp add: level_got_def priceScale18_def)
qed (use assms in \<open>simp add: level_got_def\<close>)

lemma small_book_output:
  assumes "list_all (\<lambda>(p, d). 0 < p \<and> p < 2 ^ 152 \<and> 0 < d \<and> d < 2 ^ 152) book" "0 \<le> budget"
  shows "fst (match_book buy book budget) \<le> int (length book) * 2 ^ 245"
  using assms
proof (induction book arbitrary: budget)
  case (Cons pd rest)
  obtain p d where pd: "pd = (p, d)" by (cases pd)
  have v: "0 < p" "p < 2 ^ 152" "0 < d" "d < 2 ^ 152" using Cons.prems pd by auto
  note b = level_bounds [OF v(1,3) Cons.prems(2), of buy]
  let ?t = "level_take buy p d budget"
  have g: "level_got buy p ?t < 2 ^ 245" using b v by (intro small_got) simp_all
  have "fst (match_book buy rest (budget - level_paid buy p ?t)) \<le> int (length rest) * 2 ^ 245"
    by (rule Cons.IH) (use Cons.prems b in auto)
  moreover have "int (length (pd # rest)) * 2 ^ 245 = 2 ^ 245 + int (length rest) * 2 ^ 245"
    by (simp add: algebra_simps)
  moreover have "fst (match_book buy (pd # rest) budget) \<le>
      level_got buy p ?t + max 0 (fst (match_book buy rest (budget - level_paid buy p ?t)))"
    unfolding pd match_book_Cons Let_def by simp
  ultimately show ?case using g
    by (smt (verit, best) mult_nonneg_nonneg of_nat_0_le_iff zero_le_numeral zero_le_power)
qed simp

lemma small_units_fit:
  assumes "small_units book" "0 \<le> budget"
  shows "fst (match_book buy book budget) < 2 ^ 256"
proof -
  have "fst (match_book buy book budget) \<le> int (length book) * 2 ^ 245"
    using assms by (intro small_book_output) (simp_all add: small_units_def)
  also have "\<dots> \<le> 5 * 2 ^ 245" using assms(1) by (simp add: small_units_def)
  also have "\<dots> < 2 ^ 256" by simp
  finally show ?thesis .
qed

subsection \<open>Quotes\<close>

definition input_fee :: "quote_config \<Rightarrow> address \<Rightarrow> int \<Rightarrow> int" where
  "input_fee cfg tokenIn spent =
     (if qc_FeeRatePPM cfg = 0 \<or> qc_FeeToken cfg \<noteq> tokenIn then 0
      else spent * uint (qc_FeeRatePPM cfg) div quotePPM)"

lemma legBudget_greatest:
  assumes "0 \<le> amountIn"
  shows "b \<le> legBudgetWithInputFee amountIn cfg tokenIn \<longleftrightarrow> b + input_fee cfg tokenIn b \<le> amountIn"
  using legBudget_le [OF assms, of cfg tokenIn b] by (auto simp: input_fee_def legBudgetWithInputFee_def)

lemma legBudget_bounds:
  assumes "0 \<le> amountIn"
  shows "0 \<le> legBudgetWithInputFee amountIn cfg tokenIn"
  using legBudget_greatest [OF assms, of 0] assms by (simp add: input_fee_def)

lemma legBudget_mono:
  assumes "0 \<le> a" "a \<le> b"
  shows "legBudgetWithInputFee a cfg tokenIn \<le> legBudgetWithInputFee b cfg tokenIn"
  using legBudget_greatest [of b "legBudgetWithInputFee a cfg tokenIn"] legBudget_greatest [of a "legBudgetWithInputFee a cfg tokenIn"]
    assms by force

lemma matchQuote_gross:
  assumes "reads_as (qc_Pair cfg) levels book" "0 \<le> amountIn" "matchQuote levels tokenIn tokenOut amountIn cfg = Inr n"
  shows "n = net_of cfg tokenOut
    (fst (match_book (tokenIn = pp_QuoteToken (qc_Pair cfg)) book (legBudgetWithInputFee amountIn cfg tokenIn))) \<and> n \<noteq> 0"
proof -
  note b = legBudget_bounds [OF assms(2), of cfg tokenIn]
  let ?buy = "tokenIn = pp_QuoteToken (qc_Pair cfg)" and ?B = "legBudgetWithInputFee amountIn cfg tokenIn"
  obtain out where o: "matchQuote_loop (qc_Pair cfg) ?buy 0 levels ?B 0 = Inr out" "applyOutputFee out cfg tokenOut = Inr n"
    using assms(3) unfolding matchQuote_def Let_def attempt_Inr by blast
  have "out = fst (match_book ?buy book ?B)"
    using matchQuote_loop_match(1) [OF assms(1) b _ o(1)] by simp
  moreover have "0 \<le> fst (match_book ?buy book ?B)"
    using match_book_bounds [OF reads_as_valid [OF assms(1)] b] by blast
  ultimately show ?thesis using o(2) by (simp add: applyOutputFee_net)
qed

text \<open>an input fee reduces the budget to the largest leg whose outlay, fee included, still fits
  the amount: the closed form of \<open>legBudgetWithInputFee\<close> fits, and every larger leg does not.\<close>

theorem leg_budget_largest:
  assumes "0 \<le> amountIn"
  shows "let budget = legBudgetWithInputFee amountIn cfg tokenIn in
    0 \<le> budget \<and> budget + input_fee cfg tokenIn budget \<le> amountIn \<and>
    (\<forall>b. b + input_fee cfg tokenIn b \<le> amountIn \<longrightarrow> b \<le> budget)"
  using legBudget_bounds [OF assms(1), of cfg tokenIn] legBudget_greatest [OF assms(1), of _ cfg tokenIn]
  by (auto simp: Let_def)

definition sample_cfg :: quote_config where
  "sample_cfg = \<lparr>qc_Pair = sample_pair, qc_FeeToken = 0xB2, qc_FeeRatePPM = 3000, qc_DecayStartOffsetSeconds = 5\<rparr>"

theorem leg_budget_largest_witness:
  "legBudgetWithInputFee 1003 sample_cfg 0xB2 = 1000 \<and> 1000 + input_fee sample_cfg 0xB2 1000 \<le> 1003 \<and>
   \<not> 1001 + input_fee sample_cfg 0xB2 1001 \<le> 1003"
proof -
  have v: "legBudgetWithInputFee 1003 sample_cfg 0xB2 = 1000"
    by (simp add: legBudgetWithInputFee_def sample_cfg_def quotePPM_def Quo_def)
  show ?thesis using leg_budget_largest [of 1003 sample_cfg "0xB2"] unfolding v Let_def by fastforce
qed

text \<open>on a buy the partial take \<open>baseAffordable\<close> is the largest amount whose rounded-up cost the
  budget covers, so a partial fill never overspends and never leaves an affordable unit.\<close>

theorem affordable_largest:
  assumes "0 \<le> budget" "0 < price"
  shows "quoteCost (baseAffordable budget price) price \<le> budget \<and>
    (\<forall>b\<ge>0. quoteCost b price \<le> budget \<longrightarrow> b \<le> baseAffordable budget price)"
  using cost_affordable [OF _ assms] baseAffordable_bounds(1) [OF assms] by simp

theorem affordable_largest_witness:
  "baseAffordable 10 3000000000000000000 = 3 \<and> quoteCost 3 3000000000000000000 \<le> 10 \<and>
   \<not> quoteCost 4 3000000000000000000 \<le> 10"
proof -
  have v: "baseAffordable 10 3000000000000000000 = 3" by (simp add: baseAffordable_def priceScale18_def Quo_def)
  have l: "quoteCost 3 3000000000000000000 \<le> 10" "\<forall>b\<ge>0. quoteCost b 3000000000000000000 \<le> 10 \<longrightarrow> b \<le> 3"
    using affordable_largest [of 10 3000000000000000000] by (simp_all add: v)
  from l(2) have "quoteCost 4 3000000000000000000 \<le> 10 \<longrightarrow> (4 :: int) \<le> 3"
    by (elim allE [of _ 4]) simp
  then show ?thesis using l(1) v by simp
qed

subsection \<open>Sample quotes\<close>

definition sample_levels :: "price_level option list" where
  "sample_levels = [Some \<lparr>pl_Price = ''12.5'', pl_Amount = ''3'', pl_unknown = []\<rparr>]"

lemma sample_decimals:
  "quoteDecimal ''12.5'' 6 = Inr 12500000" "quoteDecimal ''3'' 18 = Inr 3000000000000000000"
  by (simp_all add: quoteDecimal_iff plain_decimal_def decimal_rat_def Cut_def digits_eval)

lemma sample_scales: "priceScale sample_pair = 6" "uint (pp_BaseDecimals sample_pair) = 18"
  "pp_BaseToken sample_pair = 0xA1" "pp_QuoteToken sample_pair = 0xB2"
  by (simp_all add: sample_pair_def priceScale_def)

lemma sample_cfg_sel: "qc_Pair sample_cfg = sample_pair" "\<not> quote_fees_bad sample_cfg"
  "qc_FeeRatePPM sample_cfg = 3000" "qc_FeeToken sample_cfg = 0xB2"
  by (simp_all add: sample_cfg_def quote_fees_bad_def quotePPM_def)

lemma sample_reads: "reads_as (qc_Pair sample_cfg) sample_levels [(12500000, 3000000000000000000)]"
  by (simp add: reads_as_def sample_levels_def GetPrice_def GetAmount_def sample_decimals sample_scales sample_cfg_sel)

lemma sample_match:
  "matchQuote sample_levels 0xA1 0xB2 2000000000000000000 sample_cfg = Inr 24925000"
  "matchQuote sample_levels 0xA1 0xB2 1000000000000000000 sample_cfg = Inr 12462500"
  by (simp_all add: matchQuote_def sample_levels_def GetPrice_def GetAmount_def sample_decimals sample_scales
      sample_cfg_sel quoteValue_def Quo_def priceScale18_def reject_def BitLen_gt applyOutputFee_def Let_def
      legBudgetWithInputFee_def quoteDeduction_def quotePPM_def)

text \<open>C8: \<open>matchQuote\<close> refines matching over integers: when the levels read as a book, a quote is the
  net of what \<open>match_book\<close> receives, is positive, and what it spends together with the input fee is
  at most \<open>amountIn\<close>.\<close>

theorem match_quote_refines:
  assumes "reads_as (qc_Pair cfg) levels book" "0 < amountIn" "\<not> quote_fees_bad cfg"
    and "matchQuote levels tokenIn tokenOut amountIn cfg = Inr n"
  shows "let budget = legBudgetWithInputFee amountIn cfg tokenIn;
             (gross, left) = match_book (tokenIn = pp_QuoteToken (qc_Pair cfg)) book budget;
             spent = budget - left
         in n = net_of cfg tokenOut gross \<and> 0 < n \<and> n \<le> gross \<and> 0 \<le> spent \<and>
            spent + input_fee cfg tokenIn spent \<le> amountIn"
proof -
  have a: "0 \<le> amountIn" using assms(2) by simp
  let ?B = "legBudgetWithInputFee amountIn cfg tokenIn"
  obtain g l where gl: "match_book (tokenIn = pp_QuoteToken (qc_Pair cfg)) book ?B = (g, l)" by fastforce
  have bnd: "0 \<le> g" "0 \<le> l" "l \<le> ?B"
    using match_book_bounds [OF reads_as_valid [OF assms(1)] legBudget_bounds [OF a]] gl by (metis fst_conv snd_conv)+
  have n: "n = net_of cfg tokenOut g" "n \<noteq> 0" using matchQuote_gross [OF assms(1) a assms(4)] gl by auto
  then have "0 < g" using bnd(1) net_of_pos(1) [OF assms(3), of tokenOut] by (cases "g = 0") auto
  then have "0 < n" "n \<le> g" using n net_of_pos [OF assms(3)] by auto
  moreover have "?B - l + input_fee cfg tokenIn (?B - l) \<le> amountIn"
    using legBudget_greatest [OF a, of "?B - l" cfg tokenIn] bnd(2) by simp
  ultimately show ?thesis using gl n(1) bnd by (simp add: Let_def)
qed

theorem match_quote_refines_witness:
  "matchQuote sample_levels 0xA1 0xB2 2000000000000000000 sample_cfg = Inr 24925000 \<and>
   (let budget = legBudgetWithInputFee 2000000000000000000 sample_cfg 0xA1;
        (gross, left) = match_book (0xA1 = pp_QuoteToken (qc_Pair sample_cfg)) [(12500000, 3000000000000000000)] budget
    in 24925000 = net_of sample_cfg 0xB2 gross \<and>
       budget - left + input_fee sample_cfg 0xA1 (budget - left) \<le> 2000000000000000000)"
  using sample_match(1) match_quote_refines [OF sample_reads _ sample_cfg_sel(2) sample_match(1)]
  by (auto simp: Let_def split: prod.splits)

text \<open>C32: for levels that read as a book and usable fees, when the quotes for two positive input
  amounts both succeed, the larger amount does not get the smaller output.\<close>

theorem match_quote_monotone:
  assumes "reads_as (qc_Pair cfg) levels book" "0 < a" "a \<le> b" "\<not> quote_fees_bad cfg"
    and "matchQuote levels tokenIn tokenOut a cfg = Inr m" "matchQuote levels tokenIn tokenOut b cfg = Inr n"
  shows "m \<le> n"
proof -
  have nn: "0 \<le> a" "0 \<le> b" using assms by simp_all
  have "fst (match_book (tokenIn = pp_QuoteToken (qc_Pair cfg)) book (legBudgetWithInputFee a cfg tokenIn)) \<le>
    fst (match_book (tokenIn = pp_QuoteToken (qc_Pair cfg)) book (legBudgetWithInputFee b cfg tokenIn))"
    by (rule match_book_mono [OF reads_as_valid [OF assms(1)] legBudget_bounds [OF nn(1)] legBudget_mono [OF nn(1) assms(3)]])
  then show ?thesis
    using matchQuote_gross [OF assms(1) nn(1) assms(5)] matchQuote_gross [OF assms(1) nn(2) assms(6)]
      net_of_mono [OF assms(4)] by metis
qed

theorem match_quote_monotone_witness:
  "matchQuote sample_levels 0xA1 0xB2 1000000000000000000 sample_cfg = Inr 12462500 \<and>
   matchQuote sample_levels 0xA1 0xB2 2000000000000000000 sample_cfg = Inr 24925000 \<and> (12462500 :: int) \<le> 24925000"
  using sample_match match_quote_monotone [OF sample_reads _ _ sample_cfg_sel(2) sample_match(2) sample_match(1)]
  by simp

text \<open>C3: on the message of a valid signed frame matching never fails for its prices, amounts or
  size: the levels read back as exactly the signed ticks and lots, the result is the net of matching
  them, and the only error is \<open>ErrZeroOutput\<close>, returned exactly when nothing is received.\<close>

theorem signed_frame_quote_total:
  assumes "ValidatePair (fs_Pair spec) = Inr ()" "valid_spec spec" "describes L spec m"
    and "qc_Pair cfg = fs_Pair spec" "\<not> quote_fees_bad cfg" "0 < amountIn"
  shows "let buy = (tokenIn = pp_QuoteToken (fs_Pair spec));
             gross = fst (match_book buy (if buy then ask_units spec else bid_units spec)
               (legBudgetWithInputFee amountIn cfg tokenIn))
         in matchQuote (if buy then mf_Asks m else mf_Bids m) tokenIn tokenOut amountIn cfg =
              (if gross = 0 then Inl ErrZeroOutput else Inr (net_of cfg tokenOut gross))"
proof -
  define buy where "buy = (tokenIn = pp_QuoteToken (fs_Pair spec))"
  define levels where "levels = (if buy then mf_Asks m else mf_Bids m)"
  define book where "book = (if buy then ask_units spec else bid_units spec)"
  let ?B = "legBudgetWithInputFee amountIn cfg tokenIn"
  note d = describes_reads [OF assms(1-3)]
  have r: "reads_as (qc_Pair cfg) levels book" and sm: "small_units book"
    using d assms(4) by (auto simp: levels_def book_def)
  have b: "0 \<le> ?B" using legBudget_bounds assms(6) by simp
  define g where "g = fst (match_book buy book ?B)"
  have g: "0 \<le> g" using match_book_bounds [OF reads_as_valid [OF r] b] by (simp add: g_def)
  have "matchQuote_loop (qc_Pair cfg) buy 0 levels ?B 0 = Inr (0 + g)"
    unfolding g_def
    by (rule matchQuote_loop_match(2) [OF r b]) (use small_units_fit [OF sm b] in simp_all)
  then have "matchQuote levels tokenIn tokenOut amountIn cfg = applyOutputFee g cfg tokenOut"
    using assms(4) by (simp add: matchQuote_def Let_def buy_def)
  also have "\<dots> = (if g = 0 then Inl ErrZeroOutput else Inr (net_of cfg tokenOut g))"
    using g net_of_pos(1) [OF assms(5), of tokenOut] net_of_pos(2) [OF assms(5), of g tokenOut]
    by (cases "g = 0") (simp_all add: applyOutputFee_net)
  finally show ?thesis by (simp add: Let_def buy_def [symmetric] levels_def book_def g_def)
qed

lemma sample_described: "\<exists>m. describes toy_lib sample_spec m"
  using toy_Prepare Prepare_describes [of toy_lib sample_spec] by blast

lemma sample_pair_valid: "ValidatePair (fs_Pair sample_spec) = Inr ()"
  by (simp add: ValidatePair_def sample_pair_def sample_spec_def bad_scale_def not_less BitLen_le)

theorem signed_frame_quote_total_witness:
  "\<exists>m. describes toy_lib sample_spec m \<and>
     matchQuote (mf_Bids m) 0xA1 0xB2 1000000000000000 sample_cfg = Inr 2991000"
proof -
  obtain m where m: "describes toy_lib sample_spec m" using sample_described ..
  have c: "qc_Pair sample_cfg = fs_Pair sample_spec" by (simp add: sample_cfg_def sample_spec_def)
  have b: "bid_units sample_spec = [(3000000000, 5000000000000000), (2999900000, 70000000000000000000)]"
    by (simp add: bid_units_def sample_spec_def sample_pair_def bid_tick_def)
  have q: "pp_QuoteToken (fs_Pair sample_spec) = 0xB2" by (simp add: sample_spec_def sample_pair_def)
  have "fst (match_book False (bid_units sample_spec) (legBudgetWithInputFee 1000000000000000 sample_cfg 0xA1)) = 3000000"
    by (simp add: b match_book_Cons level_take_def level_got_def level_paid_def Let_def
        legBudgetWithInputFee_def sample_cfg_def)
  moreover have "net_of sample_cfg 0xB2 3000000 = 2991000"
    by (simp add: net_of_def sample_cfg_def quotePPM_def)
  ultimately show ?thesis
    using m signed_frame_quote_total [OF sample_pair_valid sample_spec_valid m c sample_cfg_sel(2), of 1000000000000000 "0xA1" "0xB2"]
    by (auto simp: Let_def q)
qed

text \<open>C33: a quote is only given for a frame that is neither from the future nor older than the decay
  start (as natural numbers, without wrap-around), for the configured pair, in one of its two
  directions, and for a positive uint256 amount.\<close>

theorem quote_only_fresh_matching:
  assumes "Quote H v tokenIn tokenOut amountIn cfg now = Inr n"
  shows "\<exists>m pair a. v = Some m \<and> mf_Pair m = Some pair \<and> amountIn = Some a \<and> 0 < a \<and> a < 2 ^ 256 \<and>
    unat (mf_UpdatedAt m) \<le> unat now \<and>
    unat now \<le> unat (mf_UpdatedAt m) + unat (qc_DecayStartOffsetSeconds cfg) \<and>
    pk_PairId pair = pp_PairID (qc_Pair cfg) \<and>
    {tokenIn, tokenOut} = {pp_BaseToken (qc_Pair cfg), pp_QuoteToken (qc_Pair cfg)} \<and> tokenIn \<noteq> tokenOut \<and>
    \<not> quote_fees_bad cfg"
proof -
  obtain m pair a where m: "v = Some m" "mf_Pair m = Some pair" "amountIn = Some a"
    using assms by (auto simp: Quote_def validateQuote_def attempt_Inr Let_def split: option.splits)
  have v: "validateQuote H v tokenIn tokenOut amountIn cfg now = Inr ()"
    using assms by (auto simp: Quote_def attempt_Inr)
  then have c: "\<not> now < ucast (mf_UpdatedAt m)"
      "\<not> now - ucast (mf_UpdatedAt m) > (ucast (qc_DecayStartOffsetSeconds cfg) :: u64)"
      "\<not> a \<le> 0" "\<not> BitLen a > 256" "\<not> quote_fees_bad cfg" "pk_PairId pair = pp_PairID (qc_Pair cfg)"
      "ValidatePair (qc_Pair cfg) = Inr ()"
      "tokenIn = pp_BaseToken (qc_Pair cfg) \<and> tokenOut = pp_QuoteToken (qc_Pair cfg) \<or>
       tokenIn = pp_QuoteToken (qc_Pair cfg) \<and> tokenOut = pp_BaseToken (qc_Pair cfg)"
    by (auto simp: validateQuote_def m Let_def attempt_Inr)
  have t: "unat (mf_UpdatedAt m) \<le> unat now" using c(1) by (simp add: word_less_nat_alt)
  then have "unat (now - ucast (mf_UpdatedAt m)) = unat now - unat (mf_UpdatedAt m)"
    by (simp add: unat_sub word_le_nat_alt)
  then have "unat now \<le> unat (mf_UpdatedAt m) + unat (qc_DecayStartOffsetSeconds cfg)"
    using c(2) by (simp add: word_less_nat_alt)
  moreover have "a < 2 ^ 256" using c(3,4) BitLen_gt [of 256 a] by simp
  moreover have "pp_BaseToken (qc_Pair cfg) \<noteq> pp_QuoteToken (qc_Pair cfg)"
    using c(7) by (simp add: ValidatePair_def)
  ultimately show ?thesis using m c t by auto
qed

definition any_hex :: hexlib where
  "any_hex = \<lparr>IsHexAddress = (\<lambda>s. True), HexToAddress = (\<lambda>s. if s = ''base'' then 0xA1 else 0xB2)\<rparr>"

definition sample_market :: market_frame where
  "sample_market = \<lparr>mf_UpdatedAt = 1700000000,
     mf_Pair = Some \<lparr>pk_ChainId = 1, pk_PairId = 7, pk_BaseToken = ''base'', pk_QuoteToken = ''quote'', pk_unknown = []\<rparr>,
     mf_Bids = sample_levels, mf_Asks = [], mf_Frame = None, mf_MakerAddr = [], mf_Signature = [], mf_unknown = []\<rparr>"

theorem quote_only_fresh_matching_witness:
  "Quote any_hex (Some sample_market) 0xA1 0xB2 (Some 2000000000000000000) sample_cfg 1700000004 = Inr 24925000 \<and>
   unat (1700000004 :: u64) \<le> unat (mf_UpdatedAt sample_market) + unat (qc_DecayStartOffsetSeconds sample_cfg)"
proof -
  have "ValidatePair sample_pair = Inr ()"
    using sample_pair_valid by (simp add: sample_spec_def)
  then have q: "Quote any_hex (Some sample_market) 0xA1 0xB2 (Some 2000000000000000000) sample_cfg 1700000004 = Inr 24925000"
    using sample_match(1) sample_cfg_sel(2)
    by (simp add: Quote_def validateQuote_def sample_market_def Let_def reject_def any_hex_def BitLen_gt)
      (simp add: sample_cfg_def sample_pair_def)
  from quote_only_fresh_matching [OF q] q show ?thesis by auto
qed

text \<open>Two ask levels of \<open>1.1 * 10 ^ 77\<close> base units each, at prices of one and two quote units per
  \<open>10 ^ 18\<close>.\<close>

definition deep_text :: string where
  "deep_text = ''11'' @ replicate 58 zero_char"

definition deep_levels :: "price_level option list" where
  "deep_levels = [Some \<lparr>pl_Price = ''0.000001'', pl_Amount = deep_text, pl_unknown = []\<rparr>,
     Some \<lparr>pl_Price = ''0.000002'', pl_Amount = deep_text, pl_unknown = []\<rparr>]"

definition no_fee_cfg :: quote_config where
  "no_fee_cfg = \<lparr>qc_Pair = sample_pair, qc_FeeToken = 0, qc_FeeRatePPM = 0, qc_DecayStartOffsetSeconds = 5\<rparr>"

lemma deep_decimals:
  "quoteDecimal ''0.000001'' 6 = Inr 1" "quoteDecimal ''0.000002'' 6 = Inr 2"
  "quoteDecimal deep_text 18 = Inr (11 * 10 ^ 76)"
proof -
  show "quoteDecimal ''0.000001'' 6 = Inr 1" "quoteDecimal ''0.000002'' 6 = Inr 2"
    by (simp_all add: quoteDecimal_iff plain_decimal_def decimal_rat_def Cut_def digits_eval)
  have d: "list_all is_digit deep_text" "digits_val deep_text = 11 * 10 ^ 58" "length deep_text = 60" "deep_text \<noteq> []"
    by (simp_all add: deep_text_def digits_eval digits_val_append)
  then have "plain_decimal deep_text" "decimal_rat deep_text = 11 * 10 ^ 58"
    using plain_decimal_parts [of deep_text "[]"] by simp_all
  then show "quoteDecimal deep_text 18 = Inr (11 * 10 ^ 76)"
    using d(3) by (simp add: quoteDecimal_iff)
qed

text \<open>C34: on a buy the loop leaves a partially filled level before it checks the accumulated output,
  so a quote can succeed with an output that is not a uint256: two deep asks, each readable and
  within range, and a uint256 amount give \<open>1.6 * 10 ^ 77\<close>, above \<open>2 ^ 256\<close>.\<close>

theorem buy_output_can_exceed_uint256:
  "matchQuote deep_levels 0xB2 0xA1 (21 * 10 ^ 58) no_fee_cfg = Inr (16 * 10 ^ 76) \<and>
   \<not> quote_fees_bad no_fee_cfg \<and> BitLen (21 * 10 ^ 58) \<le> 256 \<and> BitLen (16 * 10 ^ 76) > 256"
proof -
  have c: "qc_Pair no_fee_cfg = sample_pair" "qc_FeeRatePPM no_fee_cfg = 0" "\<not> quote_fees_bad no_fee_cfg"
    by (simp_all add: no_fee_cfg_def quote_fees_bad_def quotePPM_def)
  have "matchQuote deep_levels 0xB2 0xA1 (21 * 10 ^ 58) no_fee_cfg = Inr (16 * 10 ^ 76)"
    by (simp add: matchQuote_def deep_levels_def GetPrice_def GetAmount_def deep_decimals sample_scales c
        legBudgetWithInputFee_def quoteCost_def baseAffordable_def Quo_def priceScale18_def scaleMinusOne_def
        reject_def BitLen_gt applyOutputFee_def Let_def)
  then show ?thesis by (simp add: c BitLen_le BitLen_gt)
qed

end
