(* ===== verification/Protocol_Decay.thy ===== *)
theory Protocol_Decay
  imports Go_Library
begin

text \<open>
  Frame age and decay, \<open>pkg/protocol/decay.go\<close>, with the uint256 check of \<open>validation.go\<close>. Ages
  and products are uint64 words as in the code; the lemmas show that none of the operations wraps,
  and relate the words to floor division on natural numbers.
\<close>

definition PPMDenominator :: u32 where
  "PPMDenominator = 1000000"

datatype decay_error =
    ErrInvalidDecayConfig
  | DecayFutureFrame
  | DecayExpiredFrame
  | NotUint256 string bool
  | DecayPPMRange

record global_decay_config =
  DecayStartOffsetSeconds :: u32
  DecayEndOffsetSeconds :: u32
  MaxAge :: u32
  MaxDecayPpm :: u32

definition Validate :: "global_decay_config \<Rightarrow> decay_error + unit" where
  "Validate c = reject (MaxAge c = 0 \<or> DecayStartOffsetSeconds c \<ge> DecayEndOffsetSeconds c \<or>
       DecayEndOffsetSeconds c \<ge> MaxAge c \<or> MaxDecayPpm c \<ge> PPMDenominator) ErrInvalidDecayConfig (Inr ())"

definition DecayPPM :: "u32 \<Rightarrow> u64 \<Rightarrow> global_decay_config \<Rightarrow> decay_error + u32" where
  "DecayPPM updatedAt now cfg =
     attempt (Validate cfg) (\<lambda>_.
     reject (now < ucast updatedAt) DecayFutureFrame
    (let age = now - ucast updatedAt in
     reject (age \<ge> ucast (MaxAge cfg)) DecayExpiredFrame
    (let start = (ucast (DecayStartOffsetSeconds cfg) :: u64);
         stop = (ucast (DecayEndOffsetSeconds cfg) :: u64)
     in if age \<le> start then Inr 0
        else if age \<ge> stop then Inr (MaxDecayPpm cfg)
        else Inr (ucast (ucast (MaxDecayPpm cfg) * (age - start) div (stop - start))))))"

definition uint256 :: "string \<Rightarrow> int option \<Rightarrow> bool \<Rightarrow> decay_error + unit" where
  "uint256 name v positive =
     reject (case v of None \<Rightarrow> True | Some n \<Rightarrow> n < 0 \<or> BitLen n > 256 \<or> (positive \<and> n = 0))
       (NotUint256 name positive) (Inr ())"

definition ApplyDecay :: "int option \<Rightarrow> u32 \<Rightarrow> decay_error + int \<times> int" where
  "ApplyDecay grossAmountOut decayPpm =
     attempt (uint256 ''grossAmountOut'' grossAmountOut False) (\<lambda>_.
     reject (decayPpm \<ge> PPMDenominator) DecayPPMRange
    (let gross = the grossAmountOut;
         decayAmount = Quo (gross * uint decayPpm) (uint PPMDenominator)
     in Inr (decayAmount, gross - decayAmount)))"

subsection \<open>Without wrap-around\<close>

lemma uint256_Inr: "uint256 name v positive = Inr u \<longleftrightarrow> (\<exists>n. v = Some n \<and> 0 \<le> n \<and> n < 2 ^ 256 \<and> (positive \<longrightarrow> 0 < n))"
  by (auto simp: uint256_def BitLen_gt not_less not_le split: option.splits)

lemma Validate_Inr:
  "Validate c = Inr u \<longleftrightarrow> unat (DecayStartOffsetSeconds c) < unat (DecayEndOffsetSeconds c) \<and>
     unat (DecayEndOffsetSeconds c) < unat (MaxAge c) \<and> unat (MaxDecayPpm c) < 1000000"
  by (auto simp: Validate_def not_le word_less_nat_alt PPMDenominator_def unat_eq_0)

text \<open>The decay at a given age, over natural numbers.\<close>

definition decay_at :: "global_decay_config \<Rightarrow> nat \<Rightarrow> nat" where
  "decay_at cfg age = (let s = unat (DecayStartOffsetSeconds cfg); e = unat (DecayEndOffsetSeconds cfg) in
     if age \<le> s then 0 else if e \<le> age then unat (MaxDecayPpm cfg)
     else unat (MaxDecayPpm cfg) * (age - s) div (e - s))"

lemma decay_at_bounds:
  assumes "Validate cfg = Inr ()"
  shows "decay_at cfg age \<le> unat (MaxDecayPpm cfg)"
proof -
  have "unat (MaxDecayPpm cfg) * k div n \<le> unat (MaxDecayPpm cfg)" if "k \<le> n" for k n :: nat
  proof (cases "n = 0")
    case False
    have "unat (MaxDecayPpm cfg) * k div n \<le> unat (MaxDecayPpm cfg) * n div n"
      using that by (intro div_le_mono) simp
    then show ?thesis using False by simp
  qed simp
  then show ?thesis by (simp add: decay_at_def Let_def)
qed

lemma decay_at_mono:
  assumes "Validate cfg = Inr ()" "a \<le> b"
  shows "decay_at cfg a \<le> decay_at cfg b"
proof (cases "unat (DecayEndOffsetSeconds cfg) \<le> b")
  case True
  then have "decay_at cfg b = unat (MaxDecayPpm cfg)"
    using assms(1) by (auto simp: decay_at_def Let_def Validate_Inr)
  then show ?thesis using decay_at_bounds [OF assms(1)] by simp
next
  case False
  then show ?thesis
    using assms by (auto simp: decay_at_def Let_def intro!: div_le_mono)
qed

lemma word_floor:
  assumes "k < 2 ^ 32" "n < 2 ^ 32" "k < n" "unat (a :: u64) = k" "unat (b :: u64) = n"
  shows "unat (ucast (ucast (m :: u32) * a div b) :: u32) = unat m * k div n"
proof -
  have m: "unat m < 2 ^ 32" by (rule unat_u32_less)
  have "unat m * k < 2 ^ 32 * 2 ^ 32" using m assms(1) by (intro mult_strict_mono) simp_all
  then have "unat (ucast m * a) = unat m * k"
    using assms(4) by (simp add: unat_word_ariths)
  then have d: "unat (ucast m * a div b) = unat m * k div n"
    using assms(5) by (simp add: unat_div)
  have "unat m * k div n \<le> unat m * n div n" using assms(3) by (intro div_le_mono) simp
  then have "unat m * k div n < 2 ^ 32" using m assms(3) by simp
  then show ?thesis by (simp add: unsigned_ucast_eq d take_bit_nat_eq_self)
qed

lemma DecayPPM_nat:
  assumes "Validate cfg = Inr ()"
  shows "DecayPPM t now cfg =
    (if unat now < unat t then Inl DecayFutureFrame
     else if unat (MaxAge cfg) \<le> unat now - unat t then Inl DecayExpiredFrame
     else Inr (word_of_nat (decay_at cfg (unat now - unat t))))"
proof (cases "unat now < unat t")
  case False
  let ?age = "now - ucast t"
  have age: "unat ?age = unat now - unat t" using False by (simp add: unat_sub word_le_nat_alt)
  let ?s = "DecayStartOffsetSeconds cfg" and ?e = "DecayEndOffsetSeconds cfg"
  have v: "unat ?s < unat ?e" using assms by (simp add: Validate_Inr)
  have mid: "(ucast (ucast (MaxDecayPpm cfg) * (?age - ucast ?s) div (ucast ?e - ucast ?s)) :: u32) =
      word_of_nat (unat (MaxDecayPpm cfg) * (unat now - unat t - unat ?s) div (unat ?e - unat ?s))"
    if "unat ?s < unat now - unat t" "unat now - unat t < unat ?e"
  proof -
    have a: "unat (?age - ucast ?s) = unat now - unat t - unat ?s"
      using that age by (simp add: unat_sub word_le_nat_alt)
    have b: "unat (ucast ?e - ucast ?s :: u64) = unat ?e - unat ?s"
      using v by (simp add: unat_sub word_le_nat_alt)
    let ?w = "ucast (ucast (MaxDecayPpm cfg) * (?age - ucast ?s) div (ucast ?e - ucast ?s)) :: u32"
    have "unat ?e < 2 ^ 32" by (rule unat_u32_less)
    then have "unat ?w = unat (MaxDecayPpm cfg) * (unat now - unat t - unat ?s) div (unat ?e - unat ?s)"
      using that by (intro word_floor [OF _ _ _ a b]) linarith+
    moreover have "?w = word_of_nat (unat ?w)" by simp
    ultimately show ?thesis by (simp only:)
  qed
  show ?thesis
    using assms False mid
    by (auto simp: DecayPPM_def Let_def reject_def word_less_nat_alt word_le_nat_alt age decay_at_def)
qed (use assms in \<open>simp add: DecayPPM_def word_less_nat_alt\<close>)

subsection \<open>Properties\<close>

text \<open>C35: for a valid configuration \<open>DecayPPM\<close> fails exactly on frames from the future and frames
  whose age has reached \<open>MaxAge\<close>, and otherwise returns the floor of the linear ramp from zero at the
  start offset to \<open>MaxDecayPpm\<close> at the end offset; the uint64 and uint32 arithmetic never wraps and
  the result stays below one million.\<close>

theorem decay_ppm_exact:
  assumes "Validate cfg = Inr ()"
  shows "DecayPPM t now cfg =
      (if unat now < unat t then Inl DecayFutureFrame
       else if unat (MaxAge cfg) \<le> unat now - unat t then Inl DecayExpiredFrame
       else Inr (word_of_nat (decay_at cfg (unat now - unat t)))) \<and>
    decay_at cfg age \<le> unat (MaxDecayPpm cfg) \<and> decay_at cfg age < 1000000"
proof -
  have "unat (MaxDecayPpm cfg) < 1000000" using assms by (simp add: Validate_Inr)
  then show ?thesis
    using DecayPPM_nat [OF assms, of t now] decay_at_bounds [OF assms, of age] by linarith
qed

definition sample_decay :: global_decay_config where
  "sample_decay = \<lparr>DecayStartOffsetSeconds = 5, DecayEndOffsetSeconds = 15, MaxAge = 60, MaxDecayPpm = 5001\<rparr>"

lemma sample_decay_valid: "Validate sample_decay = Inr ()"
  by (simp add: Validate_Inr sample_decay_def)

theorem decay_ppm_exact_witness:
  "DecayPPM 100 108 sample_decay = Inr 1500 \<and> DecayPPM 100 160 sample_decay = Inl DecayExpiredFrame \<and>
   DecayPPM 100 99 sample_decay = Inl DecayFutureFrame"
  using decay_ppm_exact [OF sample_decay_valid, of 100 108 0] decay_ppm_exact [OF sample_decay_valid, of 100 160 0]
    decay_ppm_exact [OF sample_decay_valid, of 100 99 0]
  by (simp add: decay_at_def sample_decay_def)

text \<open>decay never decreases as a frame ages: of two successful evaluations of one frame the later
  one deducts at least as much.\<close>

theorem decay_monotone:
  assumes "DecayPPM t now cfg = Inr a" "DecayPPM t later cfg = Inr b" "now \<le> later"
  shows "a \<le> b"
proof -
  have v: "Validate cfg = Inr ()" using assms(1) by (auto simp: DecayPPM_def attempt_Inr)
  have e: "a = word_of_nat (decay_at cfg (unat now - unat t))" "b = word_of_nat (decay_at cfg (unat later - unat t))"
    using assms(1,2) by (auto simp: DecayPPM_nat [OF v] split: if_splits)
  have "unat now - unat t \<le> unat later - unat t" using assms(3) by (simp add: word_le_nat_alt diff_le_mono)
  then have m: "decay_at cfg (unat now - unat t) \<le> decay_at cfg (unat later - unat t)"
    by (rule decay_at_mono [OF v])
  have "decay_at cfg x < 2 ^ 32" for x
    using decay_at_bounds [OF v, of x] unat_u32_less [of "MaxDecayPpm cfg"] by linarith
  then have "unat a = decay_at cfg (unat now - unat t)" "unat b = decay_at cfg (unat later - unat t)"
    by (simp_all add: e unsigned_of_nat take_bit_nat_eq_self)
  with m show ?thesis by (simp add: word_le_nat_alt)
qed

lemma sample_decay_values: "DecayPPM 100 108 sample_decay = Inr 1500" "DecayPPM 100 110 sample_decay = Inr 2500"
  by (simp_all add: DecayPPM_nat [OF sample_decay_valid]) (simp_all add: decay_at_def sample_decay_def)

theorem decay_monotone_witness:
  "DecayPPM 100 108 sample_decay = Inr 1500 \<and> DecayPPM 100 110 sample_decay = Inr 2500 \<and> (1500 :: u32) \<le> 2500"
  using sample_decay_values decay_monotone [OF sample_decay_values] by simp

text \<open>\<open>ApplyDecay\<close> splits a uint256 into a deduction and a remainder that are both nonnegative and
  add up to it; the deduction is rounded down and a positive gross never decays to zero.\<close>

theorem apply_decay_splits:
  assumes "ApplyDecay g ppm = Inr (deduction, rest)"
  shows "\<exists>gross. g = Some gross \<and> 0 \<le> gross \<and> gross < 2 ^ 256 \<and> unat ppm < 1000000 \<and>
    deduction + rest = gross \<and> 0 \<le> deduction \<and> deduction = gross * uint ppm div 1000000 \<and>
    (0 < gross \<longrightarrow> 0 < rest)"
proof -
  obtain gross where g: "g = Some gross" "0 \<le> gross" "gross < 2 ^ 256" "\<not> PPMDenominator \<le> ppm"
      and d: "deduction = Quo (gross * uint ppm) (uint PPMDenominator)" "rest = gross - deduction"
    using assms by (auto simp: ApplyDecay_def attempt_Inr uint256_Inr Let_def)
  have p: "uint ppm < 1000000" using g(4) by (simp add: PPMDenominator_def word_le_def)
  have dd: "deduction = gross * uint ppm div 1000000"
    using g by (simp add: d PPMDenominator_def Quo_nonneg)
  have "gross * uint ppm < gross * 1000000" if "0 < gross" using that p by simp
  then have "deduction < gross" if "0 < gross"
    using that int_le_div_iff [of 1000000 gross "gross * uint ppm"] by (simp add: dd not_le [symmetric])
  moreover have "0 \<le> deduction" using g by (simp add: dd pos_imp_zdiv_nonneg_iff)
  moreover have "unat ppm < 1000000" using g(4) by (simp add: PPMDenominator_def word_le_nat_alt)
  ultimately show ?thesis using g d(2) dd by auto
qed

theorem apply_decay_splits_witness:
  "ApplyDecay (Some 1999) 1500 = Inr (2, 1997) \<and> (2 :: int) + 1997 = 1999"
proof -
  have a: "ApplyDecay (Some 1999) 1500 = Inr (2, 1997)"
    by (simp add: ApplyDecay_def uint256_def BitLen_gt PPMDenominator_def Quo_def reject_def)
  from apply_decay_splits [OF a] a show ?thesis by simp
qed

end
