(* ===== verification/Protocol_Client.thy ===== *)
theory Protocol_Client
  imports Frame_Signing Protocol_Decay
begin

text \<open>
  The on-chain client of \<open>pkg/protocol\<close>: \<open>client.go\<close>, \<open>read.go\<close>, \<open>swap.go\<close>, \<open>transaction.go\<close>,
  \<open>receipt.go\<close>, \<open>revert.go\<close> and \<open>validation.go\<close>. ABI packing, transaction hashing and recovery, and
  \<open>bind.RawTransact\<close> are fields of the parameter record \<open>chainlib\<close>, the RPC endpoint is the record
  \<open>rpc\<close> (its n-th contract call within an operation may answer differently from an earlier one).
  An operation that sends returns its transaction, its error and the transactions it broadcast.
\<close>

subsection \<open>Values and errors\<close>

datatype abi_val =
    VAddr address
  | VInt int
  | VBool bool
  | VU32 u32
  | VBytes bytes
  | VWord bytes
  | VFrames "signed_frame list"
  | VFrame compact_frame

text \<open>What an RPC error carries as data: a string, bytes, or a map whose values are references into
  the chain library's heap, so that maps may share children or be cyclic.\<close>

datatype data_node = DString string | DBytes bytes | DMap "string \<rightharpoonup> nat" | DOther

datatype proto_error =
    PContextNil
  | BlockNegative
  | RPCRequired
  | ChainMismatch
  | UpdateMakerZero
  | UpdateFrame frame_error
  | UpdateSignature frame_error
  | UpdateRecoveryID
  | PUint256 decay_error
  | UnsupportedMethod string
  | PPairIDZero
  | MakerRecipientZero
  | PriceUpdate nat proto_error
  | SimulationMethod
  | PayerZero
  | Malformed string
  | TokenZero
  | OptsRequired
  | ValueNonzero
  | NonceRange
  | GasRange
  | SignerReturnedNil
  | TxChainMismatch
  | TxSenderMismatch
  | TxContentsChanged
  | TxHashZero
  | ReceiptNil
  | ReceiptFailed
  | LogRemoved nat
  | LogMalformed nat
  | PairTokensInvalid
  | PairScales
  | PairFeeRate
  | PairFeeToken
  | DecayConfig decay_error
  | TypeAssertion

datatype go_error =
    Proto proto_error
  | CtxError ctx_error
  | NotFound
  | Lib string
  | WithData string data_node
  | Wrap string go_error
  | Revert string "abi_val list" bytes go_error

record tx =
  tx_ChainId :: int
  tx_To :: "address option"
  tx_Value :: int
  tx_Data :: bytes
  tx_Rest :: bytes

record transact_opts =
  opts_From :: address
  opts_Signer :: "(address \<Rightarrow> tx \<Rightarrow> go_error + tx option) option"
  opts_Nonce :: "int option"
  opts_Value :: "int option"
  opts_GasPrice :: "int option"
  opts_GasFeeCap :: "int option"
  opts_GasTipCap :: "int option"
  opts_AccessList :: "(address \<times> bytes list) list option"
  opts_Context :: "ctx option"
  opts_NoSend :: bool

record call_msg =
  msg_From :: address
  msg_To :: address
  msg_Data :: bytes

record chainlib =
  eth :: ethlib
  PackContract :: "string \<Rightarrow> abi_val list \<Rightarrow> string + bytes"
  UnpackContract :: "string \<Rightarrow> bytes \<Rightarrow> string + abi_val list"
  PackToken :: "string \<Rightarrow> abi_val list \<Rightarrow> string + bytes"
  UnpackToken :: "string \<Rightarrow> bytes \<Rightarrow> string + abi_val list"
  ErrorByID :: "bytes \<Rightarrow> (string \<times> (bytes \<Rightarrow> string + abi_val list)) option"
  UnpackRevert :: "bytes \<Rightarrow> string + abi_val"
  HexDecode :: "string \<Rightarrow> bytes option"
  node_of :: "nat \<Rightarrow> data_node"
  TxHash :: "u64 \<Rightarrow> tx \<Rightarrow> bytes"
  TxSender :: "u64 \<Rightarrow> tx \<Rightarrow> string + address"
  RawTransact :: "transact_opts \<Rightarrow> address \<Rightarrow> bytes \<Rightarrow> (address \<Rightarrow> tx \<Rightarrow> go_error + tx) \<Rightarrow> (go_error + tx) \<times> tx list"
  SwapEventID :: bytes
  UnpackSwapData :: "bytes \<Rightarrow> string + (string \<rightharpoonup> abi_val)"
  ParseSwapTopics :: "bytes list \<Rightarrow> string + (string \<rightharpoonup> abi_val)"

record rpc =
  RpcChainID :: "go_error + int option"
  BlockNumber :: "go_error + u64"
  CallContract :: "nat \<Rightarrow> call_msg \<Rightarrow> int option \<Rightarrow> go_error + bytes"
  SendTransaction :: "tx \<Rightarrow> go_error option"

subsection \<open>client.go, validation.go\<close>

record client =
  cl_ChainID :: u64
  cl_Proxy :: address

definition NewClient :: "ctx option \<Rightarrow> rpc option \<Rightarrow> client \<Rightarrow> go_error + client" where
  "NewClient cx r cfg = (case cx of None \<Rightarrow> Inl (Proto PContextNil) | Some _ \<Rightarrow>
     (case r of None \<Rightarrow> Inl (Proto RPCRequired) | Some rp \<Rightarrow>
       reject (cl_ChainID cfg = 0 \<or> cl_Proxy cfg = 0) (Proto RPCRequired)
      (attempt (wrap_err (Wrap ''read chain ID'') (RpcChainID rp)) (\<lambda>i.
       reject (case i of None \<Rightarrow> True | Some n \<Rightarrow> n \<noteq> uint (cl_ChainID cfg)) (Proto ChainMismatch)
      (Inr cfg)))))"

definition validateBlock :: "ctx option \<Rightarrow> int option \<Rightarrow> go_error + unit" where
  "validateBlock cx block =
     reject (cx = None) (Proto PContextNil)
    (reject (case block of None \<Rightarrow> False | Some n \<Rightarrow> n < 0) (Proto BlockNegative)
    (Inr ()))"

definition validateSigned :: "ethlib \<Rightarrow> signed_frame \<Rightarrow> proto_error + unit" where
  "validateSigned L v =
     reject (sf_Maker v = 0) UpdateMakerZero
    (attempt (wrap_err UpdateFrame (ValidateCompactFrame (sf_Frame v))) (\<lambda>_.
     attempt (wrap_err UpdateSignature (NormalizeSignature L (sf_Signature v))) (\<lambda>_.
     reject (sf_Signature v ! 64 \<noteq> 27 \<and> sf_Signature v ! 64 \<noteq> 28) UpdateRecoveryID
    (Inr ()))))"

subsection \<open>revert.go\<close>

definition revert_leaf :: "chainlib \<Rightarrow> data_node \<Rightarrow> bytes \<times> bool" where
  "revert_leaf L v = (case v of
       DString s \<Rightarrow> (case HexDecode L s of None \<Rightarrow> ([], False) | Some raw \<Rightarrow> (raw, length raw \<ge> 4))
     | DBytes b \<Rightarrow> (b, length b \<ge> 4)
     | _ \<Rightarrow> ([], False))"

text \<open>\<open>remaining\<close> is the shared counter: every visited value takes one, and its final value is
  returned. \<open>keys\<close> are the map keys still to try at this value.\<close>

function (domintros) nestedRevertBytes :: "chainlib \<Rightarrow> data_node \<Rightarrow> nat \<Rightarrow> (bytes \<times> bool) \<times> nat"
  and revert_keys :: "chainlib \<Rightarrow> (string \<rightharpoonup> nat) \<Rightarrow> string list \<Rightarrow> nat \<Rightarrow> (bytes \<times> bool) \<times> nat" where
  "nestedRevertBytes L v remaining =
     (if remaining = 0 then (([], False), 0)
      else case v of
        DMap m \<Rightarrow> revert_keys L m [''data'', ''return'', ''result''] (remaining - 1)
      | _ \<Rightarrow> (revert_leaf L v, remaining - 1))"
| "revert_keys L m [] remaining = (([], False), remaining)"
| "revert_keys L m (k # ks) remaining =
     (case m k of None \<Rightarrow> revert_keys L m ks remaining
      | Some r \<Rightarrow>
          (let res = nestedRevertBytes L (node_of L r) remaining in
           if snd (fst res) then res else revert_keys L m ks (snd res)))"
  by pat_completeness auto

lemma revert_left:
  shows "nestedRevertBytes_revert_keys_dom (Inl (L, v, n)) \<Longrightarrow> snd (nestedRevertBytes L v n) \<le> n"
    and "nestedRevertBytes_revert_keys_dom (Inr (L, m, ks, n)) \<Longrightarrow> snd (revert_keys L m ks n) \<le> n"
proof (induction L v n and L m ks n rule: nestedRevertBytes_revert_keys.pinduct)
  case (1 L v n)
  then show ?case
    by (auto simp: nestedRevertBytes.psimps split: data_node.splits)
next
  case (3 L m k ks n)
  then show ?case
    by (auto simp: revert_keys.psimps Let_def split: option.splits) (metis le_trans prod.collapse)
qed (simp add: revert_keys.psimps)

termination nestedRevertBytes
proof (relation "inv_image (less_than <*lex*> less_than)
    (case_sum (\<lambda>(L, v, n). (n, 0)) (\<lambda>(L, m, ks, n). (n, Suc (length ks))))", goal_cases)
  case (5 L m k ks n r x)
  then show ?case using revert_left(1) [of L "node_of L r" n] by (auto simp: le_less)
qed auto

definition revertBytes :: "chainlib \<Rightarrow> data_node \<Rightarrow> bytes \<times> bool" where
  "revertBytes L v = fst (nestedRevertBytes L v 32)"

text \<open>\<open>errors.As\<close> for \<open>*RevertError\<close> and for \<open>rpc.DataError\<close>, along the chain of wrapped errors.\<close>

fun as_RevertError :: "go_error \<Rightarrow> bool" where
  "as_RevertError (Revert _ _ _ _) = True"
| "as_RevertError (Wrap _ e) = as_RevertError e"
| "as_RevertError _ = False"

fun as_DataError :: "go_error \<Rightarrow> data_node option" where
  "as_DataError (WithData _ d) = Some d"
| "as_DataError (Wrap _ e) = as_DataError e"
| "as_DataError (Revert _ _ _ e) = as_DataError e"
| "as_DataError _ = None"

definition ParseRevert :: "chainlib \<Rightarrow> go_error \<Rightarrow> go_error" where
  "ParseRevert L err =
     (if as_RevertError err then err
      else case as_DataError err of None \<Rightarrow> err | Some d \<Rightarrow>
        (case revertBytes L d of (raw, ok) \<Rightarrow>
           if \<not> ok \<or> length raw < 4 then err
           else case ErrorByID L (take 4 raw) of
             Some (name, unpack) \<Rightarrow>
               (case unpack (drop 4 raw) of Inl _ \<Rightarrow> err | Inr vs \<Rightarrow> Revert name vs raw err)
           | None \<Rightarrow>
               if take 4 raw = [0x08, 0xc3, 0x79, 0xa0] then
                 (case UnpackRevert L raw of Inl _ \<Rightarrow> err | Inr r \<Rightarrow> Revert ''Error'' [r] raw err)
               else if take 4 raw = [0x4e, 0x48, 0x7b, 0x71] then
                 (case UnpackRevert L raw of Inl _ \<Rightarrow> err | Inr r \<Rightarrow> Revert ''Panic'' [r] raw err)
               else Revert ''Unknown'' [] raw err))"

subsection \<open>swap.go\<close>

datatype swap_method = MethodSwap | MethodSwapExactIn | MethodSwapWithCallback | OtherMethod string

fun method_name :: "swap_method \<Rightarrow> string" where
  "method_name MethodSwap = ''swap''"
| "method_name MethodSwapExactIn = ''swapExactIn''"
| "method_name MethodSwapWithCallback = ''swapWithCallback''"
| "method_name (OtherMethod s) = s"

record swap_params =
  sp_PairID :: u32
  sp_IsBuy :: bool
  sp_AmountIn :: "int option"
  sp_MinAmountOut :: "int option"
  sp_Maker :: address
  sp_Recipient :: address
  sp_PriceUpdates :: "signed_frame list"

fun validateUpdates :: "ethlib \<Rightarrow> nat \<Rightarrow> signed_frame list \<Rightarrow> proto_error + unit" where
  "validateUpdates L i [] = Inr ()"
| "validateUpdates L i (v # vs) =
     attempt (wrap_err (PriceUpdate i) (validateSigned L v)) (\<lambda>_. validateUpdates L (Suc i) vs)"

definition EncodeSwapCall :: "chainlib \<Rightarrow> swap_method \<Rightarrow> swap_params \<Rightarrow> go_error + bytes" where
  "EncodeSwapCall L method params =
     reject (case method of OtherMethod _ \<Rightarrow> True | _ \<Rightarrow> False) (Proto (UnsupportedMethod (method_name method)))
    (reject (sp_PairID params = 0) (Proto PPairIDZero)
    (attempt (wrap_err (Proto \<circ> PUint256) (uint256 ''AmountIn'' (sp_AmountIn params) True)) (\<lambda>_.
     attempt (wrap_err (Proto \<circ> PUint256) (uint256 ''MinAmountOut'' (sp_MinAmountOut params) False)) (\<lambda>_.
     reject (sp_Maker params = 0 \<or> sp_Recipient params = 0) (Proto MakerRecipientZero)
    (attempt (wrap_err Proto (validateUpdates (eth L) 0 (sp_PriceUpdates params))) (\<lambda>_.
     wrap_err Lib (PackContract L (method_name method)
       [VU32 (sp_PairID params), VBool (sp_IsBuy params), VInt (the (sp_AmountIn params)),
        VInt (the (sp_MinAmountOut params)), VAddr (sp_Maker params), VAddr (sp_Recipient params),
        VFrames (sp_PriceUpdates params)])))))))"

text \<open>A type assertion on a decoded value; the source panics where it does not hold.\<close>

definition as_int :: "abi_val \<Rightarrow> go_error + int" where
  "as_int v = (case v of VInt n \<Rightarrow> Inr n | _ \<Rightarrow> Inl (Proto TypeAssertion))"

definition as_addr :: "abi_val \<Rightarrow> go_error + address" where
  "as_addr v = (case v of VAddr a \<Rightarrow> Inr a | _ \<Rightarrow> Inl (Proto TypeAssertion))"

definition as_bool :: "abi_val \<Rightarrow> go_error + bool" where
  "as_bool v = (case v of VBool b \<Rightarrow> Inr b | _ \<Rightarrow> Inl (Proto TypeAssertion))"

definition as_u32 :: "abi_val \<Rightarrow> go_error + u32" where
  "as_u32 v = (case v of VU32 n \<Rightarrow> Inr n | _ \<Rightarrow> Inl (Proto TypeAssertion))"

record swap_result =
  ActualAmountIn :: int
  AmountOut :: int

definition SimulateSwap ::
  "chainlib \<Rightarrow> rpc \<Rightarrow> client \<Rightarrow> ctx option \<Rightarrow> address \<Rightarrow> swap_method \<Rightarrow> swap_params \<Rightarrow> int option
     \<Rightarrow> go_error + swap_result" where
  "SimulateSwap L r c cx from method params block =
     attempt (validateBlock cx block) (\<lambda>_.
     reject (method \<noteq> MethodSwap \<and> method \<noteq> MethodSwapExactIn) (Proto SimulationMethod)
    (reject (from = 0) (Proto PayerZero)
    (attempt (EncodeSwapCall L method params) (\<lambda>data.
     attempt (wrap_err (ParseRevert L)
        (CallContract r 0 \<lparr>msg_From = from, msg_To = cl_Proxy c, msg_Data = data\<rparr> block)) (\<lambda>raw.
     attempt (wrap_err (Wrap ''decode swap result'' \<circ> Lib) (UnpackContract L (method_name method) raw)) (\<lambda>vs.
     reject (length vs \<noteq> 2) (Proto (Malformed ''swap result''))
    (attempt (as_int (vs ! 0)) (\<lambda>a. attempt (as_int (vs ! 1)) (\<lambda>b.
     Inr \<lparr>ActualAmountIn = a, AmountOut = b\<rparr>)))))))))"

subsection \<open>transaction.go\<close>

definition bad_gas :: "int option \<Rightarrow> bool" where
  "bad_gas v = (case v of None \<Rightarrow> False | Some _ \<Rightarrow> uint256 ''gas'' v False \<noteq> Inr ())"

definition cloneInt :: "int option \<Rightarrow> int option" where
  "cloneInt v = (case v of None \<Rightarrow> None | Some n \<Rightarrow> Some n)"

text \<open>The loop over the three gas fields ranges over a Go map, so which of several bad fields is
  named in the error is not determined; the model has one error for them.\<close>

definition copyOpts :: "transact_opts option \<Rightarrow> go_error + transact_opts" where
  "copyOpts os = (case os of None \<Rightarrow> Inl (Proto OptsRequired) | Some opts \<Rightarrow>
     reject (opts_Signer opts = None \<or> opts_From opts = 0) (Proto OptsRequired)
    (reject (case opts_Value opts of None \<Rightarrow> False | Some v \<Rightarrow> v \<noteq> 0) (Proto ValueNonzero)
    (reject (case opts_Nonce opts of None \<Rightarrow> False | Some n \<Rightarrow> n < 0 \<or> BitLen n > 64) (Proto NonceRange)
    (reject (bad_gas (opts_GasPrice opts) \<or> bad_gas (opts_GasFeeCap opts) \<or> bad_gas (opts_GasTipCap opts))
       (Proto GasRange)
    (Inr (opts\<lparr>opts_Nonce := cloneInt (opts_Nonce opts), opts_Value := cloneInt (opts_Value opts),
       opts_GasPrice := cloneInt (opts_GasPrice opts), opts_GasFeeCap := cloneInt (opts_GasFeeCap opts),
       opts_GasTipCap := cloneInt (opts_GasTipCap opts),
       opts_AccessList := (case opts_AccessList opts of None \<Rightarrow> None
         | Some al \<Rightarrow> Some (map (\<lambda>(a, ks). (a, ks)) al)),
       opts_Context := (case opts_Context opts of None \<Rightarrow> Some (\<lambda>_. None) | Some c \<Rightarrow> Some c)\<rparr>))))))"

text \<open>The signer installed for the construction: it calls the caller's and accepts only a signature
  on the same transaction, by the sender, for this chain.\<close>

definition checked_signer ::
  "chainlib \<Rightarrow> client \<Rightarrow> address \<Rightarrow> (address \<Rightarrow> tx \<Rightarrow> go_error + tx option) \<Rightarrow> address \<Rightarrow> bytes
     \<Rightarrow> address \<Rightarrow> tx \<Rightarrow> go_error + tx" where
  "checked_signer L c from originalSigner to data addr utx =
     (let expectedHash = TxHash L (cl_ChainID c) utx in
      attempt (originalSigner addr utx) (\<lambda>res.
      case res of None \<Rightarrow> Inl (Proto SignerReturnedNil) | Some stx \<Rightarrow>
        reject (tx_ChainId stx \<noteq> uint (cl_ChainID c)) (Proto TxChainMismatch)
       (attempt (wrap_err (Wrap ''recover transaction sender'' \<circ> Lib) (TxSender L (cl_ChainID c) stx)) (\<lambda>sender.
        reject (sender \<noteq> from) (Proto TxSenderMismatch)
       (reject (expectedHash \<noteq> TxHash L (cl_ChainID c) stx \<or> tx_To stx \<noteq> Some to \<or>
            tx_Value stx \<noteq> 0 \<or> tx_Data stx \<noteq> data) (Proto TxContentsChanged)
       (Inr stx))))))"

record transact_result =
  tr_tx :: "tx option"
  tr_err :: "go_error option"
  tr_sent :: "tx list"

definition failed :: "go_error \<Rightarrow> transact_result" where
  "failed e = \<lparr>tr_tx = None, tr_err = Some e, tr_sent = []\<rparr>"

definition transact ::
  "chainlib \<Rightarrow> rpc \<Rightarrow> client \<Rightarrow> transact_opts option \<Rightarrow> address \<Rightarrow> bytes \<Rightarrow> transact_result" where
  "transact L r c opts to data = (case copyOpts opts of Inl e \<Rightarrow> failed e | Inr local \<Rightarrow>
     (case (the (opts_Context local)) 0 of Some e \<Rightarrow> failed (CtxError e) | None \<Rightarrow>
       let noSend = opts_NoSend local;
           local = local\<lparr>opts_NoSend := True\<rparr>;
           signer = checked_signer L c (opts_From local) (the (opts_Signer local)) to data
       in case RawTransact L local to data signer of
            (Inl e, sent) \<Rightarrow> \<lparr>tr_tx = None, tr_err = Some (ParseRevert L e), tr_sent = sent\<rparr>
          | (Inr t, sent) \<Rightarrow>
              if noSend then \<lparr>tr_tx = Some t, tr_err = None, tr_sent = sent\<rparr>
              else \<lparr>tr_tx = Some t, tr_err = map_option (ParseRevert L) (SendTransaction r t), tr_sent = sent @ [t]\<rparr>))"

definition UpdateFrameBySig ::
  "chainlib \<Rightarrow> rpc \<Rightarrow> client \<Rightarrow> transact_opts option \<Rightarrow> signed_frame \<Rightarrow> transact_result" where
  "UpdateFrameBySig L r c opts v = (case validateSigned (eth L) v of Inl e \<Rightarrow> failed (Proto e) | Inr _ \<Rightarrow>
     (case PackContract L ''updateFrameBySig'' [VFrame (sf_Frame v), VAddr (sf_Maker v), VBytes (sf_Signature v)] of
        Inl e \<Rightarrow> failed (Lib e) | Inr data \<Rightarrow> transact L r c opts (cl_Proxy c) data))"

definition ApproveToken ::
  "chainlib \<Rightarrow> rpc \<Rightarrow> client \<Rightarrow> transact_opts option \<Rightarrow> address \<Rightarrow> int option \<Rightarrow> transact_result" where
  "ApproveToken L r c opts token amount =
     (if token = 0 then failed (Proto TokenZero)
      else case uint256 ''approval amount'' amount False of Inl e \<Rightarrow> failed (Proto (PUint256 e)) | Inr _ \<Rightarrow>
        (case PackToken L ''approve'' [VAddr (cl_Proxy c), VInt (the amount)] of
           Inl e \<Rightarrow> failed (Lib e) | Inr data \<Rightarrow> transact L r c opts token data))"

definition swap_call ::
  "chainlib \<Rightarrow> rpc \<Rightarrow> client \<Rightarrow> transact_opts option \<Rightarrow> swap_method \<Rightarrow> swap_params \<Rightarrow> transact_result" where
  "swap_call L r c opts method params = (case EncodeSwapCall L method params of Inl e \<Rightarrow> failed e
     | Inr data \<Rightarrow> transact L r c opts (cl_Proxy c) data)"

definition Swap :: "chainlib \<Rightarrow> rpc \<Rightarrow> client \<Rightarrow> transact_opts option \<Rightarrow> swap_params \<Rightarrow> transact_result" where
  "Swap L r c opts params = swap_call L r c opts MethodSwap params"

definition SwapExactIn :: "chainlib \<Rightarrow> rpc \<Rightarrow> client \<Rightarrow> transact_opts option \<Rightarrow> swap_params \<Rightarrow> transact_result" where
  "SwapExactIn L r c opts params = swap_call L r c opts MethodSwapExactIn params"

subsection \<open>read.go\<close>

record pair_config =
  pc_BaseToken :: address
  pc_QuoteToken :: address
  pc_PriceTickSize :: int
  pc_LotSize :: int
  pc_Active :: bool
  pc_FeeToken :: address
  pc_FeeRate :: u32

text \<open>A read of the proxy: the \<open>k\<close>-th contract call of the operation, and its decoding.\<close>

definition read_proxy ::
  "chainlib \<Rightarrow> rpc \<Rightarrow> client \<Rightarrow> nat \<Rightarrow> string \<Rightarrow> abi_val list \<Rightarrow> int option \<Rightarrow> nat \<Rightarrow> go_error + abi_val list" where
  "read_proxy L r c k method args block arity =
     attempt (wrap_err Lib (PackContract L method args)) (\<lambda>data.
     attempt (wrap_err (ParseRevert L)
        (CallContract r k \<lparr>msg_From = 0, msg_To = cl_Proxy c, msg_Data = data\<rparr> block)) (\<lambda>raw.
     attempt (wrap_err (Wrap ''decode'' \<circ> Lib) (UnpackContract L method raw)) (\<lambda>vs.
     reject (length vs \<noteq> arity) (Proto (Malformed method)) (Inr vs))))"

definition bad_uint128 :: "int \<Rightarrow> bool" where
  "bad_uint128 n \<longleftrightarrow> n \<le> 0 \<or> BitLen n > 128"

definition PairConfig ::
  "chainlib \<Rightarrow> rpc \<Rightarrow> client \<Rightarrow> nat \<Rightarrow> ctx option \<Rightarrow> u32 \<Rightarrow> int option \<Rightarrow> go_error + pair_config" where
  "PairConfig L r c k cx pairID block =
     attempt (validateBlock cx block) (\<lambda>_.
     reject (pairID = 0) (Proto PPairIDZero)
    (attempt (read_proxy L r c k ''pairConfigs'' [VU32 pairID] block 7) (\<lambda>vs.
     attempt (as_addr (vs ! 0)) (\<lambda>base. attempt (as_addr (vs ! 1)) (\<lambda>quote.
     attempt (as_int (vs ! 2)) (\<lambda>tick. attempt (as_int (vs ! 3)) (\<lambda>lot.
     attempt (as_bool (vs ! 4)) (\<lambda>active. attempt (as_addr (vs ! 5)) (\<lambda>feeToken.
     reject (base = 0 \<or> quote = 0 \<or> base = quote) (Proto PairTokensInvalid)
    (reject (bad_uint128 tick \<or> bad_uint128 lot) (Proto PairScales)
    (attempt (as_int (vs ! 6)) (\<lambda>feeRate.
     reject (\<not> (0 \<le> feeRate \<and> BitLen feeRate \<le> 64) \<or> feeRate \<ge> uint PPMDenominator) (Proto PairFeeRate)
    (let rate = (word_of_int feeRate :: u32) in
     reject ((rate = 0) \<noteq> (feeToken = 0) \<or> (feeToken \<noteq> 0 \<and> feeToken \<noteq> base \<and> feeToken \<noteq> quote)) (Proto PairFeeToken)
    (Inr \<lparr>pc_BaseToken = base, pc_QuoteToken = quote, pc_PriceTickSize = tick, pc_LotSize = lot,
          pc_Active = active, pc_FeeToken = feeToken, pc_FeeRate = rate\<rparr>))))))))))))))"

definition FeeRecipient ::
  "chainlib \<Rightarrow> rpc \<Rightarrow> client \<Rightarrow> nat \<Rightarrow> ctx option \<Rightarrow> int option \<Rightarrow> go_error + address" where
  "FeeRecipient L r c k cx block =
     attempt (validateBlock cx block) (\<lambda>_.
     attempt (read_proxy L r c k ''feeRecipient'' [] block 1) (\<lambda>vs. as_addr (vs ! 0)))"

definition EffectivePairConfig ::
  "chainlib \<Rightarrow> rpc \<Rightarrow> client \<Rightarrow> ctx option \<Rightarrow> u32 \<Rightarrow> int option \<Rightarrow> go_error + pair_config" where
  "EffectivePairConfig L r c cx pairID block =
     attempt (validateBlock cx block) (\<lambda>_.
     reject (pairID = 0) (Proto PPairIDZero)
    (attempt (case block of Some b \<Rightarrow> Inr b
        | None \<Rightarrow> attempt (wrap_err (Wrap ''read latest block number'') (BlockNumber r)) (\<lambda>n. Inr (uint n))) (\<lambda>b.
     attempt (PairConfig L r c 0 cx pairID (Some b)) (\<lambda>cfg.
     attempt (FeeRecipient L r c 1 cx (Some b)) (\<lambda>recipient.
     Inr (if recipient = 0 then cfg\<lparr>pc_FeeToken := 0, pc_FeeRate := 0\<rparr> else cfg))))))"

definition ReadGlobalDecayConfig ::
  "chainlib \<Rightarrow> rpc \<Rightarrow> client \<Rightarrow> ctx option \<Rightarrow> int option \<Rightarrow> go_error + global_decay_config" where
  "ReadGlobalDecayConfig L r c cx block =
     attempt (validateBlock cx block) (\<lambda>_.
     attempt (read_proxy L r c 0 ''globalDecayConfig'' [] block 4) (\<lambda>vs.
     attempt (as_u32 (vs ! 0)) (\<lambda>a. attempt (as_u32 (vs ! 1)) (\<lambda>b.
     attempt (as_u32 (vs ! 2)) (\<lambda>m. attempt (as_u32 (vs ! 3)) (\<lambda>p.
     let cfg = \<lparr>DecayStartOffsetSeconds = a, DecayEndOffsetSeconds = b, MaxAge = m, MaxDecayPpm = p\<rparr> in
     attempt (wrap_err (Proto \<circ> DecayConfig) (Validate cfg)) (\<lambda>_. Inr cfg)))))))"

definition Allowance ::
  "chainlib \<Rightarrow> rpc \<Rightarrow> client \<Rightarrow> ctx option \<Rightarrow> address \<Rightarrow> address \<Rightarrow> go_error + int" where
  "Allowance L r c cx token owner =
     attempt (validateBlock cx None) (\<lambda>_.
     reject (token = 0 \<or> owner = 0) (Proto TokenZero)
    (attempt (wrap_err Lib (PackToken L ''allowance'' [VAddr owner, VAddr (cl_Proxy c)])) (\<lambda>data.
     attempt (wrap_err (ParseRevert L)
        (CallContract r 0 \<lparr>msg_From = 0, msg_To = token, msg_Data = data\<rparr> None)) (\<lambda>raw.
     attempt (wrap_err (Wrap ''decode allowance'' \<circ> Lib) (UnpackToken L ''allowance'' raw)) (\<lambda>vs.
     reject (length vs \<noteq> 1) (Proto (Malformed ''allowance result''))
    (as_int (vs ! 0)))))))"

subsection \<open>receipt.go\<close>

record eth_log =
  log_Address :: address
  log_Topics :: "bytes list"
  log_Data :: bytes
  log_Removed :: bool

record receipt =
  rc_Success :: bool
  rc_Logs :: "eth_log option list"

record swap_event =
  ev_Sender :: address
  ev_TokenIn :: address
  ev_TokenOut :: address
  ev_AmountIn :: int
  ev_AmountOut :: int
  ev_PairID :: u32
  ev_Maker :: address
  ev_Recipient :: address
  ev_Raw :: eth_log

text \<open>What \<open>WaitReceipt\<close> observes in its n-th round: \<open>ctx.Err\<close>, the answer of
  \<open>TransactionReceipt\<close> (None is a nil receipt without an error), and whether the context ended the wait before the timer fired.\<close>

record wait_obs =
  wo_ctx :: "nat \<Rightarrow> ctx_error option"
  wo_receipt :: "nat \<Rightarrow> go_error + receipt option"
  wo_done :: "nat \<Rightarrow> ctx_error option"

fun is_NotFound :: "go_error \<Rightarrow> bool" where
  "is_NotFound NotFound = True"
| "is_NotFound (Wrap _ e) = is_NotFound e"
| "is_NotFound (Revert _ _ _ e) = is_NotFound e"
| "is_NotFound _ = False"

partial_function (option) wait_loop :: "wait_obs \<Rightarrow> nat \<Rightarrow> (go_error + receipt option) option" where
  "wait_loop obs n = (case wo_ctx obs n of Some e \<Rightarrow> Some (Inl (CtxError e)) | None \<Rightarrow>
     (case wo_receipt obs n of Inr rc \<Rightarrow> Some (Inr rc)
      | Inl e \<Rightarrow>
          if \<not> is_NotFound e then Some (Inl e)
          else (case wo_done obs n of Some ce \<Rightarrow> Some (Inl (CtxError ce)) | None \<Rightarrow> wait_loop obs (Suc n))))"

definition WaitReceipt :: "ctx option \<Rightarrow> bytes \<Rightarrow> wait_obs \<Rightarrow> (go_error + receipt option) option" where
  "WaitReceipt cx txHash obs =
     (if cx = None then Some (Inl (Proto PContextNil))
      else if txHash = replicate 32 0 then Some (Inl (Proto TxHashZero))
      else wait_loop obs 0)"

definition decoded_val :: "(string \<rightharpoonup> abi_val) \<Rightarrow> string \<Rightarrow> go_error + abi_val" where
  "decoded_val m k = (case m k of None \<Rightarrow> Inl (Proto TypeAssertion) | Some v \<Rightarrow> Inr v)"

definition decode_log :: "chainlib \<Rightarrow> nat \<Rightarrow> eth_log \<Rightarrow> go_error + swap_event" where
  "decode_log L i lg =
     reject (log_Removed lg) (Proto (LogRemoved i))
    (reject (length (log_Topics lg) \<noteq> 4 \<or> length (log_Data lg) \<noteq> 5 * 32) (Proto (LogMalformed i))
    (attempt (wrap_err (Wrap ''decode Swap log'' \<circ> Lib) (UnpackSwapData L (log_Data lg))) (\<lambda>m1.
     attempt (wrap_err (Wrap ''decode Swap topics'' \<circ> Lib) (ParseSwapTopics L (tl (log_Topics lg)))) (\<lambda>m2.
     let m = m1 ++ m2; addr = (\<lambda>k. attempt (decoded_val m k) as_addr); num = (\<lambda>k. attempt (decoded_val m k) as_int) in
     attempt (addr ''sender'') (\<lambda>sender. attempt (addr ''tokenIn'') (\<lambda>tokenIn.
     attempt (addr ''tokenOut'') (\<lambda>tokenOut. attempt (num ''amountIn'') (\<lambda>amountIn.
     attempt (num ''amountOut'') (\<lambda>amountOut. attempt (attempt (decoded_val m ''pairId'') as_u32) (\<lambda>pairId.
     attempt (addr ''maker'') (\<lambda>maker. attempt (addr ''recipient'') (\<lambda>recipient.
     Inr \<lparr>ev_Sender = sender, ev_TokenIn = tokenIn, ev_TokenOut = tokenOut, ev_AmountIn = amountIn,
          ev_AmountOut = amountOut, ev_PairID = pairId, ev_Maker = maker, ev_Recipient = recipient,
          ev_Raw = lg\<rparr>))))))))))))"

definition is_swap_log :: "chainlib \<Rightarrow> client \<Rightarrow> eth_log option \<Rightarrow> bool" where
  "is_swap_log L c lo = (case lo of None \<Rightarrow> False | Some lg \<Rightarrow>
     log_Address lg = cl_Proxy c \<and> log_Topics lg \<noteq> [] \<and> hd (log_Topics lg) = SwapEventID L)"

fun parse_logs :: "chainlib \<Rightarrow> client \<Rightarrow> nat \<Rightarrow> eth_log option list \<Rightarrow> swap_event list \<Rightarrow> go_error + swap_event list" where
  "parse_logs L c i [] result = Inr result"
| "parse_logs L c i (lo # los) result =
     (if \<not> is_swap_log L c lo then parse_logs L c (Suc i) los result
      else attempt (decode_log L i (the lo)) (\<lambda>ev. parse_logs L c (Suc i) los (result @ [ev])))"

definition ParseSwapReceipt :: "chainlib \<Rightarrow> client \<Rightarrow> receipt option \<Rightarrow> go_error + swap_event list" where
  "ParseSwapReceipt L c ro = (case ro of None \<Rightarrow> Inl (Proto ReceiptNil) | Some rc \<Rightarrow>
     reject (\<not> rc_Success rc) (Proto ReceiptFailed)
    (parse_logs L c 0 (rc_Logs rc) []))"

end
