(* ===== verification/Protocol_Properties.thy ===== *)
theory Protocol_Properties
  imports Protocol_Client
begin

text \<open>
  What the on-chain client guarantees: a transaction it returns or broadcasts is exactly the call
  that was asked for, receipts are waited for until the first decisive answer, revert data is found
  with bounded work on any heap, and parsed swap events come from the client's own proxy.
\<close>

subsection \<open>Transactions\<close>

text \<open>The documented behaviour of \<open>bind.RawTransact\<close>: what it returns was returned by the signer it was
  given, called for the sender of the options, and with \<open>NoSend\<close> set it broadcasts nothing itself.\<close>

definition honours_no_send :: "chainlib \<Rightarrow> bool" where
  "honours_no_send L \<longleftrightarrow> (\<forall>o' to data sg. opts_NoSend o' \<longrightarrow> snd (RawTransact L o' to data sg) = [])"

definition returns_signed :: "chainlib \<Rightarrow> bool" where
  "returns_signed L \<longleftrightarrow> honours_no_send L \<and>
     (\<forall>o' to data sg t. fst (RawTransact L o' to data sg) = Inr t \<longrightarrow> (\<exists>u. sg (opts_From o') u = Inr t))"

definition call_tx :: "chainlib \<Rightarrow> client \<Rightarrow> address \<Rightarrow> address \<Rightarrow> bytes \<Rightarrow> tx \<Rightarrow> bool" where
  "call_tx L c from to data t \<longleftrightarrow> tx_ChainId t = uint (cl_ChainID c) \<and> TxSender L (cl_ChainID c) t = Inr from \<and>
     tx_To t = Some to \<and> tx_Value t = 0 \<and> tx_Data t = data"

lemma checked_signer_Inr:
  "checked_signer L c from sg to data a u = Inr t \<Longrightarrow> call_tx L c from to data t \<and>
     TxHash L (cl_ChainID c) u = TxHash L (cl_ChainID c) t"
  by (auto simp: checked_signer_def Let_def attempt_Inr call_tx_def split: option.splits)

lemma copyOpts_Inr:
  "copyOpts os = Inr l \<Longrightarrow> \<exists>o'. os = Some o' \<and> opts_From l = opts_From o' \<and> opts_From o' \<noteq> 0 \<and>
     opts_NoSend l = opts_NoSend o' \<and> (opts_Value o' = None \<or> opts_Value o' = Some 0)"
  by (auto simp: copyOpts_def split: option.splits)

lemma transact_call:
  assumes "returns_signed L" and "t \<in> set (tr_sent (transact L r c opts to data)) \<or> tr_tx (transact L r c opts to data) = Some t"
  shows "\<exists>o'. opts = Some o' \<and> call_tx L c (opts_From o') to data t \<and>
    tr_tx (transact L r c opts to data) = Some t \<and>
    tr_sent (transact L r c opts to data) = (if opts_NoSend o' then [] else [t])"
proof -
  obtain l where l: "copyOpts opts = Inr l"
    using assms(2) by (cases "copyOpts opts") (auto simp: transact_def failed_def)
  then obtain o' where o: "opts = Some o'" "opts_From l = opts_From o'" "opts_NoSend l = opts_NoSend o'"
    using copyOpts_Inr by blast
  let ?sg = "checked_signer L c (opts_From l) (the (opts_Signer l)) to data"
  have quiet: "snd (RawTransact L (l\<lparr>opts_NoSend := True\<rparr>) to data sg) = []" for sg
    using assms(1) by (simp add: returns_signed_def honours_no_send_def)
  have r: "fst (RawTransact L (l\<lparr>opts_NoSend := True\<rparr>) to data ?sg) = Inr t"
    and res: "tr_tx (transact L r c opts to data) = Some t"
      "tr_sent (transact L r c opts to data) = (if opts_NoSend l then [] else [t])"
    using assms(2) l quiet [of ?sg]
    by (auto simp: transact_def failed_def Let_def split: option.splits sum.splits prod.splits if_splits)
  then obtain u where "?sg (opts_From l) u = Inr t"
    using assms(1) unfolding returns_signed_def by fastforce
  then show ?thesis using checked_signer_Inr o res by metis
qed

lemma transact_sent_call:
  assumes "returns_signed L" and "t \<in> set (tr_sent (transact L r c (Some o') to data))"
  shows "call_tx L c (opts_From o') to data t" "tr_sent (transact L r c (Some o') to data) = [t]"
  using transact_call [OF assms(1) disjI1 [OF assms(2)]] assms(2) by (auto split: if_splits)

text \<open>C10: a transaction that \<open>transact\<close> returns or broadcasts is the requested call and nothing else:
  for the client's chain, recovered to the sender of the options, with the requested destination and
  calldata and no native value. At most that one transaction is broadcast, and none with \<open>NoSend\<close>; a
  broadcast failure still returns it.\<close>

theorem transact_only_the_call:
  assumes "returns_signed L" and "t \<in> set (tr_sent (transact L r c opts to data)) \<or> tr_tx (transact L r c opts to data) = Some t"
  shows "\<exists>o'. opts = Some o' \<and> call_tx L c (opts_From o') to data t \<and>
    tr_tx (transact L r c opts to data) = Some t \<and>
    tr_sent (transact L r c opts to data) = (if opts_NoSend o' then [] else [t])"
  using transact_call [OF assms] .

definition echo_lib :: chainlib where
  "echo_lib = \<lparr>eth = toy_lib, PackContract = (\<lambda>m args. Inr [1, 2, 3, 4]), UnpackContract = (\<lambda>m b. Inr []),
     PackToken = (\<lambda>m args. Inr []), UnpackToken = (\<lambda>m b. Inr []), ErrorByID = (\<lambda>b. None),
     UnpackRevert = (\<lambda>b. Inl []), HexDecode = (\<lambda>s. None), node_of = (\<lambda>n. if n = 0 then DMap [''data'' \<mapsto> 0, ''result'' \<mapsto> 1]
       else DBytes [9, 9, 9, 9]),
     TxHash = (\<lambda>c t. tx_Data t), TxSender = (\<lambda>c t. Inr 5),
     RawTransact = (\<lambda>o' to data sg. let res = sg (opts_From o') \<lparr>tx_ChainId = 1, tx_To = Some to, tx_Value = 0, tx_Data = data, tx_Rest = []\<rparr>
       in (res, case res of Inr t \<Rightarrow> if opts_NoSend o' then [] else [t] | Inl _ \<Rightarrow> [])),
     SwapEventID = replicate 32 7, UnpackSwapData = (\<lambda>b. Inl []), ParseSwapTopics = (\<lambda>ts. Inl [])\<rparr>"

definition silent_rpc :: rpc where
  "silent_rpc = \<lparr>RpcChainID = Inr (Some 1), BlockNumber = Inr 100, CallContract = (\<lambda>k m b. Inr []),
     SendTransaction = (\<lambda>t. Some (Lib ''timeout''))\<rparr>"

definition sample_client :: client where
  "sample_client = \<lparr>cl_ChainID = 1, cl_Proxy = 0xC3\<rparr>"

definition sample_opts :: transact_opts where
  "sample_opts = \<lparr>opts_From = 5, opts_Signer = Some (\<lambda>a t. Inr (Some (t\<lparr>tx_Rest := [1]\<rparr>))), opts_Nonce = None,
     opts_Value = None, opts_GasPrice = None, opts_GasFeeCap = None, opts_GasTipCap = None, opts_AccessList = None,
     opts_Context = None, opts_NoSend = False\<rparr>"

lemma echo_returns_signed: "returns_signed echo_lib"
  by (auto simp: returns_signed_def honours_no_send_def echo_lib_def Let_def split: sum.splits)

lemma sample_transact:
  "transact echo_lib silent_rpc sample_client (Some sample_opts) 0xC3 [1, 2, 3, 4] =
     \<lparr>tr_tx = Some \<lparr>tx_ChainId = 1, tx_To = Some 0xC3, tx_Value = 0, tx_Data = [1, 2, 3, 4], tx_Rest = [1]\<rparr>,
      tr_err = Some (Lib ''timeout''),
      tr_sent = [\<lparr>tx_ChainId = 1, tx_To = Some 0xC3, tx_Value = 0, tx_Data = [1, 2, 3, 4], tx_Rest = [1]\<rparr>]\<rparr>"
  by (simp add: transact_def copyOpts_def sample_opts_def bad_gas_def cloneInt_def reject_def echo_lib_def
      checked_signer_def sample_client_def silent_rpc_def ParseRevert_def Let_def)

theorem transact_only_the_call_witness:
  "\<exists>t. tr_sent (transact echo_lib silent_rpc sample_client (Some sample_opts) 0xC3 [1, 2, 3, 4]) = [t] \<and>
     tr_err (transact echo_lib silent_rpc sample_client (Some sample_opts) 0xC3 [1, 2, 3, 4]) \<noteq> None \<and>
     call_tx echo_lib sample_client 5 0xC3 [1, 2, 3, 4] t"
  using transact_only_the_call [OF echo_returns_signed, of _ silent_rpc sample_client "Some sample_opts" "0xC3" "[1, 2, 3, 4]"]
  by (simp add: sample_transact) (auto simp: sample_opts_def)

subsection \<open>Receipts\<close>

text \<open>A round that decides nothing: the context is live, the transaction is not yet known and the
  timer fired.\<close>

definition round_pending :: "wait_obs \<Rightarrow> nat \<Rightarrow> bool" where
  "round_pending obs n \<longleftrightarrow> wo_ctx obs n = None \<and> wo_done obs n = None \<and>
     (case wo_receipt obs n of Inl e \<Rightarrow> is_NotFound e | Inr _ \<Rightarrow> False)"

definition round_result :: "wait_obs \<Rightarrow> nat \<Rightarrow> go_error + receipt option" where
  "round_result obs n = (case wo_ctx obs n of Some e \<Rightarrow> Inl (CtxError e) | None \<Rightarrow>
     (case wo_receipt obs n of Inr rc \<Rightarrow> Inr rc
      | Inl e \<Rightarrow> if is_NotFound e then Inl (CtxError (the (wo_done obs n))) else Inl e))"

lemma wait_loop_step:
  "wait_loop obs n = (if round_pending obs n then wait_loop obs (Suc n) else Some (round_result obs n))"
  by (subst wait_loop.simps) (auto simp: round_pending_def round_result_def split: option.splits sum.splits)

lemma wait_loop_decides:
  assumes "\<forall>k. m \<le> k \<and> k < n \<longrightarrow> round_pending obs k" "m \<le> n" "\<not> round_pending obs n"
  shows "wait_loop obs m = Some (round_result obs n)"
  using assms
proof (induction "n - m" arbitrary: m)
  case 0
  then show ?case by (subst wait_loop_step) simp
next
  case (Suc d)
  then have "round_pending obs m" by simp
  moreover have "wait_loop obs (Suc m) = Some (round_result obs n)"
    using Suc.hyps(2) Suc.prems by (intro Suc.hyps(1)) auto
  ultimately show ?case by (subst wait_loop_step) simp
qed

lemma wait_loop_returned:
  assumes "wait_loop obs n = Some y"
  shows "\<exists>m\<ge>n. \<not> round_pending obs m"
  using _ assms
proof (rule wait_loop.raw_induct)
  fix wl obs n y
  assume IH: "\<And>obs n y. wl obs n = Some y \<Longrightarrow> \<exists>m\<ge>n. \<not> round_pending obs m"
    and r: "(case wo_ctx obs n of None \<Rightarrow> (case wo_receipt obs n of
          Inl e \<Rightarrow> if \<not> is_NotFound e then Some (Inl e)
            else (case wo_done obs n of None \<Rightarrow> wl obs (Suc n) | Some ce \<Rightarrow> Some (Inl (CtxError ce)))
        | Inr rc \<Rightarrow> Some (Inr rc)) | Some e \<Rightarrow> Some (Inl (CtxError e))) = Some y"
  show "\<exists>m\<ge>n. \<not> round_pending obs m"
  proof (cases "round_pending obs n")
    case True
    then have "wl obs (Suc n) = Some y"
      using r by (auto simp: round_pending_def split: option.splits sum.splits if_splits)
    with IH obtain m where "Suc n \<le> m" "\<not> round_pending obs m" by blast
    then show ?thesis by (meson Suc_leD)
  qed auto
qed

text \<open>C36: with a context and a nonzero hash, \<open>WaitReceipt\<close> returns exactly when some round is decisive, and then returns the result of the
  first one: the receipt, a failed receipt included, the first error that is not a missing
  transaction, or the context's error. While every round answers that the transaction is unknown it
  keeps waiting.\<close>

theorem wait_receipt_first_decisive:
  assumes "txHash \<noteq> replicate 32 0"
  shows "((\<exists>y. WaitReceipt (Some ctx) txHash obs = Some y) \<longleftrightarrow> (\<exists>n. \<not> round_pending obs n)) \<and>
    (\<forall>n. \<not> round_pending obs n \<and> (\<forall>k<n. round_pending obs k) \<longrightarrow>
       WaitReceipt (Some ctx) txHash obs = Some (round_result obs n))"
proof -
  have w: "WaitReceipt (Some ctx) txHash obs = wait_loop obs 0" using assms by (simp add: WaitReceipt_def)
  have first: "wait_loop obs 0 = Some (round_result obs n)" if "\<not> round_pending obs n" "\<forall>k<n. round_pending obs k" for n
    using wait_loop_decides [of 0 n obs] that by simp
  have "\<exists>y. wait_loop obs 0 = Some y" if n: "\<not> round_pending obs n" for n
  proof -
    obtain m where "\<not> round_pending obs m" "\<forall>k<m. round_pending obs k"
      using n exists_least_iff [of "\<lambda>m. \<not> round_pending obs m"] by auto
    then show ?thesis using first by blast
  qed
  then show ?thesis using w first wait_loop_returned by metis
qed

definition third_round :: wait_obs where
  "third_round = \<lparr>wo_ctx = (\<lambda>_. None), wo_receipt = (\<lambda>n. if n < 2 then Inl NotFound else Inr (Some \<lparr>rc_Success = False, rc_Logs = []\<rparr>)),
     wo_done = (\<lambda>_. None)\<rparr>"

theorem wait_receipt_first_decisive_witness:
  "WaitReceipt (Some never_done) [1] third_round = Some (Inr (Some \<lparr>rc_Success = False, rc_Logs = []\<rparr>))"
proof -
  have "\<not> round_pending third_round 2" "\<forall>k<2. round_pending third_round k"
    by (auto simp: round_pending_def third_round_def)
  moreover have "[1] \<noteq> replicate 32 (0 :: u8)" by (metis length_replicate list.size(3,4) One_nat_def add_0 num.distinct(1) one_eq_numeral_iff)
  moreover have "round_result third_round 2 = Inr (Some \<lparr>rc_Success = False, rc_Logs = []\<rparr>)"
    by (simp add: round_result_def third_round_def)
  ultimately show ?thesis using wait_receipt_first_decisive [of "[1]" never_done third_round] by auto
qed

text \<open>The positions and contents of the proxy's own \<open>Swap\<close> logs.\<close>

definition swap_logs :: "chainlib \<Rightarrow> client \<Rightarrow> nat \<Rightarrow> eth_log option list \<Rightarrow> (nat \<times> eth_log option) list" where
  "swap_logs L c i los = filter (\<lambda>(k, lo). is_swap_log L c lo) (zip [i..<i + length los] los)"

lemma swap_logs_Cons:
  "swap_logs L c i (lo # los) = (if is_swap_log L c lo then (i, lo) # swap_logs L c (Suc i) los else swap_logs L c (Suc i) los)"
  by (simp add: swap_logs_def upt_conv_Cons del: upt_Suc)

lemma parse_logs_iff:
  "parse_logs L c i los acc = Inr out \<longleftrightarrow>
     (\<exists>evs. out = acc @ evs \<and> list_all2 (\<lambda>(k, lo) ev. decode_log L k (the lo) = Inr ev) (swap_logs L c i los) evs)"
proof (induction los arbitrary: i acc)
  case (Cons lo los)
  show ?case
    by (auto simp: Cons.IH swap_logs_Cons attempt_Inr list_all2_Cons1)
qed (auto simp: swap_logs_def)

lemma decode_log_raw: "decode_log L k lg = Inr ev \<Longrightarrow> ev_Raw ev = lg \<and> \<not> log_Removed lg"
  by (auto simp: decode_log_def attempt_Inr Let_def)

text \<open>the events of a receipt are, in order and without omission, the decoded \<open>Swap\<close> logs emitted
  by the client's proxy: each event's raw log has the proxy's address and the event's topic and was not
  removed, logs of other emitters contribute nothing, and one malformed matching log fails the whole
  parse.\<close>

theorem receipt_events_exact:
  "ParseSwapReceipt L c (Some rc) = Inr evs \<longleftrightarrow> rc_Success rc \<and>
     list_all2 (\<lambda>(k, lo) ev. decode_log L k (the lo) = Inr ev \<and> ev_Raw ev = the lo \<and>
        log_Address (ev_Raw ev) = cl_Proxy c \<and> hd (log_Topics (ev_Raw ev)) = SwapEventID L \<and>
        \<not> log_Removed (ev_Raw ev)) (swap_logs L c 0 (rc_Logs rc)) evs"
proof -
  let ?P = "\<lambda>(k, lo) ev. decode_log L k (the lo) = Inr ev"
    and ?Q = "\<lambda>(k, lo) ev. decode_log L k (the lo) = Inr ev \<and> ev_Raw ev = the lo \<and>
        log_Address (ev_Raw ev) = cl_Proxy c \<and> hd (log_Topics (ev_Raw ev)) = SwapEventID L \<and>
        \<not> log_Removed (ev_Raw ev)"
  have "?P x ev \<longleftrightarrow> ?Q x ev" if "x \<in> set (swap_logs L c 0 (rc_Logs rc))" for x ev
    using that decode_log_raw [of L "fst x" "the (snd x)" ev]
    by (auto simp: swap_logs_def is_swap_log_def split: option.splits)
  then have "list_all2 ?P (swap_logs L c 0 (rc_Logs rc)) evs \<longleftrightarrow> list_all2 ?Q (swap_logs L c 0 (rc_Logs rc)) evs"
    by (intro list.rel_cong) auto
  then show ?thesis by (simp add: ParseSwapReceipt_def parse_logs_iff)
qed

subsection \<open>Revert data\<close>

text \<open>A value is found at the root or below one of the three keys.\<close>

inductive found_below :: "chainlib \<Rightarrow> data_node \<Rightarrow> data_node \<Rightarrow> bool" for L where
  here: "found_below L v v"
| below: "m k = Some r \<Longrightarrow> k \<in> {''data'', ''return'', ''result''} \<Longrightarrow> found_below L (node_of L r) w \<Longrightarrow>
    found_below L (DMap m) w"

declare nestedRevertBytes.simps [simp del]

lemma revert_found:
  shows "snd (fst (nestedRevertBytes L v n)) \<Longrightarrow>
      \<exists>w. found_below L v w \<and> revert_leaf L w = fst (nestedRevertBytes L v n) \<and> snd (revert_leaf L w)"
    and "snd (fst (revert_keys L m ks n)) \<Longrightarrow> set ks \<subseteq> {''data'', ''return'', ''result''} \<Longrightarrow>
      \<exists>w. found_below L (DMap m) w \<and> revert_leaf L w = fst (revert_keys L m ks n) \<and> snd (revert_leaf L w)"
proof (induction L v n and L m ks n rule: nestedRevertBytes_revert_keys.induct)
  case (1 L v n)
  then show ?case
    by (cases v) (auto simp: nestedRevertBytes.simps split: if_splits intro!: found_below.here)
next
  case (3 L m k ks n)
  show ?case
  proof (cases "m k")
    case None
    then show ?thesis using 3 by simp
  next
    case (Some r)
    show ?thesis
    proof (cases "snd (fst (nestedRevertBytes L (node_of L r) n))")
      case True
      with 3(2) [OF Some] obtain w where "found_below L (node_of L r) w"
          "revert_leaf L w = fst (nestedRevertBytes L (node_of L r) n)" "snd (revert_leaf L w)" by blast
      moreover have "found_below L (DMap m) w"
        using found_below.below [of m k r L w] Some 3(5) calculation(1) by simp
      ultimately show ?thesis using Some True by (auto simp: Let_def)
    next
      case False
      with 3(3) [OF Some refl] 3(4,5) Some show ?thesis by (simp add: Let_def)
    qed
  qed
qed simp

text \<open>The value reached by following \<open>data\<close> \<open>d\<close> times.\<close>

inductive data_chain :: "chainlib \<Rightarrow> nat \<Rightarrow> data_node \<Rightarrow> data_node \<Rightarrow> bool" for L where
  zero: "data_chain L 0 v v"
| next_key: "m ''data'' = Some r \<Longrightarrow> data_chain L d (node_of L r) w \<Longrightarrow> data_chain L (Suc d) (DMap m) w"

lemma data_chain_found:
  "data_chain L d v w \<Longrightarrow> snd (revert_leaf L w) \<Longrightarrow> d < n \<Longrightarrow> fst (nestedRevertBytes L v n) = revert_leaf L w"
proof (induction arbitrary: n rule: data_chain.induct)
  case (zero v)
  then show ?case by (cases v) (simp_all add: nestedRevertBytes.simps revert_leaf_def)
next
  case (next_key m r d w)
  then have "fst (nestedRevertBytes L (node_of L r) (n - 1)) = revert_leaf L w" by simp
  then show ?case using next_key by (subst nestedRevertBytes.simps) (simp add: Let_def)
qed

text \<open>C37: the search for revert data ends on every heap, cyclic or shared; bytes it returns are the
  payload, at least four bytes, of a value below the keys \<open>data\<close>, \<open>return\<close> and \<open>result\<close>, and a payload
  nested at most 31 deep under \<open>data\<close> is always the one returned.\<close>

theorem revert_bytes_found:
  "(snd (revertBytes L v) \<longrightarrow> (\<exists>w. found_below L v w \<and> revert_leaf L w = revertBytes L v) \<and> 4 \<le> length (fst (revertBytes L v))) \<and>
   (\<forall>d w. data_chain L d v w \<and> d \<le> 31 \<and> snd (revert_leaf L w) \<longrightarrow> revertBytes L v = revert_leaf L w)"
proof -
  have "snd (revert_leaf L w) \<Longrightarrow> 4 \<le> length (fst (revert_leaf L w))" for w
    by (auto simp: revert_leaf_def split: data_node.splits option.splits)
  then show ?thesis
    unfolding revertBytes_def using revert_found(1) [of L v 32] data_chain_found [of L _ v _ 32] by fastforce
qed

theorem revert_bytes_found_witness:
  "revertBytes echo_lib (DMap [''data'' \<mapsto> 1]) = ([9, 9, 9, 9], True)"
proof -
  let ?v = "DMap [''data'' \<mapsto> 1]" and ?w = "DBytes [9, 9, 9, 9]"
  have "data_chain echo_lib 1 ?v ?w"
    using data_chain.next_key [OF _ data_chain.zero, of "[''data'' \<mapsto> 1]" 1 echo_lib] by (simp add: echo_lib_def)
  moreover have l: "revert_leaf echo_lib ?w = ([9, 9, 9, 9], True)" by (simp add: revert_leaf_def)
  ultimately have "data_chain echo_lib 1 ?v ?w \<and> (1 :: nat) \<le> 31 \<and> snd (revert_leaf echo_lib ?w)" by simp
  then have "revertBytes echo_lib ?v = revert_leaf echo_lib ?w"
    using revert_bytes_found [of echo_lib ?v] by blast
  then show ?thesis using l by simp
qed

text \<open>parsing an error is idempotent, keeps the original error as the cause, and returns an error
  that was already parsed unchanged.\<close>

theorem parse_revert_idempotent:
  "ParseRevert L (ParseRevert L e) = ParseRevert L e \<and>
   (ParseRevert L e = e \<or> (\<exists>name args data. ParseRevert L e = Revert name args data e \<and> 4 \<le> length data))"
proof -
  have "ParseRevert L e = e \<or> (\<exists>name args data. ParseRevert L e = Revert name args data e \<and> 4 \<le> length data)"
    by (auto simp: ParseRevert_def not_less split: option.splits sum.splits prod.splits)
  moreover have "ParseRevert L (Revert name args data d) = Revert name args data d" for name args data d
    by (simp add: ParseRevert_def)
  ultimately show ?thesis by metis
qed

end
