(* ===== verification/Router_Swap.thy ===== *)
theory Router_Swap
  imports Router_Quote Protocol_Properties
begin

text \<open>
  Where the router and the maker meet the on-chain client: \<open>pkg/router/swap.go\<close> builds swap
  parameters and calldata from a market frame, and \<open>pkg/maker/maker.go\<close>'s \<open>SubmitFrameUpdate\<close> signs a
  decimal quote and submits it directly.
\<close>

subsection \<open>pkg/router/swap.go\<close>

datatype swap_error =
    SwapFrameRequired
  | SwapWordLength
  | SwapTokens
  | SwapProtocol go_error

definition normalize_v :: "bytes \<Rightarrow> bytes" where
  "normalize_v sig = (if length sig = 65 \<and> sig ! 64 < 2 then sig[64 := sig ! 64 + 27] else sig)"

definition buildSwap ::
  "chainlib \<Rightarrow> hexlib \<Rightarrow> swap_method \<Rightarrow> market_frame option \<Rightarrow> address \<Rightarrow> address \<Rightarrow> int option \<Rightarrow> int option
     \<Rightarrow> address \<Rightarrow> swap_error + swap_params \<times> bytes" where
  "buildSwap L H method v tokenIn tokenOut amountIn minAmountOut recipient =
     (case v of None \<Rightarrow> Inl SwapFrameRequired | Some m \<Rightarrow>
     (case (mf_Pair m, mf_Frame m) of (Some pair, Some f) \<Rightarrow>
       reject (length (pcf_Header f) \<noteq> 32 \<or> length (pcf_BidLevels f) \<noteq> 32 \<or> length (pcf_AskLevels f) \<noteq> 32) SwapWordLength
      (let base = HexToAddress H (pk_BaseToken pair);
           quote = HexToAddress H (pk_QuoteToken pair);
           sell = (tokenIn = base \<and> tokenOut = quote);
           buy = (tokenIn = quote \<and> tokenOut = base)
       in reject (tokenIn = 0 \<or> tokenOut = 0 \<or> tokenIn = tokenOut \<or> (\<not> sell \<and> \<not> buy)) SwapTokens
      (let sgd = \<lparr>sf_Frame = \<lparr>Header = pcf_Header f, BidLevels = pcf_BidLevels f, AskLevels = pcf_AskLevels f\<rparr>,
                  sf_Maker = HexToAddress H (mf_MakerAddr m), sf_Signature = normalize_v (mf_Signature m)\<rparr>;
           params = \<lparr>sp_PairID = pk_PairId pair, sp_IsBuy = buy, sp_AmountIn = amountIn,
                     sp_MinAmountOut = minAmountOut, sp_Maker = sf_Maker sgd, sp_Recipient = recipient,
                     sp_PriceUpdates = [sgd]\<rparr>
       in attempt (wrap_err SwapProtocol (EncodeSwapCall L method params)) (\<lambda>calldata.
          Inr (params\<lparr>sp_AmountIn := cloneInt amountIn, sp_MinAmountOut := cloneInt minAmountOut\<rparr>, calldata))))
      | _ \<Rightarrow> Inl SwapFrameRequired))"

definition BuildSwap ::
  "chainlib \<Rightarrow> hexlib \<Rightarrow> market_frame option \<Rightarrow> address \<Rightarrow> address \<Rightarrow> int option \<Rightarrow> int option \<Rightarrow> address
     \<Rightarrow> swap_error + swap_params \<times> bytes" where
  "BuildSwap L H = buildSwap L H MethodSwap"

definition BuildSwapExactIn ::
  "chainlib \<Rightarrow> hexlib \<Rightarrow> market_frame option \<Rightarrow> address \<Rightarrow> address \<Rightarrow> int option \<Rightarrow> int option \<Rightarrow> address
     \<Rightarrow> swap_error + swap_params \<times> bytes" where
  "BuildSwapExactIn L H = buildSwap L H MethodSwapExactIn"

subsection \<open>pkg/maker/maker.go: SubmitFrameUpdate\<close>

datatype submit_error =
    MakerNil
  | ClientRequired
  | SubmitOpts
  | SubmitCtx ctx_error
  | QuoteChainMismatch
  | QuoteProtocolMismatch
  | SubmitQuote quote_error
  | SubmitFrame frame_error
  | SubmitProtocol go_error

text \<open>The transaction, the error and what was broadcast. \<open>ctx.Err\<close> is called first here, then by
  \<open>SignFrame\<close> and by \<open>transact\<close>.\<close>

record submit_result =
  sr_tx :: "tx option"
  sr_err :: "submit_error option"
  sr_sent :: "tx list"

definition submit_failed :: "submit_error \<Rightarrow> submit_result" where
  "submit_failed e = \<lparr>sr_tx = None, sr_err = Some e, sr_sent = []\<rparr>"

definition shift_ctx :: "nat \<Rightarrow> ctx \<Rightarrow> ctx" where
  "shift_ctx n ctx = (\<lambda>k. ctx (n + k))"

definition sign_quote :: "chainlib \<Rightarrow> ctx \<Rightarrow> publish_params \<Rightarrow> submit_error + signed_frame" where
  "sign_quote L ctx params =
     attempt (wrap_err SubmitQuote (quoteSpec params)) (\<lambda>spec.
     attempt (wrap_err SubmitFrame (PrepareSigningPayload (eth L) spec)) (\<lambda>p.
     wrap_err SubmitFrame (SignFrame (eth L) (Some ctx) (pay_Domain p) (pay_Maker p) (pay_Frame p) (pub_Signer params))))"

definition SubmitFrameUpdate ::
  "chainlib \<Rightarrow> rpc \<Rightarrow> bool \<Rightarrow> client option \<Rightarrow> transact_opts option \<Rightarrow> publish_params \<Rightarrow> submit_result" where
  "SubmitFrameUpdate L r makerNil co os params =
     (if makerNil then submit_failed MakerNil
      else case co of None \<Rightarrow> submit_failed ClientRequired | Some c \<Rightarrow>
        if cl_ChainID c = 0 \<or> cl_Proxy c = 0 then submit_failed ClientRequired
        else case os of None \<Rightarrow> submit_failed SubmitOpts | Some opts \<Rightarrow>
          if opts_Signer opts = None \<or> opts_From opts = 0 then submit_failed SubmitOpts
          else
            let ctx = (case opts_Context opts of None \<Rightarrow> (\<lambda>_. None) | Some x \<Rightarrow> x) in
            case ctx 0 of Some e \<Rightarrow> submit_failed (SubmitCtx e) | None \<Rightarrow>
              if pub_ChainID params \<noteq> cl_ChainID c then submit_failed QuoteChainMismatch
              else if pub_Protocol params \<noteq> cl_Proxy c then submit_failed QuoteProtocolMismatch
              else (case sign_quote L (shift_ctx 1 ctx) params of Inl e \<Rightarrow> submit_failed e | Inr v \<Rightarrow>
                let res = UpdateFrameBySig L r c (Some (opts\<lparr>opts_Context := map_option (shift_ctx 3) (opts_Context opts)\<rparr>)) v
                in \<lparr>sr_tx = tr_tx res, sr_err = map_option SubmitProtocol (tr_err res), sr_sent = tr_sent res\<rparr>))"

subsection \<open>Accepted updates\<close>

lemma validateSigned_Inr:
  "validateSigned L v = Inr u \<longleftrightarrow> sf_Maker v \<noteq> 0 \<and> (\<exists>d. decodeCompactFrame (sf_Frame v) = Inr d) \<and>
     normal_sig L (sf_Signature v)"
proof -
  have "(\<exists>n. NormalizeSignature L sig = Inr n) \<and> (sig ! 64 = 27 \<or> sig ! 64 = 28) \<longleftrightarrow> normal_sig L sig" for sig
  proof
    assume a: "(\<exists>n. NormalizeSignature L sig = Inr n) \<and> (sig ! 64 = 27 \<or> sig ! 64 = 28)"
    then have "NormalizeSignature L sig = Inr sig" by (auto simp: NormalizeSignature_Inr update_same)
    then show "normal_sig L sig" by (simp add: NormalizeSignature_Inr)
  qed (use NormalizeSignature_normal in \<open>auto simp: normal_sig_def\<close>)
  then show ?thesis
    by (auto simp: validateSigned_def attempt_Inr ValidateCompactFrame_Inr)
qed

lemma EncodeSwapCall_Inr:
  assumes "EncodeSwapCall L method p = Inr data"
  shows "sp_PairID p \<noteq> 0 \<and> (\<exists>a. sp_AmountIn p = Some a \<and> 0 < a \<and> a < 2 ^ 256) \<and>
    (\<exists>b. sp_MinAmountOut p = Some b \<and> 0 \<le> b \<and> b < 2 ^ 256) \<and> sp_Maker p \<noteq> 0 \<and> sp_Recipient p \<noteq> 0 \<and>
    (\<forall>v\<in>set (sp_PriceUpdates p). validateSigned (eth L) v = Inr ()) \<and>
    PackContract L (method_name method) [VU32 (sp_PairID p), VBool (sp_IsBuy p), VInt (the (sp_AmountIn p)),
      VInt (the (sp_MinAmountOut p)), VAddr (sp_Maker p), VAddr (sp_Recipient p), VFrames (sp_PriceUpdates p)] = Inr data"
proof -
  have "validateUpdates L' i vs = Inr u \<Longrightarrow> \<forall>v\<in>set vs. validateSigned L' v = Inr ()" for L' i vs u
    by (induction vs arbitrary: i) (auto simp: attempt_Inr)
  then show ?thesis
    using assms by (auto simp: EncodeSwapCall_def attempt_Inr uint256_Inr)
qed

lemma normalize_v_agrees:
  assumes "normal_sig L (normalize_v sig)"
  shows "NormalizeSignature L sig = Inr (normalize_v sig)"
proof (cases "length sig = 65 \<and> sig ! 64 < 2")
  case True
  have "sig ! 64 = 0 \<or> sig ! 64 = 1"
  proof -
    have "unat (sig ! 64) < 2" using True by (simp add: word_less_nat_alt)
    then have "unat (sig ! 64) = 0 \<or> unat (sig ! 64) = 1" by linarith
    then show ?thesis by (auto simp: word_unat_eq_iff)
  qed
  then show ?thesis using True assms by (auto simp: NormalizeSignature_Inr normalize_v_def)
next
  case False
  then have "normalize_v sig = sig" by (auto simp: normalize_v_def)
  then show ?thesis using assms by simp
qed

subsection \<open>Properties\<close>

text \<open>C15: swap parameters and calldata are only built around one canonical signed update, and the calldata
  is the packed call with exactly these arguments: the frame's pair id, the direction given by the
  two tokens (which are the frame's base and quote token in one of the two orders), the caller's amounts (a positive
  and a nonnegative uint256), the frame's maker, the caller's recipient and the frame's own three
  words, which decode, with the signature \<open>NormalizeSignature\<close> makes of the frame's signature.
  The returned parameters carry the same values.\<close>

theorem build_swap_canonical:
  assumes "buildSwap L H method v tokenIn tokenOut amountIn minOut recipient = Inr (params, data)"
  shows "\<exists>m pair f u a b. v = Some m \<and> mf_Pair m = Some pair \<and> mf_Frame m = Some f \<and> amountIn = Some a \<and> minOut = Some b \<and>
    0 < a \<and> a < 2 ^ 256 \<and> 0 \<le> b \<and> b < 2 ^ 256 \<and> pk_PairId pair \<noteq> 0 \<and> sf_Maker u \<noteq> 0 \<and> recipient \<noteq> 0 \<and>
    tokenIn \<noteq> 0 \<and> tokenOut \<noteq> 0 \<and> tokenIn \<noteq> tokenOut \<and>
    {tokenIn, tokenOut} = {HexToAddress H (pk_BaseToken pair), HexToAddress H (pk_QuoteToken pair)} \<and>
    sf_Frame u = \<lparr>Header = pcf_Header f, BidLevels = pcf_BidLevels f, AskLevels = pcf_AskLevels f\<rparr> \<and>
    frame_arrays (sf_Frame u) \<and> (\<exists>d. decodeCompactFrame (sf_Frame u) = Inr d) \<and> sf_Maker u = HexToAddress H (mf_MakerAddr m) \<and>
    NormalizeSignature (eth L) (mf_Signature m) = Inr (sf_Signature u) \<and> sf_Signature u ! 64 \<in> {27, 28} \<and>
    params = \<lparr>sp_PairID = pk_PairId pair, sp_IsBuy = (tokenIn = HexToAddress H (pk_QuoteToken pair)), sp_AmountIn = Some a,
      sp_MinAmountOut = Some b, sp_Maker = sf_Maker u, sp_Recipient = recipient, sp_PriceUpdates = [u]\<rparr> \<and>
    PackContract L (method_name method) [VU32 (pk_PairId pair), VBool (tokenIn = HexToAddress H (pk_QuoteToken pair)), VInt a, VInt b,
      VAddr (sf_Maker u), VAddr recipient, VFrames [u]] = Inr data"
proof -
  obtain m pair f where m: "v = Some m" "mf_Pair m = Some pair" "mf_Frame m = Some f"
    using assms by (auto simp: buildSwap_def split: option.splits)
  define u where "u = \<lparr>sf_Frame = \<lparr>Header = pcf_Header f, BidLevels = pcf_BidLevels f, AskLevels = pcf_AskLevels f\<rparr>,
      sf_Maker = HexToAddress H (mf_MakerAddr m), sf_Signature = normalize_v (mf_Signature m)\<rparr>"
  let ?base = "HexToAddress H (pk_BaseToken pair)" and ?quote = "HexToAddress H (pk_QuoteToken pair)"
  define p where "p = \<lparr>sp_PairID = pk_PairId pair, sp_IsBuy = (tokenIn = ?quote \<and> tokenOut = ?base), sp_AmountIn = amountIn,
      sp_MinAmountOut = minOut, sp_Maker = sf_Maker u, sp_Recipient = recipient, sp_PriceUpdates = [u]\<rparr>"
  have b: "length (pcf_Header f) = 32" "length (pcf_BidLevels f) = 32" "length (pcf_AskLevels f) = 32"
      "tokenIn \<noteq> 0" "tokenOut \<noteq> 0" "tokenIn \<noteq> tokenOut" "tokenIn = ?base \<and> tokenOut = ?quote \<or> tokenIn = ?quote \<and> tokenOut = ?base"
    and call: "EncodeSwapCall L method p = Inr data"
    and params: "params = p\<lparr>sp_AmountIn := cloneInt amountIn, sp_MinAmountOut := cloneInt minOut\<rparr>"
    using assms by (auto simp: buildSwap_def m Let_def attempt_Inr p_def u_def)
  have dir: "(tokenIn = ?quote \<and> tokenOut = ?base) = (tokenIn = ?quote)" using b(6,7) by auto
  note e = EncodeSwapCall_Inr [OF call]
  then have sg: "validateSigned (eth L) u = Inr ()" by (simp add: p_def)
  then have "normal_sig (eth L) (normalize_v (mf_Signature m))" by (simp add: validateSigned_Inr u_def)
  note nv = normalize_v_agrees [OF this] this
  obtain x y where xy: "amountIn = Some x" "minOut = Some y" using e by (auto simp: p_def)
  have "cloneInt z = z" for z by (simp add: cloneInt_def split: option.splits)
  then have prm: "params = \<lparr>sp_PairID = pk_PairId pair, sp_IsBuy = (tokenIn = ?quote), sp_AmountIn = Some x, sp_MinAmountOut = Some y,
      sp_Maker = sf_Maker u, sp_Recipient = recipient, sp_PriceUpdates = [u]\<rparr>"
    by (simp add: params p_def xy dir)
  have e': "pk_PairId pair \<noteq> 0" "0 < x" "x < 2 ^ 256" "0 \<le> y" "y < 2 ^ 256" "sf_Maker u \<noteq> 0" "recipient \<noteq> 0"
      "PackContract L (method_name method) [VU32 (pk_PairId pair), VBool (tokenIn = ?quote), VInt x, VInt y,
        VAddr (sf_Maker u), VAddr recipient, VFrames [u]] = Inr data"
    using e by (simp_all add: p_def xy dir)
  have u: "sf_Frame u = \<lparr>Header = pcf_Header f, BidLevels = pcf_BidLevels f, AskLevels = pcf_AskLevels f\<rparr>" "frame_arrays (sf_Frame u)"
      "\<exists>d. decodeCompactFrame (sf_Frame u) = Inr d" "sf_Maker u = HexToAddress H (mf_MakerAddr m)"
      "NormalizeSignature (eth L) (mf_Signature m) = Inr (sf_Signature u)" "sf_Signature u ! 64 \<in> {27, 28}"
    using b(1-3) sg nv by (simp_all add: u_def frame_arrays_def validateSigned_Inr normal_sig_def)
  have "{tokenIn, tokenOut} = {?base, ?quote}" using b(7) by auto
  then show ?thesis using m xy b(4-6) e' u prm by blast
qed

lemma toy_normal_sig: "normal_sig toy_lib (replicate 64 9 @ [28])"
  using toy_normalize NormalizeSignature_Inr by blast

definition market_with :: "compact_frame \<Rightarrow> market_frame" where
  "market_with f = sample_market\<lparr>mf_Frame := Some \<lparr>pcf_Header = Header f, pcf_BidLevels = BidLevels f,
     pcf_AskLevels = AskLevels f, pcf_unknown = []\<rparr>, mf_Signature := replicate 64 9 @ [1]\<rparr>"

lemma toy_buildSwap:
  assumes "frame_arrays f" "decodeCompactFrame f = Inr d" "0 < a" "a < 2 ^ 256" "0 \<le> b" "b < 2 ^ 256" "recipient \<noteq> 0"
  shows "\<exists>p data. buildSwap echo_lib any_hex MethodSwap (Some (market_with f)) 0xA1 0xB2 (Some a) (Some b) recipient = Inr (p, data)"
proof -
  have n: "normalize_v (replicate 64 9 @ [1]) = replicate 64 9 @ [28]" by (simp add: normalize_v_def nth_append list_update_append)
  have "validateSigned toy_lib \<lparr>sf_Frame = f, sf_Maker = 0xB2, sf_Signature = replicate 64 9 @ [28]\<rparr> = Inr ()"
    using assms(1,2) toy_normal_sig by (auto simp: validateSigned_Inr)
  moreover have "\<not> BitLen a > 256" "\<not> BitLen b > 256" "\<not> a \<le> 0" "\<not> a < 0" "\<not> b < 0" using assms(3-6) by (simp_all add: BitLen_gt)
  ultimately show ?thesis
    using assms(1,7)
    by (cases f) (simp add: buildSwap_def market_with_def sample_market_def any_hex_def n frame_arrays_def
        EncodeSwapCall_def uint256_def reject_def echo_lib_def Let_def)
qed

theorem build_swap_canonical_witness:
  "\<exists>f p u data. buildSwap echo_lib any_hex MethodSwap (Some (market_with f)) 0xA1 0xB2 (Some 5) (Some 0) 3 = Inr (p, data) \<and>
     \<not> sp_IsBuy p \<and> sp_AmountIn p = Some 5 \<and> sp_PriceUpdates p = [u] \<and> sf_Frame u = f \<and> sf_Signature u ! 64 \<in> {27, 28}"
proof -
  obtain f where f: "frame_arrays f" "decodeCompactFrame f = Inr (decoded_of sample_spec)" using sample_frame by blast
  then obtain p data where b: "buildSwap echo_lib any_hex MethodSwap (Some (market_with f)) 0xA1 0xB2 (Some 5) (Some 0) 3 = Inr (p, data)"
    using toy_buildSwap [OF f, of 5 0 3] by auto
  from build_swap_canonical [OF b] obtain u where "\<not> sp_IsBuy p" "sp_AmountIn p = Some 5" "sp_PriceUpdates p = [u]" "sf_Frame u = f"
      "sf_Signature u ! 64 \<in> {27, 28}"
    by (auto simp: market_with_def sample_market_def any_hex_def)
  with b show ?thesis by blast
qed

lemma EffectivePairConfig_usable:
  assumes "EffectivePairConfig L r c cx pairID block = Inr cfg"
  shows "\<exists>b stored recipient. (block = Some b \<or> block = None \<and> (\<exists>n. BlockNumber r = Inr n \<and> b = uint n)) \<and>
    PairConfig L r c 0 cx pairID (Some b) = Inr stored \<and> FeeRecipient L r c 1 cx (Some b) = Inr recipient \<and>
    cfg = (if recipient = 0 then stored\<lparr>pc_FeeToken := 0, pc_FeeRate := 0\<rparr> else stored) \<and>
    (let pair = \<lparr>pp_PairID = pairID, pp_BaseToken = pc_BaseToken cfg, pp_QuoteToken = pc_QuoteToken cfg,
           pp_BaseDecimals = bd, pp_QuoteDecimals = qd, pp_PriceTickSize = Some (pc_PriceTickSize cfg),
           pp_LotSize = Some (pc_LotSize cfg)\<rparr>;
         qc = \<lparr>qc_Pair = pair, qc_FeeToken = pc_FeeToken cfg, qc_FeeRatePPM = pc_FeeRate cfg,
           qc_DecayStartOffsetSeconds = age\<rparr>
     in ValidatePair pair = Inr () \<and> \<not> quote_fees_bad qc \<and>
        pc_FeeToken cfg \<in> {0, pc_BaseToken cfg, pc_QuoteToken cfg})"
proof -
  obtain b stored recipient where s: "block = Some b \<or> block = None \<and> (\<exists>n. BlockNumber r = Inr n \<and> b = uint n)"
      "pairID \<noteq> 0" "PairConfig L r c 0 cx pairID (Some b) = Inr stored" "FeeRecipient L r c 1 cx (Some b) = Inr recipient"
      "cfg = (if recipient = 0 then stored\<lparr>pc_FeeToken := 0, pc_FeeRate := 0\<rparr> else stored)"
    using assms by (auto simp: EffectivePairConfig_def attempt_Inr split: option.splits)
  have u32: "uint (word_of_int n :: u32) = n" if "0 \<le> n" "n < 1000000" for n
    using that by (simp add: unsigned_of_int take_bit_int_eq_self)
  have p: "pc_BaseToken stored \<noteq> 0" "pc_QuoteToken stored \<noteq> 0" "pc_BaseToken stored \<noteq> pc_QuoteToken stored"
      "\<not> bad_uint128 (pc_PriceTickSize stored)" "\<not> bad_uint128 (pc_LotSize stored)"
      "(pc_FeeRate stored = 0) = (pc_FeeToken stored = 0)" "uint (pc_FeeRate stored) < 1000000"
      "pc_FeeToken stored \<in> {0, pc_BaseToken stored, pc_QuoteToken stored}"
    using s(3) by (auto simp: PairConfig_def attempt_Inr Let_def PPMDenominator_def u32)
  then show ?thesis
    using s by (intro exI [of _ b] exI [of _ stored] exI [of _ recipient])
      (auto simp: Let_def ValidatePair_def bad_scale_def bad_uint128_def quote_fees_bad_def quotePPM_def)
qed

text \<open>the effective pair configuration is read at one block for both reads (the latest one resolved
  once when none is given), has its fee cleared exactly when the recipient is zero, and gives a quote
  configuration that passes all of the pair and fee checks of \<open>Quote\<close>.\<close>

theorem effective_config_usable:
  assumes "EffectivePairConfig L r c cx pairID block = Inr cfg"
  shows "\<exists>b stored recipient. (block = Some b \<or> block = None \<and> (\<exists>n. BlockNumber r = Inr n \<and> b = uint n)) \<and>
    PairConfig L r c 0 cx pairID (Some b) = Inr stored \<and> FeeRecipient L r c 1 cx (Some b) = Inr recipient \<and>
    cfg = (if recipient = 0 then stored\<lparr>pc_FeeToken := 0, pc_FeeRate := 0\<rparr> else stored) \<and>
    (let pair = \<lparr>pp_PairID = pairID, pp_BaseToken = pc_BaseToken cfg, pp_QuoteToken = pc_QuoteToken cfg,
           pp_BaseDecimals = bd, pp_QuoteDecimals = qd, pp_PriceTickSize = Some (pc_PriceTickSize cfg),
           pp_LotSize = Some (pc_LotSize cfg)\<rparr>;
         qc = \<lparr>qc_Pair = pair, qc_FeeToken = pc_FeeToken cfg, qc_FeeRatePPM = pc_FeeRate cfg,
           qc_DecayStartOffsetSeconds = age\<rparr>
     in ValidatePair pair = Inr () \<and> \<not> quote_fees_bad qc \<and>
        pc_FeeToken cfg \<in> {0, pc_BaseToken cfg, pc_QuoteToken cfg})"
  by (rule EffectivePairConfig_usable [OF assms])

definition config_lib :: chainlib where
  "config_lib = echo_lib\<lparr>UnpackContract := (\<lambda>m b. if m = ''pairConfigs''
     then Inr [VAddr 0xA1, VAddr 0xB2, VInt 10000, VInt 1000, VBool True, VAddr 0xB2, VInt 3000]
     else Inr [VAddr 0])\<rparr>"

lemma sample_effective:
  "EffectivePairConfig config_lib silent_rpc sample_client (Some never_done) 7 None =
     Inr \<lparr>pc_BaseToken = 0xA1, pc_QuoteToken = 0xB2, pc_PriceTickSize = 10000, pc_LotSize = 1000, pc_Active = True,
       pc_FeeToken = 0, pc_FeeRate = 0\<rparr>"
  by (simp add: EffectivePairConfig_def validateBlock_def silent_rpc_def PairConfig_def FeeRecipient_def read_proxy_def
      config_lib_def echo_lib_def reject_def as_addr_def as_int_def as_bool_def bad_uint128_def BitLen_gt BitLen_le
      PPMDenominator_def Let_def)

theorem effective_config_usable_witness:
  "\<exists>stored. PairConfig config_lib silent_rpc sample_client 0 (Some never_done) 7 (Some 100) = Inr stored \<and>
     FeeRecipient config_lib silent_rpc sample_client 1 (Some never_done) (Some 100) = Inr 0"
  using effective_config_usable [OF sample_effective, where bd = 18 and qd = 6 and age = 5]
  by (auto simp: silent_rpc_def split: if_splits) (simp_all add: FeeRecipient_def read_proxy_def validateBlock_def
      config_lib_def echo_lib_def as_addr_def silent_rpc_def reject_def)

text \<open>C16: a direct frame update broadcasts only the quote that was asked for: under the documented
  behaviour of \<open>RawTransact\<close>, the one transaction sent is the \<open>updateFrameBySig\<close> call to the client's
  proxy, its frame is the encoding of the rounded quote, and its signature verifies for the quote's
  signer in the domain of that chain and proxy.\<close>

theorem submit_sends_signed_quote:
  assumes "returns_signed L" and "t \<in> set (sr_sent (SubmitFrameUpdate L r nil co os params))"
  shows "\<exists>c opts spec f s sig data. co = Some c \<and> os = Some opts \<and> quoteSpec params = Inr spec \<and>
    encodeCompactFrame spec = Inr f \<and> pub_Signer params = LiveSigner s \<and>
    VerifySignature (eth L) \<lparr>dom_ChainID = cl_ChainID c, dom_Protocol = cl_Proxy c\<rparr>
      \<lparr>sf_Frame = f, sf_Maker = pub_Maker params, sf_Signature = sig\<rparr> (signer_Address s) = Inr () \<and>
    PackContract L ''updateFrameBySig'' [VFrame f, VAddr (pub_Maker params), VBytes sig] = Inr data \<and>
    call_tx L c (opts_From opts) (cl_Proxy c) data t \<and>
    sr_sent (SubmitFrameUpdate L r nil co os params) = [t]"
proof -
  obtain c opts ctx v where c: "co = Some c" "os = Some opts" "pub_ChainID params = cl_ChainID c"
      "pub_Protocol params = cl_Proxy c" and v: "sign_quote L (shift_ctx 1 ctx) params = Inr v"
    and sent: "sr_sent (SubmitFrameUpdate L r nil co os params) =
      tr_sent (UpdateFrameBySig L r c (Some (opts\<lparr>opts_Context := map_option (shift_ctx 3) (opts_Context opts)\<rparr>)) v)"
    using assms(2)
    by (auto simp: SubmitFrameUpdate_def submit_failed_def Let_def split: if_splits option.splits sum.splits)
  let ?opts = "opts\<lparr>opts_Context := map_option (shift_ctx 3) (opts_Context opts)\<rparr>"
  obtain data where data: "PackContract L ''updateFrameBySig'' [VFrame (sf_Frame v), VAddr (sf_Maker v), VBytes (sf_Signature v)] = Inr data"
      "sr_sent (SubmitFrameUpdate L r nil co os params) = tr_sent (transact L r c (Some ?opts) (cl_Proxy c) data)"
    using assms(2) sent by (auto simp: UpdateFrameBySig_def failed_def split: sum.splits)
  then have t: "t \<in> set (tr_sent (transact L r c (Some ?opts) (cl_Proxy c) data))" using assms(2) by simp
  have call: "call_tx L c (opts_From opts) (cl_Proxy c) data t"
      "tr_sent (transact L r c (Some ?opts) (cl_Proxy c) data) = [t]"
    using transact_sent_call [OF assms(1) t] by auto
  obtain spec p where sp: "quoteSpec params = Inr spec" "PrepareSigningPayload (eth L) spec = Inr p"
      "SignFrame (eth L) (Some (shift_ctx 1 ctx)) (pay_Domain p) (pay_Maker p) (pay_Frame p) (pub_Signer params) = Inr v"
    using v by (auto simp: sign_quote_def attempt_Inr)
  then obtain f where f: "encodeCompactFrame spec = Inr f"
      "pay_Domain p = \<lparr>dom_ChainID = fs_ChainID spec, dom_Protocol = fs_Protocol spec\<rparr>" "pay_Maker p = fs_Maker spec"
      "pay_Frame p = f"
    by (auto simp: PrepareSigningPayload_Inr Let_def)
  have spec: "fs_ChainID spec = pub_ChainID params" "fs_Protocol spec = pub_Protocol params" "fs_Maker spec = pub_Maker params"
    using sp(1) by (auto simp: quoteSpec_Inr spec_from_def Let_def)
  from sp(3) [unfolded SignFrame_Inr] obtain s n where
      "pub_Signer params = LiveSigner s" "v = \<lparr>sf_Frame = f, sf_Maker = pub_Maker params, sf_Signature = n\<rparr>"
      "VerifySignature (eth L) \<lparr>dom_ChainID = cl_ChainID c, dom_Protocol = cl_Proxy c\<rparr>
      \<lparr>sf_Frame = f, sf_Maker = pub_Maker params, sf_Signature = n\<rparr> (signer_Address s) = Inr ()"
    using f spec c by (auto simp: VerifySignature_normalized)
  then show ?thesis using c sp(1) f(1) data call by auto
qed

lemma toy_sign_quote: "\<exists>v. sign_quote echo_lib (shift_ctx 1 (\<lambda>_. None)) sample_params = Inr v \<and> validateSigned toy_lib v = Inr ()"
proof -
  obtain spec where q: "quoteSpec sample_params = Inr spec" using sample_quoteSpec ..
  then obtain bids asks where qf: "quoted_from sample_params bids asks" "spec = spec_from sample_params bids asks"
    by (auto simp: quoteSpec_Inr)
  obtain f where f: "encodeCompactFrame spec = Inr f" using encodeCompactFrame_ok quoteSpec_valid qf by blast
  then have d: "decodeCompactFrame f = Inr (decoded_of spec)" by (simp add: encodeCompactFrame_iff)
  have sp: "fs_ChainID spec = 1" "fs_Protocol spec = 0xC3" "fs_Maker spec = 0xD4" "fs_Pair spec = sample_pair"
    by (simp_all add: qf(2) spec_from_def Let_def sample_params_def)
  let ?dm = "\<lparr>dom_ChainID = 1, dom_Protocol = 0xC3\<rparr>"
  have p: "PrepareSigningPayload toy_lib spec = Inr \<lparr>pay_Domain = ?dm, pay_Maker = 0xD4, pay_Frame = f, pay_Digest = digest toy_lib ?dm 0xD4 f\<rparr>"
    using f sample_pair_valid by (simp add: PrepareSigningPayload_Inr sp Let_def sample_spec_def)
  have "recovers toy_lib dg (replicate 64 9 @ [28]) 9" for dg by (rule toy_recovers)
  then have "SignFrame toy_lib (Some (shift_ctx 1 (\<lambda>_. None))) ?dm 0xD4 f (LiveSigner toy_signer) =
      Inr \<lparr>sf_Frame = f, sf_Maker = 0xD4, sf_Signature = replicate 64 9 @ [28]\<rparr>"
    using d toy_normalize by (simp add: SignFrame_Inr shift_ctx_def toy_signer_def signable_def)
  moreover have "validateSigned toy_lib \<lparr>sf_Frame = f, sf_Maker = 0xD4, sf_Signature = replicate 64 9 @ [28]\<rparr> = Inr ()"
    using d toy_normal_sig by (simp add: validateSigned_Inr)
  moreover have "eth echo_lib = toy_lib" "pub_Signer sample_params = LiveSigner toy_signer"
    by (simp_all add: echo_lib_def sample_params_def)
  ultimately show ?thesis using q p by (simp add: sign_quote_def)
qed

lemma toy_submit:
  "\<exists>t. t \<in> set (sr_sent (SubmitFrameUpdate echo_lib silent_rpc False (Some sample_client) (Some sample_opts) sample_params))"
proof -
  obtain v where v: "sign_quote echo_lib (shift_ctx 1 (\<lambda>_. None)) sample_params = Inr v" "validateSigned toy_lib v = Inr ()"
    using toy_sign_quote by blast
  have e: "eth echo_lib = toy_lib" "PackContract echo_lib m args = Inr [1, 2, 3, 4]" for m args by (simp_all add: echo_lib_def)
  have o: "opts_Context sample_opts = None" "opts_Signer sample_opts \<noteq> None" "opts_From sample_opts = 5"
      "sample_opts\<lparr>opts_Context := None\<rparr> = sample_opts"
    by (simp_all add: sample_opts_def)
  have c: "cl_ChainID sample_client = 1" "cl_Proxy sample_client = 0xC3" "pub_ChainID sample_params = 1" "pub_Protocol sample_params = 0xC3"
    by (simp_all add: sample_client_def sample_params_def)
  show ?thesis
    using v o(2) by (auto simp: SubmitFrameUpdate_def o(1,3,4) c UpdateFrameBySig_def e sample_transact)
qed

theorem submit_sends_signed_quote_witness:
  "\<exists>t spec f. sr_sent (SubmitFrameUpdate echo_lib silent_rpc False (Some sample_client) (Some sample_opts) sample_params) = [t] \<and>
     quoteSpec sample_params = Inr spec \<and> encodeCompactFrame spec = Inr f"
  using toy_submit submit_sends_signed_quote [OF echo_returns_signed, of _ silent_rpc False "Some sample_client" "Some sample_opts" sample_params]
  by blast

end
