(* ===== verification/Go_JSON.thy ===== *)
theory Go_JSON
  imports Go_Library
begin

text \<open>
  What the Listing client uses of Go's \<open>encoding/json\<close> and \<open>net/url\<close>: decoding of an already
  tokenized value into integers, strings, booleans, maps and slices with the rules for null,
  duplicate keys and mismatched types, the case-insensitive matching of struct fields, and the
  splitting, joining and unescaping of query strings. A \<open>json.RawMessage\<close> is the value it holds;
  a number keeps its literal.
\<close>

datatype json =
    JNull
  | JBool bool
  | JNumber string
  | JString string
  | JArray "json list"
  | JObject "(string \<times> json) list"

text \<open>Into an unsigned integer of \<open>bits\<close> bits: \<open>strconv.ParseUint\<close> of the literal. Null leaves
  the zero value.\<close>

definition unmarshal_uint :: "nat \<Rightarrow> json \<Rightarrow> string + nat" where
  "unmarshal_uint bits j = (case j of
     JNull \<Rightarrow> Inr 0
   | JNumber lit \<Rightarrow> if lit \<noteq> [] \<and> list_all is_digit lit \<and> digits_val lit < 2 ^ bits then Inr (digits_val lit)
       else Inl ''cannot unmarshal number''
   | _ \<Rightarrow> Inl ''cannot unmarshal into uint'')"

definition unmarshal_string :: "json \<Rightarrow> string + string" where
  "unmarshal_string j = (case j of JNull \<Rightarrow> Inr [] | JString s \<Rightarrow> Inr s | _ \<Rightarrow> Inl ''cannot unmarshal into string'')"

definition unmarshal_bool :: "json \<Rightarrow> string + bool" where
  "unmarshal_bool j = (case j of JNull \<Rightarrow> Inr False | JBool b \<Rightarrow> Inr b | _ \<Rightarrow> Inl ''cannot unmarshal into bool'')"

text \<open>Into \<open>map[string]json.RawMessage\<close>: a nil map for null; of equal keys the last one counts.\<close>

definition unmarshal_map :: "json \<Rightarrow> string + (string \<rightharpoonup> json) option" where
  "unmarshal_map j = (case j of
     JNull \<Rightarrow> Inr None
   | JObject kvs \<Rightarrow> Inr (Some (map_of (rev kvs)))
   | _ \<Rightarrow> Inl ''cannot unmarshal into map'')"

definition unmarshal_slice :: "json \<Rightarrow> string + json list" where
  "unmarshal_slice j = (case j of JNull \<Rightarrow> Inr [] | JArray xs \<Rightarrow> Inr xs | _ \<Rightarrow> Inl ''cannot unmarshal into slice'')"

text \<open>Into \<open>map[string]uint64\<close>: a mismatched element is stored as zero and the error reported.\<close>

definition unmarshal_uint_map :: "json \<Rightarrow> string + (string \<times> nat) list" where
  "unmarshal_uint_map j = (case j of
     JNull \<Rightarrow> Inr []
   | JObject kvs \<Rightarrow>
       if list_all (\<lambda>kv. \<not> isl (unmarshal_uint 64 (snd kv))) kvs
       then Inr (map (\<lambda>(k, v). (k, projr (unmarshal_uint 64 v))) kvs) else Inl ''cannot unmarshal into map''
   | _ \<Rightarrow> Inl ''cannot unmarshal into map'')"

text \<open>\<open>foldName\<close>: ASCII letters to lower case; U+017F and U+212A, as UTF-8, fold to \<open>s\<close> and \<open>k\<close>.\<close>

definition lower_char :: "char \<Rightarrow> char" where
  "lower_char c = (if 65 \<le> (of_char c :: nat) \<and> (of_char c :: nat) \<le> 90 then char_of ((of_char c :: nat) + 32) else c)"

fun fold_name :: "string \<Rightarrow> string" where
  "fold_name (a # b # c # s) =
    (if of_char a = (197 :: nat) \<and> of_char b = (191 :: nat) then CHR ''s'' # fold_name (c # s)
     else if of_char a = (226 :: nat) \<and> of_char b = (132 :: nat) \<and> of_char c = (170 :: nat) then CHR ''k'' # fold_name s
     else lower_char a # fold_name (b # c # s))"
| "fold_name [a, b] = (if of_char a = (197 :: nat) \<and> of_char b = (191 :: nat) then ''s'' else [lower_char a, lower_char b])"
| "fold_name [a] = [lower_char a]"
| "fold_name [] = []"

subsection \<open>net/url and strings\<close>

text \<open>\<open>strings.Split\<close> on a one-byte separator and \<open>strings.Join\<close>.\<close>

fun Split :: "string \<Rightarrow> char \<Rightarrow> string list" where
  "Split [] sep = [[]]"
| "Split (c # s) sep = (if c = sep then [] # Split s sep else
     (case Split s sep of [] \<Rightarrow> [[c]] | p # ps \<Rightarrow> (c # p) # ps))"

fun Join :: "string list \<Rightarrow> char \<Rightarrow> string" where
  "Join [] sep = []"
| "Join [p] sep = p"
| "Join (p # ps) sep = p @ [sep] @ Join ps sep"

text \<open>\<open>url.QueryUnescape\<close>: \<open>%XX\<close> and \<open>+\<close>; None for a malformed escape.\<close>

definition hex_val :: "char \<Rightarrow> nat option" where
  "hex_val c = (let n = (of_char c :: nat) in
     if 48 \<le> n \<and> n \<le> 57 then Some (n - 48)
     else if 97 \<le> n \<and> n \<le> 102 then Some (n - 87)
     else if 65 \<le> n \<and> n \<le> 70 then Some (n - 55) else None)"

fun QueryUnescape :: "string \<Rightarrow> string option" where
  "QueryUnescape [] = Some []"
| "QueryUnescape (c # s) =
    (if c = CHR ''%'' then
       (case s of
          a # b # rest \<Rightarrow>
            (case (hex_val a, hex_val b) of
               (Some x, Some y) \<Rightarrow> map_option (\<lambda>t. char_of (16 * x + y) # t) (QueryUnescape rest)
             | _ \<Rightarrow> None)
        | _ \<Rightarrow> None)
     else map_option (\<lambda>t. (if c = CHR ''+'' then CHR '' '' else c) # t) (QueryUnescape s))"

lemma Split_not_Nil [simp]: "Split s sep \<noteq> []"
  by (induction s) (auto split: list.splits)

lemma Split_no_sep: "p \<in> set (Split s sep) \<Longrightarrow> sep \<notin> set p"
  by (induction s arbitrary: p) (fastforce split: if_splits list.splits)+

lemma Join_Cons: "ps \<noteq> [] \<Longrightarrow> Join (p # ps) sep = p @ [sep] @ Join ps sep"
  by (cases ps) simp_all

lemma Split_piece: "sep \<notin> set p \<Longrightarrow> Split p sep = [p]"
  by (induction p) auto

lemma Split_append: "sep \<notin> set p \<Longrightarrow> Split (p @ sep # s) sep = p # Split s sep"
  by (induction p) auto

lemma Split_Join:
  assumes "ps \<noteq> []" "\<forall>p\<in>set ps. sep \<notin> set p"
  shows "Split (Join ps sep) sep = ps"
  using assms
proof (induction ps)
  case (Cons p ps)
  then show ?case
    by (cases "ps = []") (simp_all add: Join_Cons Split_piece Split_append)
qed simp

lemma Join_Split: "Join (Split s sep) sep = s"
proof (induction s)
  case (Cons c s)
  obtain p ps where s: "Split s sep = p # ps" by (cases "Split s sep") auto
  then show ?case
    using Cons by (cases ps) (auto simp: Join_Cons)
qed simp

lemma Split_Join_append: "Split (s @ sep # t) sep = Split s sep @ Split t sep"
proof (induction s)
  case (Cons c s)
  then show ?case by (cases "Split s sep") auto
qed simp

end
