(* ===== verification/Listing_Client.thy ===== *)
theory Listing_Client
  imports Go_JSON Frame_Codec Wire_Messages
begin

text \<open>
  \<open>pkg/listing\<close>: the HTTP client for chains and pairs. Strict decoding of pair records
  (\<open>decode.go\<close>), the raw sizes and frame parameters (\<open>pair_params.go\<close>), the queries (\<open>pairs.go\<close>,
  \<open>chains.go\<close>), the request with its query and the response envelope (\<open>transport.go\<close>),
  construction (\<open>client.go\<close>, \<open>credentials.go\<close>) and the errors (\<open>errors.go\<close>). The network, URL
  parsing and the JSON tokenizer are seen through the parameter record \<open>netlib\<close>.
\<close>

subsection \<open>errors.go\<close>

datatype listing_error =
    InputError string string
  | ConfigurationError string string int
  | APIError int string string "listing_error option"
  | ResponseError int listing_error
  | ListingContext ctx_error
  | PlainError string
  | GetFailed string

definition configError :: "string \<Rightarrow> string \<Rightarrow> listing_error" where
  "configError field message = ConfigurationError field message 0"

definition invalidResponse :: "int \<Rightarrow> string \<Rightarrow> listing_error" where
  "invalidResponse status reason = ResponseError status (PlainError reason)"

text \<open>\<open>errors.As\<close> for \<open>*ConfigurationError\<close>.\<close>

fun as_ConfigurationError :: "listing_error \<Rightarrow> (string \<times> string) option" where
  "as_ConfigurationError (ConfigurationError f m s) = Some (f, m)"
| "as_ConfigurationError (APIError s c m (Some e)) = as_ConfigurationError e"
| "as_ConfigurationError (ResponseError s e) = as_ConfigurationError e"
| "as_ConfigurationError _ = None"

definition pairResponseError :: "int \<Rightarrow> string \<Rightarrow> listing_error \<Rightarrow> listing_error" where
  "pairResponseError status path err = (case as_ConfigurationError err of
     Some (f, m) \<Rightarrow> ConfigurationError (path @ ''.'' @ f) m status
   | None \<Rightarrow> ResponseError status err)"

subsection \<open>pairs.go, pair_params.go: data and sizes\<close>

record tax =
  tax_Token :: address
  tax_Symbol :: string
  tax_RatePPM :: u32

record listed_pair =
  lp_ChainID :: u64
  lp_PairID :: u32
  lp_BaseToken :: address
  lp_QuoteToken :: address
  lp_BaseSymbol :: string
  lp_QuoteSymbol :: string
  lp_BaseDecimals :: u8
  lp_QuoteDecimals :: u8
  lp_PriceTickSize :: string
  lp_LotSize :: string
  lp_Active :: bool
  lp_Gray :: bool
  lp_Tax :: "tax option"

definition size_message :: string where
  "size_message = ''must be a raw positive uint128 base-10 integer string''"

definition parseRawSize :: "string \<Rightarrow> string \<Rightarrow> listing_error + int" where
  "parseRawSize value name =
    (let bad = configError name size_message; digits = TrimLeft value ''0'' in
     reject (\<not> list_all is_digit value) bad
    (reject (length digits = 0 \<or> length digits > 39) bad
    (case big_SetString digits of
       None \<Rightarrow> Inl bad
     | Some n \<Rightarrow> reject (BitLen n > 128) bad (Inr n))))"

definition frame_error_text :: "frame_error \<Rightarrow> string" where
  "frame_error_text e = (case e of
     PairIDZero \<Rightarrow> ''frame: pair ID must be positive''
   | PairTokens \<Rightarrow> ''frame: pair token addresses must be distinct and nonzero''
   | ScaleNotUint128 s \<Rightarrow> ''frame: '' @ s @ '' must be a positive uint128''
   | _ \<Rightarrow> ''invalid'')"

definition FrameParams :: "listed_pair \<Rightarrow> listing_error + pair_params" where
  "FrameParams p =
     attempt (parseRawSize (lp_PriceTickSize p) ''price_tick_size'') (\<lambda>tick.
     attempt (parseRawSize (lp_LotSize p) ''lot_size'') (\<lambda>lot.
     let params = \<lparr>pp_PairID = lp_PairID p, pp_BaseToken = lp_BaseToken p, pp_QuoteToken = lp_QuoteToken p,
           pp_BaseDecimals = lp_BaseDecimals p, pp_QuoteDecimals = lp_QuoteDecimals p,
           pp_PriceTickSize = Some tick, pp_LotSize = Some lot\<rparr> in
     case ValidatePair params of Inl e \<Rightarrow> Inl (configError ''pair'' (frame_error_text e)) | Inr _ \<Rightarrow> Inr params))"

subsection \<open>decode.go\<close>

definition isNull :: "json \<Rightarrow> bool" where
  "isNull raw \<longleftrightarrow> raw = JNull"

definition required :: "(json \<Rightarrow> string + 'a) \<Rightarrow> (string \<rightharpoonup> json) \<Rightarrow> string \<Rightarrow> listing_error + 'a" where
  "required unmarshal flds name =
    (case flds name of
       None \<Rightarrow> Inl (configError name ''required field is missing or null'')
     | Some raw \<Rightarrow>
         reject (isNull raw) (configError name ''required field is missing or null'')
        (wrap_err (\<lambda>_. configError name ''invalid field type, format, or numeric range'') (unmarshal raw)))"

definition addressField :: "hexlib \<Rightarrow> (string \<rightharpoonup> json) \<Rightarrow> string \<Rightarrow> listing_error + address" where
  "addressField H flds name =
     attempt (required unmarshal_string flds name) (\<lambda>value.
     reject (\<not> IsHexAddress H value) (configError name ''must be a 20-byte hex address'')
    (Inr (HexToAddress H value)))"

definition positiveUint128String :: "(string \<rightharpoonup> json) \<Rightarrow> string \<Rightarrow> listing_error + string" where
  "positiveUint128String flds name =
     attempt (required unmarshal_string flds name) (\<lambda>value.
     attempt (parseRawSize value name) (\<lambda>_. Inr value))"

definition partsPerMillion :: nat where
  "partsPerMillion = 1000000"

definition map_fields :: "(string \<rightharpoonup> json) option \<Rightarrow> (string \<rightharpoonup> json)" where
  "map_fields m = (case m of None \<Rightarrow> Map.empty | Some f \<Rightarrow> f)"

definition decodeTax :: "hexlib \<Rightarrow> (string \<rightharpoonup> json) \<Rightarrow> address \<Rightarrow> address \<Rightarrow> listing_error + tax option" where
  "decodeTax H flds base quote =
    (case flds ''tax'' of
       None \<Rightarrow> Inl (configError ''tax'' ''required nullable field is missing'')
     | Some raw \<Rightarrow>
         if isNull raw then Inr None
         else
           attempt (required unmarshal_map flds ''tax'') (\<lambda>m.
           let taxFields = map_fields m in
           attempt (wrap_err (pairResponseError 0 ''tax'') (addressField H taxFields ''tax_token'')) (\<lambda>token.
           reject (token \<noteq> base \<and> token \<noteq> quote) (configError ''tax.tax_token'' ''must be the base or quote token'')
          (attempt (wrap_err (pairResponseError 0 ''tax'') (required unmarshal_string taxFields ''tax_token_symbol'')) (\<lambda>symbol.
           attempt (wrap_err (pairResponseError 0 ''tax'') (required (unmarshal_uint 32) taxFields ''tax_rate_ppm'')) (\<lambda>rate.
           reject (rate \<ge> partsPerMillion) (configError ''tax.tax_rate_ppm'' ''must be less than 1000000 PPM'')
          (Inr (Some \<lparr>tax_Token = token, tax_Symbol = symbol, tax_RatePPM = of_nat rate\<rparr>))))))))"

definition MaxInt64 :: nat where
  "MaxInt64 = 2 ^ 63 - 1"

definition MaxInt32 :: nat where
  "MaxInt32 = 2 ^ 31 - 1"

text \<open>The body of \<open>decodePair\<close> once the object's fields are known, in source order.\<close>

definition decode_fields :: "hexlib \<Rightarrow> (string \<rightharpoonup> json) \<Rightarrow> listing_error + listed_pair" where
  "decode_fields H flds =
     attempt (required (unmarshal_uint 64) flds ''chain_id'') (\<lambda>chainID.
     reject (chainID = 0 \<or> chainID > MaxInt64) (configError ''chain_id'' ''must be positive and fit int64'')
    (attempt (required (unmarshal_uint 32) flds ''pair_id'') (\<lambda>pairID.
     reject (pairID > MaxInt32) (configError ''pair_id'' ''must fit int32'')
    (attempt (addressField H flds ''base_token'') (\<lambda>base.
     attempt (addressField H flds ''quote_token'') (\<lambda>quote.
     reject (base = 0 \<or> quote = 0 \<or> base = quote)
       (configError ''tokens'' ''base and quote must be distinct nonzero token addresses'')
    (attempt (required unmarshal_string flds ''base_symbol'') (\<lambda>baseSymbol.
     attempt (required unmarshal_string flds ''quote_symbol'') (\<lambda>quoteSymbol.
     attempt (required (unmarshal_uint 8) flds ''base_decimals'') (\<lambda>baseDecimals.
     attempt (required (unmarshal_uint 8) flds ''quote_decimals'') (\<lambda>quoteDecimals.
     attempt (positiveUint128String flds ''price_tick_size'') (\<lambda>tick.
     attempt (positiveUint128String flds ''lot_size'') (\<lambda>lot.
     attempt (decodeTax H flds base quote) (\<lambda>t.
     attempt (required unmarshal_bool flds ''active'') (\<lambda>active.
     attempt (required unmarshal_bool flds ''gray'') (\<lambda>gray.
     Inr \<lparr>lp_ChainID = of_nat chainID, lp_PairID = of_nat pairID, lp_BaseToken = base, lp_QuoteToken = quote,
       lp_BaseSymbol = baseSymbol, lp_QuoteSymbol = quoteSymbol, lp_BaseDecimals = of_nat baseDecimals,
       lp_QuoteDecimals = of_nat quoteDecimals, lp_PriceTickSize = tick, lp_LotSize = lot, lp_Active = active,
       lp_Gray = gray, lp_Tax = t\<rparr>))))))))))))))))"

definition decodePair :: "hexlib \<Rightarrow> json \<Rightarrow> listing_error + listed_pair" where
  "decodePair H data =
     attempt (wrap_err PlainError (unmarshal_map data)) (\<lambda>m.
     case m of None \<Rightarrow> Inl (PlainError ''pair must be an object'') | Some flds \<Rightarrow> decode_fields H flds)"

definition item_path :: "nat \<Rightarrow> string" where
  "item_path i = ''data['' @ nat_text i @ '']''"

fun decode_items :: "hexlib \<Rightarrow> int \<Rightarrow> u64 \<Rightarrow> nat \<Rightarrow> json list \<Rightarrow> listing_error + listed_pair list" where
  "decode_items H status chainID i [] = Inr []"
| "decode_items H status chainID i (item # items) =
     attempt (wrap_err (pairResponseError status (item_path i)) (decodePair H item)) (\<lambda>pair.
     reject (lp_ChainID pair \<noteq> chainID)
       (invalidResponse status (item_path i @ ''.chain_id does not match request''))
    (attempt (decode_items H status chainID (i + 1) items) (\<lambda>rest. Inr (pair # rest))))"

definition decodePairs :: "hexlib \<Rightarrow> json \<Rightarrow> int \<Rightarrow> u64 \<Rightarrow> listing_error + listed_pair list" where
  "decodePairs H data status chainID =
     attempt (wrap_err (\<lambda>e. ResponseError status (PlainError e)) (unmarshal_slice data)) (\<lambda>items.
     decode_items H status chainID 0 items)"

subsection \<open>transport.go\<close>

record envelope =
  env_Success :: "bool option"
  env_Data :: "json option"
  env_Error :: "(string \<times> string) option"

text \<open>Decoding into the struct: a value of the wrong type leaves the field, keeps the first such
  error and goes on; a pointer field is allocated before its value is looked at.\<close>

definition decode_error_field :: "(string \<times> json) \<Rightarrow> (string \<times> string) \<times> string option \<Rightarrow> (string \<times> string) \<times> string option" where
  "decode_error_field kv acc = (case acc of ((code, message), err) \<Rightarrow>
    (let fail = (if err = None then Some ''type mismatch'' else err) in
     if fold_name (fst kv) = ''code'' then
       (case snd kv of JString s \<Rightarrow> ((s, message), err) | JNull \<Rightarrow> acc | _ \<Rightarrow> ((code, message), fail))
     else if fold_name (fst kv) = ''message'' then
       (case snd kv of JString s \<Rightarrow> ((code, s), err) | JNull \<Rightarrow> acc | _ \<Rightarrow> ((code, message), fail))
     else acc))"

definition decode_field :: "(string \<times> json) \<Rightarrow> envelope \<times> string option \<Rightarrow> envelope \<times> string option" where
  "decode_field kv acc = (case acc of (env, err) \<Rightarrow>
    (let fail = (if err = None then Some ''type mismatch'' else err);
         old = (case env_Error env of None \<Rightarrow> ([], []) | Some p \<Rightarrow> p) in
     if fold_name (fst kv) = ''success'' then
       (case snd kv of
          JNull \<Rightarrow> (env\<lparr>env_Success := None\<rparr>, err)
        | JBool b \<Rightarrow> (env\<lparr>env_Success := Some b\<rparr>, err)
        | _ \<Rightarrow> (env\<lparr>env_Success := Some (case env_Success env of None \<Rightarrow> False | Some b \<Rightarrow> b)\<rparr>, fail))
     else if fold_name (fst kv) = ''data'' then (env\<lparr>env_Data := Some (snd kv)\<rparr>, err)
     else if fold_name (fst kv) = ''error'' then
       (case snd kv of
          JNull \<Rightarrow> (env\<lparr>env_Error := None\<rparr>, err)
        | JObject kvs \<Rightarrow> (case fold decode_error_field kvs (old, err) of (p, err') \<Rightarrow> (env\<lparr>env_Error := Some p\<rparr>, err'))
        | _ \<Rightarrow> (env\<lparr>env_Error := Some old\<rparr>, fail))
     else acc))"

definition zero_envelope :: envelope where
  "zero_envelope = \<lparr>env_Success = None, env_Data = None, env_Error = None\<rparr>"

definition unmarshal_envelope :: "json \<Rightarrow> envelope \<times> string option" where
  "unmarshal_envelope j = (case j of
     JNull \<Rightarrow> (zero_envelope, None)
   | JObject kvs \<Rightarrow> fold decode_field kvs (zero_envelope, None)
   | _ \<Rightarrow> (zero_envelope, Some ''type mismatch''))"

text \<open>What the tokenizer finds in a body: the first value or a syntax or read error, what follows
  it, and whether the limited reader ran out (more than 8 MiB).\<close>

datatype body_rest = BodyEOF | BodyError string | BodyMore

record http_response =
  hr_StatusCode :: int
  hr_first :: "string + json"
  hr_rest :: body_rest
  hr_exceeded :: bool

definition decodeEnvelope :: "http_response \<Rightarrow> envelope \<times> string option" where
  "decodeEnvelope r =
    (let (env, err) = (case hr_first r of
           Inl e \<Rightarrow> (zero_envelope, Some e)
         | Inr j \<Rightarrow> (case unmarshal_envelope j of
             (env, Some e) \<Rightarrow> (env, Some e)
           | (env, None) \<Rightarrow> (env, (case hr_rest r of BodyEOF \<Rightarrow> None | BodyError e \<Rightarrow> Some e | BodyMore \<Rightarrow> Some ''multiple JSON values''))))
     in (env, if hr_exceeded r then Some ''response body exceeds limit'' else err))"

text \<open>A query: keys in the order of \<open>Encode\<close> (sorted) with one value each. The SDK's keys and
  decimal values need no escaping.\<close>

type_synonym query = "(string \<times> string) list"

definition encode_pair :: "string \<times> string \<Rightarrow> string" where
  "encode_pair kv = fst kv @ ''='' @ snd kv"

definition Encode :: "query \<Rightarrow> string" where
  "Encode q = Join (map encode_pair q) (CHR ''&'')"

definition overridden :: "query \<Rightarrow> string \<Rightarrow> bool" where
  "overridden q part = (case QueryUnescape (fst (Cut part (CHR ''=''))) of
     None \<Rightarrow> False | Some name \<Rightarrow> name \<in> fst ` set q)"

definition mergeQuery :: "string \<Rightarrow> query \<Rightarrow> string" where
  "mergeQuery raw q =
    (let params = Encode q in
     if params = [] then raw
     else
       let retained = Join (filter (\<lambda>part. \<not> overridden q part) (Split raw (CHR ''&''))) (CHR ''&'') in
       if retained = [] then params else retained @ ''&'' @ params)"

record url =
  u_Path :: string
  u_RawPath :: string
  u_RawQuery :: string
  u_rest :: string

record http_request =
  rq_URL :: url
  rq_Headers :: "(string \<times> string) list"

record http_client =
  hc_Timeout :: int
  hc_FollowRedirects :: bool
  hc_rest :: string

record netlib =
  ParseURL :: "string \<Rightarrow> string + url"
  EscapedPath :: "url \<Rightarrow> string"
  Do :: "http_client \<Rightarrow> http_request \<Rightarrow> string + http_response"

record listing_client =
  lcl_baseURL :: string
  lcl_http :: http_client
  lcl_timeout :: int
  lcl_apiKey :: string

definition HasSuffix_slash :: "string \<Rightarrow> bool" where
  "HasSuffix_slash s \<longleftrightarrow> s \<noteq> [] \<and> last s = CHR ''/''"

definition TrimPrefix_slash :: "string \<Rightarrow> string" where
  "TrimPrefix_slash s = (case s of c # rest \<Rightarrow> if c = CHR ''/'' then rest else s | [] \<Rightarrow> [])"

definition authenticate :: "listing_client \<Rightarrow> (string \<times> string) list \<Rightarrow> (string \<times> string) list" where
  "authenticate c headers = headers @ [(''X-API-Key'', lcl_apiKey c)]"

definition build_request :: "netlib \<Rightarrow> listing_client \<Rightarrow> url \<Rightarrow> string \<Rightarrow> query \<Rightarrow> http_request" where
  "build_request N c u path0 q =
    (let path = (if HasSuffix_slash (EscapedPath N u) then TrimPrefix_slash path0 else path0);
         u1 = u\<lparr>u_Path := u_Path u @ path\<rparr>;
         u2 = (if u_RawPath u1 \<noteq> [] then u1\<lparr>u_RawPath := u_RawPath u1 @ path\<rparr> else u1);
         u3 = u2\<lparr>u_RawQuery := mergeQuery (u_RawQuery u2) q\<rparr>
     in \<lparr>rq_URL = u3, rq_Headers = authenticate c [] @ [(''Accept'', ''application/json'')]\<rparr>)"

text \<open>The part of \<open>get\<close> that judges a response.\<close>

definition judge_response :: "http_response \<Rightarrow> listing_error + envelope \<times> int" where
  "judge_response res =
    (let status = hr_StatusCode res; (env, decodeErr) = decodeEnvelope res in
     if status < 200 \<or> status \<ge> 300 \<or> env_Success env = Some False
     then (case env_Error env of
             None \<Rightarrow> Inl (APIError status [] [] (map_option PlainError decodeErr))
           | Some (code, message) \<Rightarrow> Inl (APIError status code message (map_option PlainError decodeErr)))
     else case decodeErr of
       Some e \<Rightarrow> Inl (ResponseError status (PlainError e))
     | None \<Rightarrow>
         reject (env_Success env \<noteq> Some True \<or> env_Error env \<noteq> None \<or> env_Data env = None \<or> env_Data env = Some JNull)
           (invalidResponse status ''expected success=true, non-null data, and no error'')
        (Inr (env, status)))"

definition get :: "netlib \<Rightarrow> listing_client \<Rightarrow> ctx option \<Rightarrow> string \<Rightarrow> query \<Rightarrow> listing_error + envelope \<times> int" where
  "get N c cx path q =
    (case cx of
       None \<Rightarrow> Inl (InputError ''ctx'' ''must not be nil'')
     | Some ctx \<Rightarrow>
        (case ctx 0 of
           Some e \<Rightarrow> Inl (ListingContext e)
         | None \<Rightarrow>
             attempt (wrap_err PlainError (ParseURL N (lcl_baseURL c))) (\<lambda>u.
             attempt (wrap_err GetFailed (Do N (lcl_http c) (build_request N c u path q))) judge_response)))"

subsection \<open>pairs.go, chains.go: queries\<close>

definition validateChainID :: "u64 \<Rightarrow> listing_error + unit" where
  "validateChainID chainID =
     reject (chainID = 0 \<or> unat chainID > MaxInt64) (InputError ''ChainID'' ''must be positive and fit int64'') (Inr ())"

definition ListPairs :: "hexlib \<Rightarrow> netlib \<Rightarrow> listing_client \<Rightarrow> ctx option \<Rightarrow> u64 \<Rightarrow> listing_error + listed_pair list" where
  "ListPairs H N c cx chainID =
     attempt (validateChainID chainID) (\<lambda>_.
     attempt (get N c cx ''/pairs'' [(''chain_id'', nat_text (unat chainID))]) (\<lambda>(env, status).
     decodePairs H (the (env_Data env)) status chainID))"

definition ListPair :: "hexlib \<Rightarrow> netlib \<Rightarrow> listing_client \<Rightarrow> ctx option \<Rightarrow> u64 \<Rightarrow> u32 \<Rightarrow> listing_error + listed_pair" where
  "ListPair H N c cx chainID pairID =
     attempt (validateChainID chainID) (\<lambda>_.
     reject (pairID = 0 \<or> unat pairID > MaxInt32) (InputError ''PairID'' ''must be positive and fit int32'')
    (attempt (get N c cx ''/pair'' [(''chain_id'', nat_text (unat chainID)), (''pair_id'', nat_text (unat pairID))]) (\<lambda>(env, status).
     attempt (wrap_err (pairResponseError status ''data'') (decodePair H (the (env_Data env)))) (\<lambda>pair.
     reject (lp_ChainID pair \<noteq> chainID \<or> lp_PairID pair \<noteq> pairID)
       (invalidResponse status ''detail chain or pair ID does not match request'')
    (Inr pair)))))"

text \<open>The loop of \<open>ListChains\<close> visits the map in any order; the error does not name the entry here.\<close>

definition ListChains :: "netlib \<Rightarrow> listing_client \<Rightarrow> ctx option \<Rightarrow> listing_error + (string \<rightharpoonup> u64)" where
  "ListChains N c cx =
     attempt (get N c cx ''/chains'' []) (\<lambda>(env, status).
     attempt (wrap_err (\<lambda>e. ResponseError status (PlainError e)) (unmarshal_uint_map (the (env_Data env)))) (\<lambda>kvs.
     let chains = map_of (rev (map (\<lambda>(k, n). (k, of_nat n :: u64)) kvs)) in
     reject (\<exists>k\<in>set (map fst kvs). isl (validateChainID (the (chains k))))
       (invalidResponse status ''data must be positive and fit int64'')
    (Inr chains)))"

subsection \<open>client.go\<close>

record listing_setup =
  ls_BaseURL :: string
  ls_APIKey :: string
  ls_HTTPClient :: "http_client option"
  ls_Timeout :: int

definition DefaultBaseURL :: string where
  "DefaultBaseURL = ''https://api.takapu.org/listing''"

definition NewListingClient :: "listing_setup \<Rightarrow> listing_error + listing_client" where
  "NewListingClient cfg =
    (let timeout = (if ls_Timeout cfg = 0 then 10000000000 else ls_Timeout cfg);
         base = (if ls_BaseURL cfg = [] then DefaultBaseURL else ls_BaseURL cfg);
         hc = (case ls_HTTPClient cfg of
           None \<Rightarrow> \<lparr>hc_Timeout = timeout, hc_FollowRedirects = True, hc_rest = []\<rparr> | Some h \<Rightarrow> h) in
     reject (ls_Timeout cfg < 0) (ConfigurationError ''Timeout'' ''must not be negative'' 0)
    (reject (hc_Timeout hc < 0) (ConfigurationError ''HTTPClient.Timeout'' ''must not be negative'' 0)
    (Inr \<lparr>lcl_baseURL = base, lcl_http = hc\<lparr>hc_FollowRedirects := False\<rparr>, lcl_timeout = timeout,
       lcl_apiKey = ls_APIKey cfg\<rparr>)))"

end
