(* ===== verification/Stream_Config.thy ===== *)
theory Stream_Config
  imports Listing_Client
begin

text \<open>
  Errors and configuration of the streaming client: \<open>internal/errors.go\<close>,
  \<open>internal/config.go\<close>, the retry policy of \<open>internal/reconnect.go\<close> (which failures are
  final, and the delay before each attempt) and \<open>classifyReadError\<close> of
  \<open>internal/connection.go\<close>. Durations are \<open>int\<close> nanoseconds. The lemmas show that an
  accepted configuration is positive and ordered, that normalizing again changes nothing,
  and that the delays follow the capped doubling sequence without leaving \<open>int64\<close>.
\<close>

subsection \<open>Errors\<close>

record server_error_info =
  se_Code :: string
  se_Message :: string

text \<open>\<open>CloseError\<close> and \<open>ErrReadLimit\<close> are errors of the WebSocket library, \<open>NetError\<close> any
  other transport error, \<open>EOF\<close> is \<open>io.EOF\<close>, \<open>FilterError i s\<close> an error naming the
  \<open>i\<close>-th filter; \<open>Errorf s es\<close> is \<open>fmt.Errorf\<close> with the errors its \<open>%w\<close> verbs
  wrap.\<close>

datatype stream_error =
    ErrClosed
  | ErrDisconnected
  | ErrAuthentication
  | ErrProtocol
  | ErrEventBufferFull
  | ErrFrameBufferFull
  | ErrMessageTooLarge
  | ErrListingNotConfigured
  | ErrManualReconnect
  | ServerErrorE server_error_info
  | ContextError ctx_error
  | CloseError int
  | ErrReadLimit
  | NetError string
  | EOF
  | NewError string
  | FilterError nat string
  | Errorf string "stream_error list"

fun errors_Is :: "stream_error \<Rightarrow> stream_error \<Rightarrow> bool" where
  "errors_Is (Errorf s es) t = (Errorf s es = t \<or> (\<exists>e\<in>set es. errors_Is e t))"
| "errors_Is e t = (e = t)"

text \<open>\<open>errors.As\<close> for \<open>*websocket.CloseError\<close> and for \<open>*ServerErrorInfo\<close>: the first match in
  a depth-first walk.\<close>

fun as_CloseError :: "stream_error \<Rightarrow> int option"
  and as_CloseErrors :: "stream_error list \<Rightarrow> int option" where
  "as_CloseError (CloseError code) = Some code"
| "as_CloseError (Errorf s es) = as_CloseErrors es"
| "as_CloseError _ = None"
| "as_CloseErrors [] = None"
| "as_CloseErrors (e # es) = (case as_CloseError e of Some code \<Rightarrow> Some code | None \<Rightarrow> as_CloseErrors es)"

fun as_ServerError :: "stream_error \<Rightarrow> server_error_info option"
  and as_ServerErrors :: "stream_error list \<Rightarrow> server_error_info option" where
  "as_ServerError (ServerErrorE i) = Some i"
| "as_ServerError (Errorf s es) = as_ServerErrors es"
| "as_ServerError _ = None"
| "as_ServerErrors [] = None"
| "as_ServerErrors (e # es) = (case as_ServerError e of Some i \<Rightarrow> Some i | None \<Rightarrow> as_ServerErrors es)"

definition protocol_error :: "string \<Rightarrow> stream_error" where
  "protocol_error s = Errorf s [ErrProtocol]"

datatype publish_outcome = NotSent | Unknown

record publish_error =
  pube_Outcome :: publish_outcome
  pube_Err :: stream_error

text \<open>The close codes of \<open>gorilla/websocket\<close> that the switch names: 1008 policy violation;
  1002 protocol error, 1003 unsupported data, 1007 invalid payload, 1009 message too big.\<close>

definition auth_close_codes :: "int list" where
  "auth_close_codes = [1008, 4001, 4003]"

definition protocol_close_codes :: "int list" where
  "protocol_close_codes = [1002, 1003, 1007, 1009]"

definition classifyReadError :: "stream_error \<Rightarrow> stream_error" where
  "classifyReadError err =
    (let rest = (if errors_Is err ErrReadLimit then Errorf ''%w: %w'' [ErrProtocol, ErrMessageTooLarge] else err)
     in case as_CloseError err of
          None \<Rightarrow> rest
        | Some code \<Rightarrow>
            if code \<in> set auth_close_codes then Errorf ''%w: %w'' [ErrAuthentication, err]
            else if code \<in> set protocol_close_codes then Errorf ''%w: %w'' [ErrProtocol, err]
            else rest)"

definition terminalError :: "stream_error \<Rightarrow> bool" where
  "terminalError err \<longleftrightarrow> errors_Is err ErrProtocol \<or> errors_Is err ErrAuthentication \<or>
     errors_Is err ErrEventBufferFull \<or> errors_Is err ErrFrameBufferFull"

subsection \<open>Configuration\<close>

datatype reconnect_policy = Enabled | Disabled | OtherPolicy nat

fun policy_number :: "reconnect_policy \<Rightarrow> nat" where
  "policy_number Enabled = 0"
| "policy_number Disabled = 1"
| "policy_number (OtherPolicy n) = n"

record reconnect_config =
  rc_Policy :: reconnect_policy
  rc_InitialDelay :: int
  rc_MaxDelay :: int
  rc_ResetAfter :: int

record connection_config =
  cc_URL :: string
  cc_APIKey :: string
  cc_HandshakeTimeout :: int
  cc_WriteTimeout :: int
  cc_HeartbeatInterval :: int
  cc_ReadIdleTimeout :: int
  cc_EventBufferSize :: int
  cc_MaxReadMessageBytes :: int
  cc_MaxWriteMessageBytes :: int
  cc_Reconnect :: reconnect_config

record listing_config =
  lc_BaseURL :: string
  lc_HTTPClient :: "http_client option"
  lc_Timeout :: int

record maker_config =
  mc_Connection :: connection_config
  mc_Listing :: listing_config

record router_config =
  rtc_Connection :: connection_config
  rtc_Listing :: listing_config
  rtc_SubscribeTimeout :: int
  rtc_MaxSubscribeFilters :: int
  rtc_FrameBufferSize :: int

definition DefaultMakerURL :: string where
  "DefaultMakerURL = ''wss://api.takapu.org/marketstream/maker''"

definition DefaultRouterURL :: string where
  "DefaultRouterURL = ''wss://api.takapu.org/marketstream/router''"

definition milliseconds :: "int \<Rightarrow> int" where
  "milliseconds n = n * 1000000"

definition seconds :: "int \<Rightarrow> int" where
  "seconds n = n * 1000000000"

text \<open>\<open>if v == 0 { v = default }\<close>\<close>

definition or_default :: "int \<Rightarrow> int \<Rightarrow> int" where
  "or_default d v = (if v = 0 then d else v)"

text \<open>The loop over \<open>durations\<close>: each element is a setting with its default.\<close>

fun default_durations :: "(int \<times> int) list \<Rightarrow> stream_error + int list" where
  "default_durations [] = Inr []"
| "default_durations ((v, d) # rest) =
     reject (v < 0) (NewError ''negative duration'')
    (attempt (default_durations rest) (\<lambda>vs. Inr (or_default d v # vs)))"

definition connection_durations :: "connection_config \<Rightarrow> (int \<times> int) list" where
  "connection_durations cfg =
    [(cc_HandshakeTimeout cfg, seconds 10), (cc_WriteTimeout cfg, seconds 5),
     (cc_HeartbeatInterval cfg, seconds 10), (cc_ReadIdleTimeout cfg, seconds 30),
     (rc_InitialDelay (cc_Reconnect cfg), milliseconds 500),
     (rc_MaxDelay (cc_Reconnect cfg), seconds 30), (rc_ResetAfter (cc_Reconnect cfg), seconds 60)]"

definition set_durations :: "int list \<Rightarrow> connection_config \<Rightarrow> connection_config" where
  "set_durations vs cfg = cfg\<lparr>cc_HandshakeTimeout := vs ! 0, cc_WriteTimeout := vs ! 1,
     cc_HeartbeatInterval := vs ! 2, cc_ReadIdleTimeout := vs ! 3,
     cc_Reconnect := (cc_Reconnect cfg)\<lparr>rc_InitialDelay := vs ! 4, rc_MaxDelay := vs ! 5,
       rc_ResetAfter := vs ! 6\<rparr>\<rparr>"

definition normalizeConnection :: "connection_config \<Rightarrow> stream_error + connection_config" where
  "normalizeConnection cfg0 =
     attempt (default_durations (connection_durations cfg0)) (\<lambda>vs.
       let cfg = set_durations vs cfg0 in
       reject (cc_ReadIdleTimeout cfg \<le> cc_HeartbeatInterval cfg \<or>
               rc_MaxDelay (cc_Reconnect cfg) < rc_InitialDelay (cc_Reconnect cfg) \<or>
               policy_number (rc_Policy (cc_Reconnect cfg)) > policy_number Disabled)
         (NewError ''invalid heartbeat or reconnect configuration'')
      (reject (cc_EventBufferSize cfg < 0 \<or> cc_MaxReadMessageBytes cfg < 0 \<or> cc_MaxWriteMessageBytes cfg < 0)
         (NewError ''negative capacity'')
      (Inr (cfg\<lparr>cc_EventBufferSize := or_default 256 (cc_EventBufferSize cfg),
         cc_MaxReadMessageBytes := or_default (512 * 1024) (cc_MaxReadMessageBytes cfg),
         cc_MaxWriteMessageBytes := or_default (512 * 1024) (cc_MaxWriteMessageBytes cfg)\<rparr>))))"

definition default_url :: "string \<Rightarrow> connection_config \<Rightarrow> connection_config" where
  "default_url url cfg = (if cc_URL cfg = [] then cfg\<lparr>cc_URL := url\<rparr> else cfg)"

definition normalizeMaker :: "maker_config \<Rightarrow> stream_error + maker_config" where
  "normalizeMaker cfg =
     attempt (normalizeConnection (default_url DefaultMakerURL (mc_Connection cfg))) (\<lambda>connection.
     Inr (cfg\<lparr>mc_Connection := connection\<rparr>))"

definition normalizeRouter :: "router_config \<Rightarrow> stream_error + router_config" where
  "normalizeRouter cfg =
     attempt (normalizeConnection (default_url DefaultRouterURL (rtc_Connection cfg))) (\<lambda>connection.
     reject (rtc_SubscribeTimeout cfg < 0 \<or> rtc_MaxSubscribeFilters cfg < 0 \<or> rtc_FrameBufferSize cfg < 0)
       (NewError ''negative router configuration'')
    (Inr (cfg\<lparr>rtc_Connection := connection,
       rtc_SubscribeTimeout := or_default (seconds 10) (rtc_SubscribeTimeout cfg),
       rtc_MaxSubscribeFilters := or_default 100 (rtc_MaxSubscribeFilters cfg),
       rtc_FrameBufferSize := or_default 256 (rtc_FrameBufferSize cfg)\<rparr>)))"

subsection \<open>Retry delays\<close>

text \<open>\<open>run\<close> waits \<open>delay/2 + rand.Int64N(int64(delay-delay/2)+1)\<close>; \<open>r\<close> is the number drawn.
  \<open>next_delay\<close> is the update of \<open>delay\<close> after an automatic wait, and \<open>reset_delay\<close> the one
  after a session that lived \<open>age\<close>.\<close>

definition jitter_bound :: "int \<Rightarrow> int" where
  "jitter_bound delay = delay - delay div 2 + 1"

definition retry_wait :: "int \<Rightarrow> int \<Rightarrow> int" where
  "retry_wait delay r = delay div 2 + r"

definition next_delay :: "reconnect_config \<Rightarrow> int \<Rightarrow> int" where
  "next_delay cfg delay =
    (if delay < rc_MaxDelay cfg then
       (if delay > rc_MaxDelay cfg div 2 then rc_MaxDelay cfg else delay * 2)
     else delay)"

definition reset_delay :: "reconnect_config \<Rightarrow> int \<Rightarrow> int \<Rightarrow> int" where
  "reset_delay cfg age delay = (if age \<ge> rc_ResetAfter cfg then rc_InitialDelay cfg else delay)"

text \<open>The policy decision after a lost session.\<close>

definition gives_up :: "reconnect_config \<Rightarrow> stream_error \<Rightarrow> bool" where
  "gives_up cfg err \<longleftrightarrow> terminalError err \<or> (rc_Policy cfg = Disabled \<and> \<not> errors_Is err ErrManualReconnect)"

subsection \<open>What an accepted configuration guarantees\<close>

definition usable_connection :: "connection_config \<Rightarrow> bool" where
  "usable_connection cfg \<longleftrightarrow>
     0 < cc_HandshakeTimeout cfg \<and> 0 < cc_WriteTimeout cfg \<and> 0 < cc_HeartbeatInterval cfg \<and>
     cc_HeartbeatInterval cfg < cc_ReadIdleTimeout cfg \<and>
     0 < rc_InitialDelay (cc_Reconnect cfg) \<and>
     rc_InitialDelay (cc_Reconnect cfg) \<le> rc_MaxDelay (cc_Reconnect cfg) \<and>
     0 < rc_ResetAfter (cc_Reconnect cfg) \<and>
     policy_number (rc_Policy (cc_Reconnect cfg)) \<le> 1 \<and>
     0 < cc_EventBufferSize cfg \<and> 0 < cc_MaxReadMessageBytes cfg \<and> 0 < cc_MaxWriteMessageBytes cfg"

lemma or_default_pos [simp]: "0 < d \<Longrightarrow> 0 \<le> v \<Longrightarrow> 0 < or_default d v"
  by (simp add: or_default_def)

lemma or_default_id [simp]: "0 < v \<Longrightarrow> or_default d v = v"
  by (simp add: or_default_def)

lemma default_durations_Inr:
  "default_durations ps = Inr vs \<longleftrightarrow> (\<forall>p\<in>set ps. 0 \<le> fst p) \<and> vs = map (\<lambda>(v, d). or_default d v) ps"
  by (induction ps arbitrary: vs rule: default_durations.induct) (auto simp: attempt_Inr)

lemma default_durations_Inl:
  "default_durations ps = Inl e \<longleftrightarrow> (\<exists>p\<in>set ps. fst p < 0) \<and> e = NewError ''negative duration''"
  by (induction ps rule: default_durations.induct) (auto simp: attempt_Inl reject_Inl)

lemma duration_units [simp]: "0 < seconds n \<longleftrightarrow> 0 < n" "0 < milliseconds n \<longleftrightarrow> 0 < n"
  by (simp_all add: seconds_def milliseconds_def)

lemma normalizeConnection_Inr:
  assumes "normalizeConnection cfg = Inr c"
  shows "usable_connection c \<and> cc_URL c = cc_URL cfg \<and> cc_APIKey c = cc_APIKey cfg \<and>
    rc_Policy (cc_Reconnect c) = rc_Policy (cc_Reconnect cfg)"
  using assms
  by (auto simp: normalizeConnection_def attempt_Inr default_durations_Inr connection_durations_def
      set_durations_def usable_connection_def Let_def)

lemma normalizeConnection_usable:
  assumes "usable_connection c"
  shows "normalizeConnection c = Inr c"
proof -
  have "default_durations (connection_durations c) = Inr (map fst (connection_durations c))"
    using assms by (auto simp: default_durations_Inr connection_durations_def usable_connection_def)
  moreover have "set_durations (map fst (connection_durations c)) c = c"
    by (simp add: set_durations_def connection_durations_def)
  ultimately show ?thesis
    using assms by (simp add: normalizeConnection_def usable_connection_def not_less)
qed

definition usable_router :: "router_config \<Rightarrow> bool" where
  "usable_router cfg \<longleftrightarrow> usable_connection (rtc_Connection cfg) \<and> cc_URL (rtc_Connection cfg) \<noteq> [] \<and>
     0 < rtc_SubscribeTimeout cfg \<and> 0 < rtc_MaxSubscribeFilters cfg \<and> 0 < rtc_FrameBufferSize cfg"

lemma default_url_nonempty [simp]: "u \<noteq> [] \<Longrightarrow> cc_URL (default_url u c) \<noteq> []"
  by (simp add: default_url_def)

lemma default_urls [simp]: "DefaultMakerURL \<noteq> []" "DefaultRouterURL \<noteq> []"
  by (simp_all add: DefaultMakerURL_def DefaultRouterURL_def)

lemma normalizeRouter_Inr: "normalizeRouter cfg = Inr c \<Longrightarrow> usable_router c"
  by (auto simp: normalizeRouter_def attempt_Inr usable_router_def dest!: normalizeConnection_Inr)

lemma normalizeRouter_usable: "usable_router c \<Longrightarrow> normalizeRouter c = Inr c"
  by (simp add: normalizeRouter_def usable_router_def default_url_def normalizeConnection_usable)

lemma normalizeMaker_Inr:
  "normalizeMaker cfg = Inr c \<Longrightarrow> usable_connection (mc_Connection c) \<and> cc_URL (mc_Connection c) \<noteq> []"
  by (auto simp: normalizeMaker_def attempt_Inr dest!: normalizeConnection_Inr)

subsection \<open>Delays are the capped doubling sequence\<close>

lemma next_delay_range:
  assumes "0 < delay" "delay \<le> rc_MaxDelay cfg"
  shows "0 < next_delay cfg delay \<and> delay \<le> next_delay cfg delay \<and> next_delay cfg delay \<le> rc_MaxDelay cfg"
  using assms by (auto simp: next_delay_def)

lemma next_delay_min:
  assumes "0 < delay" "delay \<le> rc_MaxDelay cfg"
  shows "next_delay cfg delay = min (rc_MaxDelay cfg) (2 * delay)"
  using assms by (auto simp: next_delay_def min_def)

lemma next_delay_iterate:
  assumes "0 < rc_InitialDelay cfg" "rc_InitialDelay cfg \<le> rc_MaxDelay cfg"
  shows "(next_delay cfg ^^ n) (rc_InitialDelay cfg) = min (rc_MaxDelay cfg) (2 ^ n * rc_InitialDelay cfg)"
proof (induction n)
  case 0
  then show ?case using assms by simp
next
  case (Suc n)
  have "1 * rc_InitialDelay cfg \<le> 2 ^ n * rc_InitialDelay cfg"
    using assms by (intro mult_right_mono) simp_all
  then show ?case
    using Suc assms by (simp add: next_delay_min min_def mult.assoc)
qed

lemma retry_wait_range:
  assumes "0 < delay" "0 \<le> r" "r < jitter_bound delay"
  shows "delay div 2 \<le> retry_wait delay r \<and> retry_wait delay r \<le> delay"
  using assms by (auto simp: retry_wait_def jitter_bound_def)

text \<open>C38: With a normalized configuration, after any number of consecutive failed attempts the
  delay is the initial delay doubled that often and capped at MaxDelay; the random wait drawn from
  it lies between half the delay and the delay, the bound handed to the random generator is
  positive, and neither the doubling nor the bound leaves int64.\<close>

theorem backoff_sequence:
  assumes "normalizeConnection cfg0 = Inr cfg" "rc_MaxDelay (cc_Reconnect cfg) < 2 ^ 63"
    and delay: "delay = (next_delay (cc_Reconnect cfg) ^^ n) (rc_InitialDelay (cc_Reconnect cfg))"
    and jitter: "0 \<le> r" "r < jitter_bound delay"
  shows "delay = min (rc_MaxDelay (cc_Reconnect cfg)) (2 ^ n * rc_InitialDelay (cc_Reconnect cfg)) \<and>
    0 < jitter_bound delay \<and> jitter_bound delay < 2 ^ 63 \<and>
    delay div 2 \<le> retry_wait delay r \<and> retry_wait delay r \<le> delay \<and>
    0 < next_delay (cc_Reconnect cfg) delay \<and> next_delay (cc_Reconnect cfg) delay < 2 ^ 63"
proof -
  let ?rc = "cc_Reconnect cfg"
  have u: "0 < rc_InitialDelay ?rc" "rc_InitialDelay ?rc \<le> rc_MaxDelay ?rc"
    using normalizeConnection_Inr [OF assms(1)] by (simp_all add: usable_connection_def)
  have d: "delay = min (rc_MaxDelay ?rc) (2 ^ n * rc_InitialDelay ?rc)"
    using next_delay_iterate [OF u] delay by simp
  have r: "0 < delay" "delay \<le> rc_MaxDelay ?rc"
    using d u by simp_all
  then have "0 < jitter_bound delay" "jitter_bound delay < 2 ^ 63"
    using assms(2) by (simp_all add: jitter_bound_def)
  moreover have "0 < next_delay ?rc delay" "next_delay ?rc delay < 2 ^ 63"
    using next_delay_range [OF r] assms(2) by linarith+
  ultimately show ?thesis
    using d retry_wait_range [OF r(1) jitter] by simp
qed

definition zero_connection :: connection_config where
  "zero_connection = \<lparr>cc_URL = [], cc_APIKey = ''key'', cc_HandshakeTimeout = 0, cc_WriteTimeout = 0,
     cc_HeartbeatInterval = 0, cc_ReadIdleTimeout = 0, cc_EventBufferSize = 0, cc_MaxReadMessageBytes = 0,
     cc_MaxWriteMessageBytes = 0,
     cc_Reconnect = \<lparr>rc_Policy = Enabled, rc_InitialDelay = 0, rc_MaxDelay = 0, rc_ResetAfter = 0\<rparr>\<rparr>"

definition default_connection :: connection_config where
  "default_connection = \<lparr>cc_URL = [], cc_APIKey = ''key'', cc_HandshakeTimeout = 10000000000,
     cc_WriteTimeout = 5000000000, cc_HeartbeatInterval = 10000000000, cc_ReadIdleTimeout = 30000000000,
     cc_EventBufferSize = 256, cc_MaxReadMessageBytes = 524288, cc_MaxWriteMessageBytes = 524288,
     cc_Reconnect = \<lparr>rc_Policy = Enabled, rc_InitialDelay = 500000000, rc_MaxDelay = 30000000000,
       rc_ResetAfter = 60000000000\<rparr>\<rparr>"

lemma zero_connection_defaults: "normalizeConnection zero_connection = Inr default_connection"
  by (simp add: normalizeConnection_def connection_durations_def set_durations_def or_default_def
      zero_connection_def default_connection_def seconds_def milliseconds_def)

theorem backoff_sequence_witness:
  "(next_delay (cc_Reconnect default_connection) ^^ 2) 500000000 = 2000000000 \<and>
   retry_wait 2000000000 7 \<le> 2000000000"
proof -
  have d: "2000000000 = (next_delay (cc_Reconnect default_connection) ^^ 2)
      (rc_InitialDelay (cc_Reconnect default_connection))"
    by (simp add: next_delay_def default_connection_def eval_nat_numeral)
  have "rc_MaxDelay (cc_Reconnect default_connection) < 2 ^ 63" "(0 :: int) \<le> 7"
      "7 < jitter_bound 2000000000"
    by (simp_all add: default_connection_def jitter_bound_def)
  from backoff_sequence [OF zero_connection_defaults this(1) d this(2,3)] d
  show ?thesis by (simp add: default_connection_def)
qed

text \<open>A router configuration that normalizeRouter accepts has positive timeouts, capacities and
  delays, a read-idle timeout above the heartbeat interval, an initial delay of at most MaxDelay and
  a nonempty URL; normalizing it again returns it unchanged.\<close>

theorem normalize_router_usable:
  assumes "normalizeRouter cfg0 = Inr cfg"
  shows "usable_router cfg \<and> normalizeRouter cfg = Inr cfg"
  using normalizeRouter_Inr [OF assms] normalizeRouter_usable by blast

definition zero_router :: router_config where
  "zero_router = \<lparr>rtc_Connection = zero_connection,
     rtc_Listing = \<lparr>lc_BaseURL = [], lc_HTTPClient = None, lc_Timeout = 0\<rparr>,
     rtc_SubscribeTimeout = 0, rtc_MaxSubscribeFilters = 0, rtc_FrameBufferSize = 0\<rparr>"

definition default_router :: router_config where
  "default_router = \<lparr>rtc_Connection = default_connection\<lparr>cc_URL := DefaultRouterURL\<rparr>,
     rtc_Listing = \<lparr>lc_BaseURL = [], lc_HTTPClient = None, lc_Timeout = 0\<rparr>,
     rtc_SubscribeTimeout = 10000000000, rtc_MaxSubscribeFilters = 100, rtc_FrameBufferSize = 256\<rparr>"

lemma zero_router_defaults: "normalizeRouter zero_router = Inr default_router"
  by (simp add: normalizeRouter_def default_url_def zero_router_def default_router_def or_default_def
      normalizeConnection_def connection_durations_def set_durations_def
      zero_connection_def default_connection_def seconds_def milliseconds_def)

theorem normalize_router_usable_witness:
  "normalizeRouter zero_router = Inr default_router \<and> normalizeRouter default_router = Inr default_router"
  using normalize_router_usable [OF zero_router_defaults] zero_router_defaults by simp

end
