(* ===== verification/Stream_Wire.thy ===== *)
theory Stream_Wire
  imports Stream_Config
begin

text \<open>
  \<open>internal/wire.go\<close> on messages: the walk for unknown fields, strict decoding, the connection
  acknowledgement and bounded marshaling. The protobuf library is the parameter record
  \<open>protolib\<close>. \<open>hasUnknownFields\<close> walks a message through reflection, so it is defined on the
  tree \<open>pmsg\<close> that reflection shows, and each \<open>reflect_\<dots>\<close> function is the \<open>ProtoReflect\<close> of
  one message type. The lemmas show that a decoded or marshaled message has no unknown bytes
  anywhere in its tree.
\<close>

record protolib =
  UnmarshalMaker :: "bytes \<Rightarrow> string + maker_envelope"
  UnmarshalRouter :: "bytes \<Rightarrow> string + router_envelope"
  SizeMaker :: "maker_envelope \<Rightarrow> nat"
  SizeRouter :: "router_envelope \<Rightarrow> nat"
  MarshalMaker :: "maker_envelope \<Rightarrow> string + bytes"
  MarshalRouter :: "router_envelope \<Rightarrow> string + bytes"

subsection \<open>Reflection\<close>

text \<open>A message is its unknown bytes and its populated fields: a list of messages, one message,
  or a field that holds none.\<close>

datatype pmsg = PMsg bytes "pfield list"
  and pfield = PListField "pmsg list" | PMessageField pmsg | PScalarField

fun hasUnknownFields :: "pmsg \<Rightarrow> bool"
  and range_fields :: "pfield list \<Rightarrow> bool"
  and list_unknown :: "pmsg list \<Rightarrow> bool" where
  "hasUnknownFields (PMsg u fs) = (if length u > 0 then True else range_fields fs)"
| "range_fields [] = False"
| "range_fields (PListField ms # fs) = (if list_unknown ms then True else range_fields fs)"
| "range_fields (PMessageField m # fs) = (if hasUnknownFields m then True else range_fields fs)"
| "range_fields (PScalarField # fs) = range_fields fs"
| "list_unknown [] = False"
| "list_unknown (m # ms) = (if hasUnknownFields m then True else list_unknown ms)"

text \<open>The messages of a tree, and the specification of the walk.\<close>

fun unknown_bytes :: "pmsg \<Rightarrow> bytes list"
  and field_unknowns :: "pfield list \<Rightarrow> bytes list"
  and messages_unknowns :: "pmsg list \<Rightarrow> bytes list" where
  "unknown_bytes (PMsg u fs) = u # field_unknowns fs"
| "field_unknowns [] = []"
| "field_unknowns (PListField ms # fs) = messages_unknowns ms @ field_unknowns fs"
| "field_unknowns (PMessageField m # fs) = unknown_bytes m @ field_unknowns fs"
| "field_unknowns (PScalarField # fs) = field_unknowns fs"
| "messages_unknowns [] = []"
| "messages_unknowns (m # ms) = unknown_bytes m @ messages_unknowns ms"

lemma hasUnknownFields_iff:
  "hasUnknownFields m \<longleftrightarrow> (\<exists>u\<in>set (unknown_bytes m). u \<noteq> [])"
  "range_fields fs \<longleftrightarrow> (\<exists>u\<in>set (field_unknowns fs). u \<noteq> [])"
  "list_unknown ms \<longleftrightarrow> (\<exists>u\<in>set (messages_unknowns ms). u \<noteq> [])"
  by (induction m and fs and ms rule: hasUnknownFields_range_fields_list_unknown.induct)
    (auto split: if_splits)

text \<open>Only populated message fields matter; a nil message pointer in a list reflects as an empty
  message.\<close>

definition message_field :: "('a \<Rightarrow> pmsg) \<Rightarrow> 'a option \<Rightarrow> pfield list" where
  "message_field f x = (case x of None \<Rightarrow> [] | Some m \<Rightarrow> [PMessageField (f m)])"

definition list_field :: "('a \<Rightarrow> pmsg) \<Rightarrow> 'a option list \<Rightarrow> pfield list" where
  "list_field f xs = (if xs = [] then [] else
     [PListField (map (\<lambda>x. case x of None \<Rightarrow> PMsg [] [] | Some m \<Rightarrow> f m) xs)])"

definition reflect_heartbeat :: "heartbeat \<Rightarrow> pmsg" where
  "reflect_heartbeat h = PMsg (hb_unknown h) []"

definition reflect_pair_key :: "pair_key \<Rightarrow> pmsg" where
  "reflect_pair_key k = PMsg (pk_unknown k) []"

definition reflect_price_level :: "price_level \<Rightarrow> pmsg" where
  "reflect_price_level l = PMsg (pl_unknown l) []"

definition reflect_compact_frame :: "pb_compact_frame \<Rightarrow> pmsg" where
  "reflect_compact_frame f = PMsg (pcf_unknown f) []"

definition reflect_market_frame :: "market_frame \<Rightarrow> pmsg" where
  "reflect_market_frame m = PMsg (mf_unknown m)
     (message_field reflect_pair_key (mf_Pair m) @ list_field reflect_price_level (mf_Bids m) @
      list_field reflect_price_level (mf_Asks m) @ message_field reflect_compact_frame (mf_Frame m))"

definition reflect_frame_ack :: "frame_ack \<Rightarrow> pmsg" where
  "reflect_frame_ack a = PMsg (fa_unknown a) (message_field reflect_pair_key (fa_Pair a))"

definition reflect_connection_ack :: "connection_ack \<Rightarrow> pmsg" where
  "reflect_connection_ack a = PMsg (ca_unknown a) []"

definition reflect_pb_error :: "pb_error \<Rightarrow> pmsg" where
  "reflect_pb_error e = PMsg (pe_unknown e) []"

definition reflect_pair_filter :: "pair_filter \<Rightarrow> pmsg" where
  "reflect_pair_filter f = PMsg (pf_unknown f) (message_field reflect_pair_key (pf_Pair f))"

definition reflect_subscribe_request :: "subscribe_request \<Rightarrow> pmsg" where
  "reflect_subscribe_request r = PMsg (sr_unknown r) (list_field reflect_pair_filter (map Some (sr_Filters r)))"

definition reflect_pair_filter_result :: "pair_filter_result \<Rightarrow> pmsg" where
  "reflect_pair_filter_result r = PMsg (pr_unknown r) (message_field reflect_pair_filter (pr_Filter r))"

definition reflect_subscribe_ack :: "subscribe_ack \<Rightarrow> pmsg" where
  "reflect_subscribe_ack a = PMsg (sa_unknown a) (list_field reflect_pair_filter_result (sa_Results a))"

definition reflect_maker :: "maker_envelope \<Rightarrow> pmsg" where
  "reflect_maker e = PMsg (me_unknown e) (case me_Payload e of
     MP_None \<Rightarrow> []
   | MP_FramePush m \<Rightarrow> [PMessageField (reflect_market_frame m)]
   | MP_FrameAck a \<Rightarrow> [PMessageField (reflect_frame_ack a)]
   | MP_Heartbeat h \<Rightarrow> [PMessageField (reflect_heartbeat h)]
   | MP_ConnectionAck a \<Rightarrow> [PMessageField (reflect_connection_ack a)])"

definition reflect_router :: "router_envelope \<Rightarrow> pmsg" where
  "reflect_router e = PMsg (re_unknown e) (case re_Payload e of
     RP_None \<Rightarrow> []
   | RP_Subscribe r \<Rightarrow> [PMessageField (reflect_subscribe_request r)]
   | RP_SubscribeAck a \<Rightarrow> [PMessageField (reflect_subscribe_ack a)]
   | RP_Update m \<Rightarrow> [PMessageField (reflect_market_frame m)]
   | RP_Heartbeat h \<Rightarrow> [PMessageField (reflect_heartbeat h)]
   | RP_Error x \<Rightarrow> [PMessageField (reflect_pb_error x)]
   | RP_ConnectionAck a \<Rightarrow> [PMessageField (reflect_connection_ack a)])"

lemmas reflect_defs = reflect_heartbeat_def reflect_pair_key_def reflect_price_level_def
  reflect_compact_frame_def reflect_market_frame_def reflect_frame_ack_def reflect_connection_ack_def
  reflect_pb_error_def reflect_pair_filter_def reflect_subscribe_request_def
  reflect_pair_filter_result_def reflect_subscribe_ack_def reflect_maker_def reflect_router_def

subsection \<open>Decoding and marshaling\<close>

definition decode :: "(bytes \<Rightarrow> string + 'm) \<Rightarrow> ('m \<Rightarrow> pmsg) \<Rightarrow> bytes \<Rightarrow> stream_error + 'm" where
  "decode unmarshal reflect data =
     (case unmarshal data of
        Inl s \<Rightarrow> Inl (protocol_error ''invalid protobuf'')
      | Inr m \<Rightarrow> reject (hasUnknownFields (reflect m)) (protocol_error ''unknown protobuf fields'') (Inr m))"

definition marshal :: "connection_config \<Rightarrow> ('m \<Rightarrow> nat) \<Rightarrow> ('m \<Rightarrow> pmsg) \<Rightarrow> ('m \<Rightarrow> string + bytes) \<Rightarrow> 'm \<Rightarrow>
    stream_error + bytes" where
  "marshal cfg sz reflect mar message =
     reject (int (sz message) > cc_MaxWriteMessageBytes cfg) ErrMessageTooLarge
    (reject (hasUnknownFields (reflect message)) (protocol_error ''unknown protobuf fields'')
    (wrap_err NewError (mar message)))"

abbreviation decode_maker :: "protolib \<Rightarrow> bytes \<Rightarrow> stream_error + maker_envelope" where
  "decode_maker P \<equiv> decode (UnmarshalMaker P) reflect_maker"

abbreviation decode_router :: "protolib \<Rightarrow> bytes \<Rightarrow> stream_error + router_envelope" where
  "decode_router P \<equiv> decode (UnmarshalRouter P) reflect_router"

abbreviation marshal_maker :: "protolib \<Rightarrow> connection_config \<Rightarrow> maker_envelope \<Rightarrow> stream_error + bytes" where
  "marshal_maker P cfg \<equiv> marshal cfg (SizeMaker P) reflect_maker (MarshalMaker P)"

abbreviation marshal_router :: "protolib \<Rightarrow> connection_config \<Rightarrow> router_envelope \<Rightarrow> stream_error + bytes" where
  "marshal_router P cfg \<equiv> marshal cfg (SizeRouter P) reflect_router (MarshalRouter P)"

definition connectionAck :: "protolib \<Rightarrow> bool \<Rightarrow> bytes \<Rightarrow> stream_error + string" where
  "connectionAck P maker data =
     attempt (if maker
        then attempt (decode_maker P data) (\<lambda>e.
               reject (me_Type e \<noteq> MMT_CONNECTION_ACK) (protocol_error ''missing connection acknowledgement'')
              (Inr (me_GetConnectionAck e)))
        else attempt (decode_router P data) (\<lambda>e.
               reject (re_Type e \<noteq> RMT_CONNECTION_ACK) (protocol_error ''missing connection acknowledgement'')
              (Inr (re_GetConnectionAck e)))) (\<lambda>a.
     case a of None \<Rightarrow> Inl (protocol_error ''missing connection acknowledgement payload'')
     | Some ack \<Rightarrow>
         reject (\<not> ca_Success ack) ErrAuthentication
        (reject (maker \<and> ca_Identity ack = []) (protocol_error ''missing maker identity'')
        (Inr (ca_Identity ack))))"

lemma payload_getters [simp]:
  "me_GetFrameAck e = Some a \<longleftrightarrow> me_Payload e = MP_FrameAck a"
  "me_GetHeartbeat e = Some h \<longleftrightarrow> me_Payload e = MP_Heartbeat h"
  "me_GetConnectionAck e = Some c \<longleftrightarrow> me_Payload e = MP_ConnectionAck c"
  by (auto simp: me_GetFrameAck_def me_GetHeartbeat_def me_GetConnectionAck_def split: maker_payload.splits)

lemma router_payload_getters [simp]:
  "re_GetSubscribeAck r = Some b \<longleftrightarrow> re_Payload r = RP_SubscribeAck b"
  "re_GetUpdate r = Some m \<longleftrightarrow> re_Payload r = RP_Update m"
  "re_GetHeartbeat r = Some h \<longleftrightarrow> re_Payload r = RP_Heartbeat h"
  "re_GetError r = Some x \<longleftrightarrow> re_Payload r = RP_Error x"
  "re_GetConnectionAck r = Some c \<longleftrightarrow> re_Payload r = RP_ConnectionAck c"
  by (auto simp: re_GetSubscribeAck_def re_GetUpdate_def re_GetHeartbeat_def re_GetError_def
      re_GetConnectionAck_def split: router_payload.splits)

lemma errors_Is_protocol [simp]:
  "errors_Is (protocol_error s) ErrProtocol" "terminalError (protocol_error s)"
  by (simp_all add: protocol_error_def terminalError_def)

lemma decode_Inr: "decode u r d = Inr m \<longleftrightarrow> u d = Inr m \<and> \<not> hasUnknownFields (r m)"
  by (auto simp: decode_def split: sum.splits)

lemma decode_Inl: "decode u r d = Inl e \<Longrightarrow> terminalError e"
  by (auto simp: decode_def reject_Inl split: sum.splits)

lemma marshal_Inr:
  "marshal cfg sz r mar m = Inr data \<longleftrightarrow>
     int (sz m) \<le> cc_MaxWriteMessageBytes cfg \<and> \<not> hasUnknownFields (r m) \<and> mar m = Inr data"
  by (auto simp: marshal_def)

lemma connectionAck_failure:
  assumes "connectionAck P maker data = Inl e"
  shows "terminalError e"
proof -
  have [simp]: "terminalError ErrAuthentication"
    by (simp add: terminalError_def)
  from assms show ?thesis
    by (auto simp: connectionAck_def attempt_Inl reject_Inl dest: decode_Inl split: if_splits option.splits)
qed

text \<open>The first message of a connection authenticates it only when it decodes without unknown
  bytes in any nested message, has the connection-acknowledgement type and payload, reports success
  and, for a maker, names an identity; every refusal is an error that ends the client instead of
  being retried.\<close>

theorem connection_ack_strict:
  "(case connectionAck P maker data of
      Inl e \<Rightarrow> terminalError e
    | Inr identity \<Rightarrow>
       (\<exists>ack. ca_Success ack \<and> ca_Identity ack = identity \<and>
         (if maker
          then identity \<noteq> [] \<and> (\<exists>e. UnmarshalMaker P data = Inr e \<and> me_Type e = MMT_CONNECTION_ACK \<and>
                 me_Payload e = MP_ConnectionAck ack \<and> set (unknown_bytes (reflect_maker e)) = {[]})
          else \<exists>e. UnmarshalRouter P data = Inr e \<and> re_Type e = RMT_CONNECTION_ACK \<and>
                 re_Payload e = RP_ConnectionAck ack \<and> set (unknown_bytes (reflect_router e)) = {[]})))"
proof (cases "connectionAck P maker data")
  case (Inl e)
  then show ?thesis using connectionAck_failure by simp
next
  case (Inr identity)
  have all_empty: "set (unknown_bytes m) = {[]}" if "\<not> hasUnknownFields m" for m
    using that by (cases m) (auto simp: hasUnknownFields_iff)
  show ?thesis
  proof (cases maker)
    case True
    with Inr obtain e ack where "UnmarshalMaker P data = Inr e" "\<not> hasUnknownFields (reflect_maker e)"
        "me_Type e = MMT_CONNECTION_ACK" "me_Payload e = MP_ConnectionAck ack" "ca_Success ack"
        "ca_Identity ack = identity" "identity \<noteq> []"
      by (auto simp: connectionAck_def attempt_Inr decode_Inr split: option.splits)
    then show ?thesis using Inr True all_empty by auto
  next
    case False
    with Inr obtain e ack where "UnmarshalRouter P data = Inr e" "\<not> hasUnknownFields (reflect_router e)"
        "re_Type e = RMT_CONNECTION_ACK" "re_Payload e = RP_ConnectionAck ack" "ca_Success ack"
        "ca_Identity ack = identity"
      by (auto simp: connectionAck_def attempt_Inr decode_Inr split: option.splits)
    then show ?thesis using Inr False all_empty by auto
  qed
qed

end
