(* ===== verification/Go_Channel.thy ===== *)
theory Go_Channel
  imports Takapu_Prelude
begin

text \<open>
  Go's buffered channels as the streaming client uses them: capacity, buffered values in order,
  and whether the channel is closed. \<open>chan_put\<close> is the send case of a \<open>select\<close> with a default
  (None when the buffer is full), \<open>chan_get\<close> a receive (None when nothing is buffered). A nil
  channel, on which neither is ever ready, behaves like one of capacity zero. The locale
  \<open>bounded_fifo\<close> is the contract the client relies on; inside it a whole sequence of sends and
  receives is shown to keep order, lose nothing and stay within capacity.
\<close>

record 'a gochan =
  gc_cap :: nat
  gc_buf :: "'a list"
  gc_closed :: bool

definition make_chan :: "nat \<Rightarrow> 'a gochan" where
  "make_chan n = \<lparr>gc_cap = n, gc_buf = [], gc_closed = False\<rparr>"

definition chan_put :: "'a \<Rightarrow> 'a gochan \<Rightarrow> 'a gochan option" where
  "chan_put x ch = (if length (gc_buf ch) < gc_cap ch then Some (ch\<lparr>gc_buf := gc_buf ch @ [x]\<rparr>) else None)"

definition chan_get :: "'a gochan \<Rightarrow> ('a \<times> 'a gochan) option" where
  "chan_get ch = (case gc_buf ch of [] \<Rightarrow> None | x # rest \<Rightarrow> Some (x, ch\<lparr>gc_buf := rest\<rparr>))"

definition chan_close :: "'a gochan \<Rightarrow> 'a gochan" where
  "chan_close ch = ch\<lparr>gc_closed := True\<rparr>"

text \<open>The drain loop \<open>for { select { case <-ch: default: break drain } }\<close> on an open channel.\<close>

function chan_drain :: "'a gochan \<Rightarrow> 'a gochan" where
  "chan_drain ch = (case chan_get ch of None \<Rightarrow> ch | Some (x, ch') \<Rightarrow> chan_drain ch')"
  by pat_completeness auto

termination chan_drain
  by (relation "measure (length \<circ> gc_buf)") (auto simp: chan_get_def split: list.splits)

declare chan_drain.simps [simp del]

lemma make_chan_simps [simp]:
  "gc_cap (make_chan n) = n" "gc_buf (make_chan n) = []" "\<not> gc_closed (make_chan n)"
  by (simp_all add: make_chan_def)

lemma chan_close_simps [simp]:
  "gc_cap (chan_close ch) = gc_cap ch" "gc_buf (chan_close ch) = gc_buf ch" "gc_closed (chan_close ch)"
  by (simp_all add: chan_close_def)

lemma chan_put_Some [simp]:
  "chan_put x ch = Some ch' \<longleftrightarrow> length (gc_buf ch) < gc_cap ch \<and> ch' = ch\<lparr>gc_buf := gc_buf ch @ [x]\<rparr>"
  by (auto simp: chan_put_def)

lemma chan_put_None [simp]: "chan_put x ch = None \<longleftrightarrow> gc_cap ch \<le> length (gc_buf ch)"
  by (auto simp: chan_put_def)

lemma chan_get_Some [simp]:
  "chan_get ch = Some (x, ch') \<longleftrightarrow> gc_buf ch = x # tl (gc_buf ch) \<and> ch' = ch\<lparr>gc_buf := tl (gc_buf ch)\<rparr>"
  by (auto simp: chan_get_def split: list.splits)

lemma chan_get_None [simp]: "chan_get ch = None \<longleftrightarrow> gc_buf ch = []"
  by (auto simp: chan_get_def split: list.splits)

lemma chan_drain_eq [simp]: "chan_drain ch = ch\<lparr>gc_buf := []\<rparr>"
proof (induction ch rule: chan_drain.induct)
  case (1 ch)
  show ?case
  proof (cases "gc_buf ch")
    case Nil
    then show ?thesis by (cases ch) (simp add: chan_drain.simps chan_get_def)
  next
    case (Cons x rest)
    then have get: "chan_get ch = Some (x, ch\<lparr>gc_buf := rest\<rparr>)" by simp
    then show ?thesis using 1 [OF get refl] by (simp add: chan_drain.simps [of ch] del: chan_get_Some)
  qed
qed

subsection \<open>The contract of a bounded queue\<close>

datatype 'a queue_op = Send 'a | Receive

text \<open>A sequence of sends and receives with a full or empty queue leaving it unchanged; the lists
  are the values accepted and the values received, in order.\<close>

fun queue_run :: "('a \<Rightarrow> 'q \<Rightarrow> 'q option) \<Rightarrow> ('q \<Rightarrow> ('a \<times> 'q) option) \<Rightarrow> 'a queue_op list \<Rightarrow> 'q \<Rightarrow>
    'a list \<times> 'a list \<times> 'q" where
  "queue_run put get [] q = ([], [], q)"
| "queue_run put get (Send x # ops) q =
     (case put x q of
        None \<Rightarrow> queue_run put get ops q
      | Some q' \<Rightarrow> (case queue_run put get ops q' of (s, r, q2) \<Rightarrow> (x # s, r, q2)))"
| "queue_run put get (Receive # ops) q =
     (case get q of
        None \<Rightarrow> queue_run put get ops q
      | Some (x, q') \<Rightarrow> (case queue_run put get ops q' of (s, r, q2) \<Rightarrow> (s, x # r, q2)))"

locale bounded_fifo =
  fixes contents :: "'q \<Rightarrow> 'a list"
    and capacity :: "'q \<Rightarrow> nat"
    and put :: "'a \<Rightarrow> 'q \<Rightarrow> 'q option"
    and get :: "'q \<Rightarrow> ('a \<times> 'q) option"
  assumes put_full: "put x q = None \<longleftrightarrow> capacity q \<le> length (contents q)"
    and put_some: "put x q = Some q' \<Longrightarrow> contents q' = contents q @ [x] \<and> capacity q' = capacity q"
    and get_empty: "get q = None \<longleftrightarrow> contents q = []"
    and get_some: "get q = Some (x, q') \<Longrightarrow> contents q = x # contents q' \<and> capacity q' = capacity q"
begin

lemma run_fifo:
  "queue_run put get ops q = (s, r, q') \<Longrightarrow> contents q @ s = r @ contents q' \<and> capacity q' = capacity q"
proof (induction ops arbitrary: q s r)
  case Nil
  then show ?case by simp
next
  case (Cons op ops)
  then show ?case
    by (cases op) (fastforce dest: put_some get_some split: option.splits prod.splits)+
qed

lemma put_within: "put x q = Some q' \<Longrightarrow> length (contents q') \<le> capacity q'"
  using put_full [of x q] put_some [of x q q'] by fastforce

lemma run_bounded:
  "queue_run put get ops q = (s, r, q') \<Longrightarrow> length (contents q) \<le> capacity q \<Longrightarrow>
   length (contents q') \<le> capacity q'"
proof (induction ops arbitrary: q s r)
  case Nil
  then show ?case by simp
next
  case (Cons op ops)
  show ?case
  proof (cases op)
    case (Send x)
    with Cons show ?thesis
      by (auto dest: put_within split: option.splits prod.splits)
  next
    case Receive
    then show ?thesis
      using Cons by (fastforce dest: get_some split: option.splits prod.splits)
  qed
qed

end

interpretation go_queue: bounded_fifo gc_buf gc_cap chan_put chan_get
  by unfold_locales auto

end
