(* ===== verification/Stream_Client.thy ===== *)
theory Stream_Client
  imports Stream_Wire Go_Channel
begin

text \<open>
  The state of the streaming client and every operation that changes it under \<open>client.mu\<close>:
  \<open>internal/client.go\<close>, \<open>internal/types.go\<close>, \<open>internal/connection.go\<close>,
  \<open>internal/subscription.go\<close>, \<open>internal/quote.go\<close>, \<open>internal/wire.go\<close>, \<open>internal/maker.go\<close> and
  \<open>internal/router.go\<close>. A \<open>*session\<close> pointer is an index into \<open>sc_sessions\<close>, a reply channel
  an index into \<open>sc_replies\<close>, and closing and replacing \<open>changed\<close> is the count \<open>sc_changed\<close>. What
  would crash or block the Go program (a send on a closed channel, closing twice, draining a
  closed channel, a reply or gate send without room) sets \<open>sc_fault\<close>. What the network and the
  callers' contexts do is an argument of the operation.
\<close>

subsection \<open>types.go, subscription.go, connection.go: data\<close>

datatype client_phase = NoPhase | Connecting | Connected | Reconnecting | Stopped

record client_status =
  st_Phase :: client_phase
  st_Generation :: u64
  st_SubscriptionRevision :: u64
  st_Identity :: string
  st_LastError :: "stream_error option"

record client_stats =
  cs_MessagesSent :: u64
  cs_MessagesReceived :: u64
  cs_BytesSent :: u64
  cs_BytesReceived :: u64
  cs_Reconnects :: u64
  cs_EventQueueLength :: nat
  cs_FrameQueueLength :: nat

datatype event_kind = FrameRejected | ConnectionChanged | SubscriptionChanged | ServerError

datatype subscription_kind = NoKind | Replace

record subscription_item_result =
  si_Index :: nat
  si_Filter :: pair_filter
  si_Accepted :: bool
  si_Reason :: string

record subscription_result =
  sub_Kind :: subscription_kind
  sub_Generation :: u64
  sub_SubscriptionRevision :: u64
  sub_Results :: "subscription_item_result list"

record maker_event =
  mev_Kind :: event_kind
  mev_Rejection :: "frame_ack option"
  mev_Status :: client_status

record router_event =
  rev_Kind :: event_kind
  rev_Status :: client_status
  rev_Subscription :: subscription_result
  rev_ServerError :: "server_error_info option"

record frame_key =
  fk_ChainID :: u64
  fk_PairID :: u32
  fk_Maker :: address

record frame_update =
  fu_Key :: frame_key
  fu_Frame :: market_frame
  fu_Generation :: u64
  fu_SubscriptionRevision :: u64

record subscription_request =
  sq_filters :: "pair_filter list"

record subscription_reply =
  reply_result :: subscription_result
  reply_err :: "stream_error option"

record pending_subscription =
  ps_request :: subscription_request
  ps_session :: nat
  ps_revision :: u64
  ps_reply :: nat

record session =
  sn_generation :: u64
  sn_started :: int
  sn_failure :: "stream_error option"
  sn_cancelled :: bool
  sn_connClosed :: bool

datatype fault = SendOnClosed | CloseOfClosed | DrainOfClosed | ReplyBlocked | GateBlocked

record router_state =
  rt_cfg :: router_config
  rt_subscribeGate :: "unit gochan"
  rt_frames :: "frame_update gochan"
  rt_ready :: bool
  rt_restoring :: bool
  rt_accepted :: "pair_filter list"
  rt_saved :: "subscription_request option"
  rt_pending :: "pending_subscription option"

record stream_client =
  sc_cfg :: connection_config
  sc_ctxErr :: "ctx_error option"
  sc_doneClosed :: bool
  sc_changed :: nat
  sc_status :: client_status
  sc_stats :: client_stats
  sc_stopped :: bool
  sc_err :: "stream_error option"
  sc_current :: "nat option"
  sc_maker :: bool
  sc_makerEvents :: "maker_event gochan"
  sc_routerEvents :: "router_event gochan"
  sc_router :: router_state
  sc_sessions :: "nat \<Rightarrow> session"
  sc_nextSession :: nat
  sc_replies :: "nat \<Rightarrow> subscription_reply gochan"
  sc_nextReply :: nat
  sc_fault :: "fault option"

definition zero_status :: client_status where
  "zero_status = \<lparr>st_Phase = NoPhase, st_Generation = 0, st_SubscriptionRevision = 0, st_Identity = [],
     st_LastError = None\<rparr>"

definition zero_result :: subscription_result where
  "zero_result = \<lparr>sub_Kind = NoKind, sub_Generation = 0, sub_SubscriptionRevision = 0, sub_Results = []\<rparr>"

definition set_fault :: "fault \<Rightarrow> stream_client \<Rightarrow> stream_client" where
  "set_fault f c = c\<lparr>sc_fault := Some f\<rparr>"

definition upd_session :: "nat \<Rightarrow> (session \<Rightarrow> session) \<Rightarrow> stream_client \<Rightarrow> stream_client" where
  "upd_session s f c = c\<lparr>sc_sessions := (sc_sessions c)(s := f (sc_sessions c s))\<rparr>"

text \<open>\<open>s.cancel()\<close> and \<open>s.conn.Close()\<close>; and \<open>s.ctx.Err() != nil\<close>, whose context is a child of
  the client's.\<close>

definition close_session :: "nat \<Rightarrow> stream_client \<Rightarrow> stream_client" where
  "close_session s = upd_session s (\<lambda>x. x\<lparr>sn_cancelled := True, sn_connClosed := True\<rparr>)"

definition session_done :: "nat \<Rightarrow> stream_client \<Rightarrow> bool" where
  "session_done s c \<longleftrightarrow> sn_cancelled (sc_sessions c s) \<or> sc_ctxErr c \<noteq> None"

subsection \<open>client.go\<close>

definition newClient :: "ctx_error option \<Rightarrow> connection_config \<Rightarrow> bool \<Rightarrow> router_state \<Rightarrow> stream_client" where
  "newClient lifetime cfg maker r =
    \<lparr>sc_cfg = cfg, sc_ctxErr = lifetime, sc_doneClosed = False, sc_changed = 0,
     sc_status = zero_status\<lparr>st_Phase := Connecting\<rparr>,
     sc_stats = \<lparr>cs_MessagesSent = 0, cs_MessagesReceived = 0, cs_BytesSent = 0, cs_BytesReceived = 0,
       cs_Reconnects = 0, cs_EventQueueLength = 0, cs_FrameQueueLength = 0\<rparr>,
     sc_stopped = False, sc_err = None, sc_current = None, sc_maker = maker,
     sc_makerEvents = make_chan (if maker then nat (cc_EventBufferSize cfg) else 0),
     sc_routerEvents = make_chan (if maker then 0 else nat (cc_EventBufferSize cfg)),
     sc_router = r,
     sc_sessions = (\<lambda>_. \<lparr>sn_generation = 0, sn_started = 0, sn_failure = None, sn_cancelled = False,
       sn_connClosed = False\<rparr>),
     sc_nextSession = 0, sc_replies = (\<lambda>_. make_chan 1), sc_nextReply = 0, sc_fault = None\<rparr>"

definition signalLocked :: "stream_client \<Rightarrow> stream_client" where
  "signalLocked c = c\<lparr>sc_changed := sc_changed c + 1\<rparr>"

text \<open>\<open>clearLocked\<close> of \<open>subscription.go\<close>. The drain loop would spin on a closed channel.\<close>

definition clearLocked :: "stream_client \<Rightarrow> stream_client" where
  "clearLocked c =
    (let r = sc_router c in
     if gc_closed (rt_frames r) then set_fault DrainOfClosed c
     else c\<lparr>sc_router := r\<lparr>rt_frames := chan_drain (rt_frames r), rt_ready := False, rt_accepted := [],
       rt_pending := None\<rparr>\<rparr>)"

definition status_maker_event :: "stream_client \<Rightarrow> maker_event" where
  "status_maker_event c = \<lparr>mev_Kind = ConnectionChanged, mev_Rejection = None, mev_Status = sc_status c\<rparr>"

definition status_router_event :: "stream_client \<Rightarrow> router_event" where
  "status_router_event c = \<lparr>rev_Kind = ConnectionChanged, rev_Status = sc_status c,
     rev_Subscription = zero_result, rev_ServerError = None\<rparr>"

text \<open>A \<open>select\<close> that sends \<open>e\<close>, with the default branch \<open>full\<close>.\<close>

definition send_maker :: "maker_event \<Rightarrow> (stream_client \<Rightarrow> stream_client) \<Rightarrow> stream_client \<Rightarrow> stream_client" where
  "send_maker e full c =
    (if gc_closed (sc_makerEvents c) then set_fault SendOnClosed c
     else case chan_put e (sc_makerEvents c) of Some ch \<Rightarrow> c\<lparr>sc_makerEvents := ch\<rparr> | None \<Rightarrow> full c)"

definition send_router :: "router_event \<Rightarrow> (stream_client \<Rightarrow> stream_client) \<Rightarrow> stream_client \<Rightarrow> stream_client" where
  "send_router e full c =
    (if gc_closed (sc_routerEvents c) then set_fault SendOnClosed c
     else case chan_put e (sc_routerEvents c) of Some ch \<Rightarrow> c\<lparr>sc_routerEvents := ch\<rparr> | None \<Rightarrow> full c)"

text \<open>The parts of \<open>stopLocked\<close> in their order; \<open>clear_subscription\<close> is
  \<open>if c.router != nil { c.router.clearLocked() }\<close>.\<close>

definition mark_stopped :: "stream_error option \<Rightarrow> stream_client \<Rightarrow> stream_client" where
  "mark_stopped err c = c\<lparr>sc_stopped := True, sc_err := err,
     sc_status := (sc_status c)\<lparr>st_Phase := Stopped,
       st_LastError := (if err = None then st_LastError (sc_status c) else err)\<rparr>\<rparr>"

definition clear_subscription :: "stream_client \<Rightarrow> stream_client" where
  "clear_subscription c = (if sc_maker c then c else clearLocked c)"

definition drop_current :: "stream_client \<Rightarrow> stream_client" where
  "drop_current c = (case sc_current c of None \<Rightarrow> c | Some s \<Rightarrow> (close_session s c)\<lparr>sc_current := None\<rparr>)"

definition cancel_client :: "stream_client \<Rightarrow> stream_client" where
  "cancel_client c = c\<lparr>sc_ctxErr := (if sc_ctxErr c = None then Some Canceled else sc_ctxErr c)\<rparr>"

definition final_event :: "stream_client \<Rightarrow> stream_client" where
  "final_event c =
    (if sc_maker c then send_maker (status_maker_event c) id c else send_router (status_router_event c) id c)"

definition stopLocked :: "stream_error option \<Rightarrow> stream_client \<Rightarrow> stream_client" where
  "stopLocked err c =
    (if sc_stopped c then c
     else final_event (signalLocked (cancel_client (drop_current (clear_subscription (mark_stopped err c))))))"

definition emitMakerLocked :: "maker_event \<Rightarrow> stream_client \<Rightarrow> stream_client" where
  "emitMakerLocked e c = (if sc_stopped c then c else send_maker e (stopLocked (Some ErrEventBufferFull)) c)"

definition emitRouterLocked :: "router_event \<Rightarrow> stream_client \<Rightarrow> stream_client" where
  "emitRouterLocked e c = (if sc_stopped c then c else send_router e (stopLocked (Some ErrEventBufferFull)) c)"

definition connectionEventLocked :: "stream_client \<Rightarrow> stream_client" where
  "connectionEventLocked c =
    (if sc_maker c then emitMakerLocked (status_maker_event c) c else emitRouterLocked (status_router_event c) c)"

definition stop :: "stream_error option \<Rightarrow> stream_client \<Rightarrow> stream_client" where
  "stop err c = stopLocked err c"

definition Err :: "stream_client \<Rightarrow> stream_error option" where
  "Err c = sc_err c"

definition Status :: "stream_client \<Rightarrow> client_status" where
  "Status c = sc_status c"

definition Stats :: "stream_client \<Rightarrow> client_stats" where
  "Stats c =
    (if sc_maker c then (sc_stats c)\<lparr>cs_EventQueueLength := length (gc_buf (sc_makerEvents c))\<rparr>
     else (sc_stats c)\<lparr>cs_EventQueueLength := length (gc_buf (sc_routerEvents c)),
       cs_FrameQueueLength := length (gc_buf (rt_frames (sc_router c)))\<rparr>)"

definition stoppedErrorLocked :: "stream_client \<Rightarrow> stream_error" where
  "stoppedErrorLocked c = (case sc_err c of Some e \<Rightarrow> e | None \<Rightarrow> ErrClosed)"

subsection \<open>connection.go\<close>

text \<open>What the dialer, the socket and the handshake context showed to one call of \<open>dial\<close>.\<close>

record dial_io =
  dio_dialErr :: "stream_error option"
  dio_respStatus :: "int option"
  dio_ctxErrDial :: "ctx_error option"
  dio_read :: "stream_error + bool \<times> bytes"
  dio_ctxErrRead :: "ctx_error option"
  dio_now :: int

definition count_received :: "bytes \<Rightarrow> stream_client \<Rightarrow> stream_client" where
  "count_received data c = c\<lparr>sc_stats := (sc_stats c)\<lparr>
     cs_MessagesReceived := cs_MessagesReceived (sc_stats c) + 1,
     cs_BytesReceived := cs_BytesReceived (sc_stats c) + of_nat (length data)\<rparr>\<rparr>"

definition count_sent :: "bytes \<Rightarrow> stream_client \<Rightarrow> stream_client" where
  "count_sent data c = c\<lparr>sc_stats := (sc_stats c)\<lparr>
     cs_MessagesSent := cs_MessagesSent (sc_stats c) + 1,
     cs_BytesSent := cs_BytesSent (sc_stats c) + of_nat (length data)\<rparr>\<rparr>"

definition dial_handshake :: "protolib \<Rightarrow> bool \<Rightarrow> dial_io \<Rightarrow> stream_error + string \<times> bytes" where
  "dial_handshake P maker io =
    (case dio_dialErr io of
       Some err \<Rightarrow>
        (case dio_ctxErrDial io of
           Some e \<Rightarrow> Inl (ContextError e)
         | None \<Rightarrow>
             if dio_respStatus io = Some 401 \<or> dio_respStatus io = Some 403
             then Inl (Errorf ''%w (HTTP %d)'' [ErrAuthentication]) else Inl err)
     | None \<Rightarrow>
         (let r = attempt (dio_read io) (\<lambda>(binary, data).
                reject (\<not> binary) (protocol_error ''expected binary connection acknowledgement'')
               (attempt (connectionAck P maker data) (\<lambda>identity. Inr (identity, data))));
              r' = (case dio_ctxErrRead io of Some e \<Rightarrow> Inl (ContextError e) | None \<Rightarrow> r)
          in wrap_err classifyReadError r'))"

definition dial :: "protolib \<Rightarrow> dial_io \<Rightarrow> stream_client \<Rightarrow> stream_client \<times> (stream_error + nat)" where
  "dial P io c =
    (case dial_handshake P (sc_maker c) io of
       Inl e \<Rightarrow> (c, Inl e)
     | Inr (identity, data) \<Rightarrow>
        (let s = sc_nextSession c;
             c1 = upd_session s (\<lambda>_. \<lparr>sn_generation = 0, sn_started = dio_now io, sn_failure = None,
               sn_cancelled = False, sn_connClosed = False\<rparr>) (c\<lparr>sc_nextSession := s + 1\<rparr>);
             c2 = count_received data c1
         in (c2\<lparr>sc_status := (sc_status c2)\<lparr>st_Identity := identity\<rparr>\<rparr>, Inr s)))"

definition install :: "nat \<Rightarrow> stream_client \<Rightarrow> stream_client \<times> bool" where
  "install s c =
    (if sc_stopped c \<or> sc_ctxErr c \<noteq> None then (close_session s c, False)
     else
       let c1 = c\<lparr>sc_status := (sc_status c)\<lparr>st_Generation := st_Generation (sc_status c) + 1\<rparr>\<rparr>;
           c2 = upd_session s (\<lambda>x. x\<lparr>sn_generation := st_Generation (sc_status c1)\<rparr>) c1;
           c3 = c2\<lparr>sc_current := Some s, sc_status := (sc_status c2)\<lparr>st_Phase := Connected\<rparr>\<rparr>;
           c4 = connectionEventLocked (signalLocked c3)
       in (c4, \<not> sc_stopped c4))"

text \<open>\<open>if s.failure == nil { s.failure = err }\<close>\<close>

definition note_failure :: "nat \<Rightarrow> stream_error \<Rightarrow> stream_client \<Rightarrow> stream_client" where
  "note_failure s err = upd_session s (\<lambda>x. if sn_failure x = None then x\<lparr>sn_failure := Some err\<rparr> else x)"

definition discard :: "nat \<Rightarrow> stream_error \<Rightarrow> stream_client \<Rightarrow> stream_client" where
  "discard s err c =
    (let c1 = note_failure s err c;
         c2 = (if sc_current c1 = Some s
               then (let c3 = c1\<lparr>sc_current := None\<rparr> in
                     if sc_stopped c3 then c3
                     else
                       let c4 = c3\<lparr>sc_status := (sc_status c3)\<lparr>st_Phase := Reconnecting, st_LastError := Some err\<rparr>\<rparr>
                       in connectionEventLocked (signalLocked (clear_subscription c4)))
               else c1)
     in close_session s c2)"

text \<open>The deferred function of \<open>runSession\<close>.\<close>

definition end_session :: "nat \<Rightarrow> stream_error \<Rightarrow> stream_client \<Rightarrow> stream_client" where
  "end_session s result c = close_session s (note_failure s result c)"

text \<open>What \<open>write\<close> (here \<open>write_message\<close>) observes: which case of its first \<open>select\<close> fired, the call context after
  the gate, the socket's result, and the call context after the write together with whether its
  callback had started.\<close>

datatype gate_outcome = GotGate | CallDone ctx_error | SessionGone

record write_io =
  wio_gate :: gate_outcome
  wio_callErr :: "ctx_error option"
  wio_result :: "stream_error option"
  wio_callErrAfter :: "ctx_error option"
  wio_callbackRan :: bool

text \<open>Up to the unlock before the network write; \<open>before\<close> runs under the lock.\<close>

definition write_begin :: "nat \<Rightarrow> bytes \<Rightarrow> (stream_client \<Rightarrow> stream_client) \<Rightarrow> write_io \<Rightarrow> stream_client \<Rightarrow>
    stream_error + stream_client" where
  "write_begin s data before io c =
     reject (int (length data) > cc_MaxWriteMessageBytes (sc_cfg c)) ErrMessageTooLarge
    (case wio_gate io of
       CallDone e \<Rightarrow> Inl (ContextError e)
     | SessionGone \<Rightarrow> Inl ErrDisconnected
     | GotGate \<Rightarrow>
        (case wio_callErr io of
           Some e \<Rightarrow> Inl (ContextError e)
         | None \<Rightarrow>
             reject (sc_stopped c \<or> sc_current c \<noteq> Some s \<or> session_done s c) ErrDisconnected
            (Inr (before c))))"

definition write_end :: "nat \<Rightarrow> bytes \<Rightarrow> write_io \<Rightarrow> stream_client \<Rightarrow> stream_client \<times> stream_error option" where
  "write_end s data io c =
    (let c1 = (case wio_callErrAfter io of
                 Some e \<Rightarrow> if wio_callbackRan io then discard s (ContextError e) c else c
               | None \<Rightarrow> c);
         err = (case wio_callErrAfter io of Some e \<Rightarrow> Some (ContextError e) | None \<Rightarrow> wio_result io)
     in case err of
          Some e \<Rightarrow> (discard s e c1, Some e)
        | None \<Rightarrow> (count_sent data c1, None))"

definition write_message :: "nat \<Rightarrow> bytes \<Rightarrow> (stream_client \<Rightarrow> stream_client) \<Rightarrow> write_io \<Rightarrow> stream_client \<Rightarrow>
    stream_client \<times> bool \<times> stream_error option" where
  "write_message s data before io c =
    (case write_begin s data before io c of
       Inl e \<Rightarrow> (c, False, Some e)
     | Inr c1 \<Rightarrow> (case write_end s data io c1 of (c2, err) \<Rightarrow> (c2, True, err)))"

end
