(* ===== verification/Stream_Operations.thy ===== *)
theory Stream_Operations
  imports Stream_Client
begin

text \<open>
  What the streaming client does with messages and calls, on the state of \<open>Stream_Client\<close>:
  subscribing, acknowledging, restoring and delivering frames (\<open>internal/subscription.go\<close>,
  \<open>internal/quote.go\<close>), dispatch of received envelopes and heartbeats (\<open>internal/wire.go\<close>),
  publishing and reading events (\<open>internal/maker.go\<close>), and the parts of \<open>internal/reconnect.go\<close>
  that touch the state. A call that waits is split where it waits: what it found when it
  continued is an argument.
\<close>

subsection \<open>subscription.go\<close>

fun validate_filters :: "hexlib \<Rightarrow> nat \<Rightarrow> pair_filter option list \<Rightarrow> stream_error + unit" where
  "validate_filters H i [] = Inr ()"
| "validate_filters H i (None # fs) = Inl (FilterError i ''is nil'')"
| "validate_filters H i (Some f # fs) =
     reject (case pf_Pair f of None \<Rightarrow> False | Some k \<Rightarrow> pk_ChainId k = 0 \<or> pk_PairId k = 0)
       (FilterError i ''has invalid pair key'')
    (reject (pf_Maker f \<noteq> [] \<and> (\<not> IsHexAddress H (pf_Maker f) \<or> HexToAddress H (pf_Maker f) = 0))
       (FilterError i ''has invalid maker'')
    (reject ((pf_AllowPairGray f \<and> pf_Pair f = None) \<or> (pf_AllowMakerGray f \<and> pf_Maker f = []))
       (FilterError i ''has invalid gray flags'')
    (reject (hasUnknownFields (reflect_pair_filter f)) (FilterError i ''has unknown fields'')
    (validate_filters H (i + 1) fs))))"

definition validateSubscriptionFilters :: "hexlib \<Rightarrow> pair_filter option list \<Rightarrow> int \<Rightarrow> stream_error + unit" where
  "validateSubscriptionFilters H filters limit =
     reject (filters = []) (NewError ''Subscribe requires a nonempty complete list'')
    (reject (int (length filters) > limit) (NewError ''too many subscription filters'')
    (validate_filters H 0 filters))"

definition cloneFilters :: "pair_filter option list \<Rightarrow> pair_filter list" where
  "cloneFilters filters = map the filters"

text \<open>\<open>Subscribe\<close> up to the wait for the gate.\<close>

definition Subscribe_request :: "hexlib \<Rightarrow> stream_client \<Rightarrow> pair_filter option list \<Rightarrow> stream_error + subscription_request" where
  "Subscribe_request H c filters =
     attempt (validateSubscriptionFilters H filters (rtc_MaxSubscribeFilters (rt_cfg (sc_router c)))) (\<lambda>_.
     Inr \<lparr>sq_filters = cloneFilters filters\<rparr>)"

datatype subscribe_select = SubscribeCallDone ctx_error | ClientDone | TookGate

definition subscribe :: "subscribe_select \<Rightarrow> ctx_error option \<Rightarrow> stream_client \<Rightarrow> stream_error + nat" where
  "subscribe sel callErr c =
    (case sel of
       SubscribeCallDone e \<Rightarrow> Inl (ContextError e)
     | ClientDone \<Rightarrow> Inl (stoppedErrorLocked c)
     | TookGate \<Rightarrow>
        (case callErr of
           Some e \<Rightarrow> Inl (ContextError e)
         | None \<Rightarrow>
             reject (sc_stopped c) ErrClosed
            (case sc_current c of None \<Rightarrow> Inl ErrDisconnected | Some s \<Rightarrow> Inr s)))"

definition take_gate :: "stream_client \<Rightarrow> stream_client option" where
  "take_gate c = (case chan_get (rt_subscribeGate (sc_router c)) of
     None \<Rightarrow> None
   | Some (u, ch) \<Rightarrow> Some (c\<lparr>sc_router := (sc_router c)\<lparr>rt_subscribeGate := ch\<rparr>\<rparr>))"

definition release_gate :: "stream_client \<Rightarrow> stream_client" where
  "release_gate c = (case chan_put () (rt_subscribeGate (sc_router c)) of
     None \<Rightarrow> set_fault GateBlocked c
   | Some ch \<Rightarrow> c\<lparr>sc_router := (sc_router c)\<lparr>rt_subscribeGate := ch\<rparr>\<rparr>)"

text \<open>The function \<open>before\<close> of \<open>sendSubscription\<close>; the reply channel was made just before.\<close>

definition begin_subscription :: "nat \<Rightarrow> subscription_request \<Rightarrow> stream_client \<Rightarrow> stream_client" where
  "begin_subscription s request c =
    (let p = sc_nextReply c;
         c0 = c\<lparr>sc_replies := (sc_replies c)(p := make_chan 1), sc_nextReply := p + 1\<rparr>;
         c1 = clearLocked c0;
         c2 = c1\<lparr>sc_status := (sc_status c1)\<lparr>st_SubscriptionRevision := st_SubscriptionRevision (sc_status c1) + 1\<rparr>\<rparr>;
         pending = \<lparr>ps_request = request, ps_session = s,
           ps_revision = st_SubscriptionRevision (sc_status c2), ps_reply = p\<rparr>;
         c3 = c2\<lparr>sc_router := (sc_router c2)\<lparr>rt_pending := Some pending, rt_saved := Some request\<rparr>\<rparr>
     in signalLocked c3)"

definition subscribe_envelope :: "subscription_request \<Rightarrow> int \<Rightarrow> router_envelope" where
  "subscribe_envelope request now = \<lparr>re_Type = RMT_SUBSCRIBE, re_Timestamp = now,
     re_Payload = RP_Subscribe \<lparr>sr_Filters = sq_filters request, sr_unknown = []\<rparr>, re_unknown = []\<rparr>"

text \<open>\<open>sendSubscription\<close> up to the network write; its handling of the write's result; and its
  final \<open>select\<close>, in which an available reply wins in every branch.\<close>

definition sendSubscription_begin :: "protolib \<Rightarrow> nat \<Rightarrow> subscription_request \<Rightarrow> int \<Rightarrow> write_io \<Rightarrow> stream_client \<Rightarrow>
    stream_error + bytes \<times> stream_client" where
  "sendSubscription_begin P s request now io c =
     attempt (marshal_router P (sc_cfg c) (subscribe_envelope request now)) (\<lambda>data.
     attempt (write_begin s data (begin_subscription s request) io c) (\<lambda>c1. Inr (data, c1)))"

definition sendSubscription_written :: "nat \<Rightarrow> bytes \<Rightarrow> write_io \<Rightarrow> stream_client \<Rightarrow>
    stream_client \<times> stream_error option" where
  "sendSubscription_written s data io c =
    (case write_end s data io c of
       (c1, Some e) \<Rightarrow> (discard s e c1, Some e)
     | (c1, None) \<Rightarrow> (c1, None))"

datatype wait_event = WaitContextDone ctx_error | WaitSessionDone

definition sendSubscription_wait :: "nat \<Rightarrow> nat \<Rightarrow> wait_event \<Rightarrow> stream_client \<Rightarrow>
    stream_client \<times> (stream_error + subscription_result)" where
  "sendSubscription_wait s p w c =
    (case chan_get (sc_replies c p) of
       Some (reply, ch) \<Rightarrow>
         (c\<lparr>sc_replies := (sc_replies c)(p := ch)\<rparr>,
          (case reply_err reply of Some e \<Rightarrow> Inl e | None \<Rightarrow> Inr (reply_result reply)))
     | None \<Rightarrow>
        (case w of
           WaitContextDone e \<Rightarrow> (discard s (ContextError e) c, Inl (ContextError e))
         | WaitSessionDone \<Rightarrow>
             (c, Inl (case sn_failure (sc_sessions c s) of Some e \<Rightarrow> e | None \<Rightarrow> ErrDisconnected))))"

text \<open>\<open>pending.reply <- v\<close>, sent while holding the mutex.\<close>

definition send_reply :: "nat \<Rightarrow> subscription_reply \<Rightarrow> stream_client \<Rightarrow> stream_client" where
  "send_reply p v c = (case chan_put v (sc_replies c p) of
     None \<Rightarrow> set_fault ReplyBlocked c
   | Some ch \<Rightarrow> c\<lparr>sc_replies := (sc_replies c)(p := ch)\<rparr>)"

text \<open>The loop over \<open>ack.Results\<close>: item results and accepted filters, or the missing item.\<close>

fun ack_items :: "nat \<Rightarrow> pair_filter_result option list \<Rightarrow> pair_filter list \<Rightarrow>
    stream_error + subscription_item_result list \<times> pair_filter list" where
  "ack_items i (None # items) fs = Inl (protocol_error ''missing filter result'')"
| "ack_items i (Some item # items) (f # fs) =
     attempt (ack_items (i + 1) items fs) (\<lambda>(results, accepted).
     Inr (\<lparr>si_Index = i, si_Filter = f, si_Accepted = pr_Ok item, si_Reason = pr_Reason item\<rparr> # results,
          if pr_Ok item then f # accepted else accepted))"
| "ack_items i _ _ = Inr ([], [])"

definition ack :: "nat \<Rightarrow> subscribe_ack \<Rightarrow> stream_client \<Rightarrow> stream_client \<times> stream_error option" where
  "ack s a c =
    (if sc_current c \<noteq> Some s \<or> sc_stopped c then (c, None)
     else case rt_pending (sc_router c) of
       None \<Rightarrow> (c, Some (protocol_error ''unsolicited subscription acknowledgement''))
     | Some pending \<Rightarrow>
         if ps_session pending \<noteq> s then (c, Some (protocol_error ''unsolicited subscription acknowledgement''))
         else if length (sa_Results a) \<noteq> length (sq_filters (ps_request pending))
         then (c, Some (protocol_error ''subscription result count mismatch''))
         else case ack_items 0 (sa_Results a) (sq_filters (ps_request pending)) of
           Inl e \<Rightarrow> (c, Some e)
         | Inr (results, accepted) \<Rightarrow>
            (let result = \<lparr>sub_Kind = Replace, sub_Generation = sn_generation (sc_sessions c s),
                   sub_SubscriptionRevision = ps_revision pending, sub_Results = results\<rparr>;
                 c1 = c\<lparr>sc_router := (sc_router c)\<lparr>rt_accepted := accepted, rt_ready := True, rt_pending := None\<rparr>\<rparr>;
                 c2 = emitRouterLocked \<lparr>rev_Kind = SubscriptionChanged, rev_Status = zero_status,
                   rev_Subscription = result, rev_ServerError = None\<rparr> c1;
                 c3 = (if sc_stopped c2
                       then send_reply (ps_reply pending)
                         \<lparr>reply_result = zero_result, reply_err = Some (stoppedErrorLocked c2)\<rparr> c2
                       else send_reply (ps_reply pending) \<lparr>reply_result = result, reply_err = None\<rparr> c2)
             in (signalLocked c3, None)))"

definition server_error_event :: "server_error_info \<Rightarrow> router_event" where
  "server_error_event i = \<lparr>rev_Kind = ServerError, rev_Status = zero_status, rev_Subscription = zero_result,
     rev_ServerError = Some i\<rparr>"

definition serverError :: "nat \<Rightarrow> pb_error \<Rightarrow> stream_client \<Rightarrow> stream_client \<times> stream_error option" where
  "serverError s value c =
    (if sc_current c \<noteq> Some s \<or> sc_stopped c then (c, None)
     else
       let info = \<lparr>se_Code = pe_Code value, se_Message = pe_Message value\<rparr> in
       if pe_Code value = ''subscribe_request_too_large''
       then (case rt_pending (sc_router c) of
               None \<Rightarrow> (c, Some (protocol_error ''unsolicited subscription rejection''))
             | Some pending \<Rightarrow>
                 (emitRouterLocked (server_error_event info)
                   (send_reply (ps_reply pending) \<lparr>reply_result = zero_result, reply_err = Some (ServerErrorE info)\<rparr>
                     (c\<lparr>sc_router := (sc_router c)\<lparr>rt_pending := None\<rparr>\<rparr>)), None))
       else (emitRouterLocked (server_error_event info) c, None))"

text \<open>\<open>restore\<close>: what it does with the outcome of \<open>sendSubscription\<close>, and its deferred end.\<close>

definition restore_outcome :: "nat \<Rightarrow> stream_error option \<Rightarrow> stream_client \<Rightarrow> stream_client" where
  "restore_outcome s err c =
    (case err of
       None \<Rightarrow> c
     | Some e \<Rightarrow> (case as_ServerError e of Some _ \<Rightarrow> stop (Some e) c | None \<Rightarrow> discard s e c))"

definition restore_end :: "stream_client \<Rightarrow> stream_client" where
  "restore_end c = release_gate (signalLocked (c\<lparr>sc_router := (sc_router c)\<lparr>rt_restoring := False\<rparr>\<rparr>))"

subsection \<open>quote.go\<close>

fun matchesLocked :: "hexlib \<Rightarrow> pair_filter list \<Rightarrow> frame_key \<Rightarrow> bool" where
  "matchesLocked H [] key = False"
| "matchesLocked H (f # accepted) key =
    (if (case pf_Pair f of None \<Rightarrow> False | Some k \<Rightarrow> pk_ChainId k \<noteq> fk_ChainID key \<or> pk_PairId k \<noteq> fk_PairID key)
     then matchesLocked H accepted key
     else if pf_Maker f \<noteq> [] \<and> HexToAddress H (pf_Maker f) \<noteq> fk_Maker key
     then matchesLocked H accepted key
     else True)"

definition update :: "hexlib \<Rightarrow> nat \<Rightarrow> market_frame option \<Rightarrow> stream_client \<Rightarrow> stream_client \<times> stream_error option" where
  "update H s value c =
    (if sc_current c \<noteq> Some s \<or> \<not> rt_ready (sc_router c) \<or> sc_stopped c then (c, None)
     else case value of
       None \<Rightarrow> (c, Some (protocol_error ''missing frame or pair''))
     | Some m \<Rightarrow>
        (case mf_Pair m of
           None \<Rightarrow> (c, Some (protocol_error ''missing frame or pair''))
         | Some pair \<Rightarrow>
            (let key = \<lparr>fk_ChainID = pk_ChainId pair, fk_PairID = pk_PairId pair,
                   fk_Maker = HexToAddress H (mf_MakerAddr m)\<rparr> in
             if \<not> matchesLocked H (rt_accepted (sc_router c)) key then (c, None)
             else
               let u = \<lparr>fu_Key = key, fu_Frame = m, fu_Generation = sn_generation (sc_sessions c s),
                     fu_SubscriptionRevision = st_SubscriptionRevision (sc_status c)\<rparr> in
               if gc_closed (rt_frames (sc_router c)) then (set_fault SendOnClosed c, None)
               else case chan_put u (rt_frames (sc_router c)) of
                 Some ch \<Rightarrow> (c\<lparr>sc_router := (sc_router c)\<lparr>rt_frames := ch\<rparr>\<rparr>, None)
               | None \<Rightarrow> (stopLocked (Some ErrFrameBufferFull) c, Some ErrFrameBufferFull))))"

subsection \<open>wire.go\<close>

definition heartbeat_message :: "bool \<Rightarrow> bool \<Rightarrow> heartbeat" where
  "heartbeat_message ping pong = \<lparr>hb_Ping = ping, hb_Pong = pong, hb_unknown = []\<rparr>"

definition heartbeat_data :: "protolib \<Rightarrow> stream_client \<Rightarrow> bool \<Rightarrow> bool \<Rightarrow> int \<Rightarrow> stream_error + bytes" where
  "heartbeat_data P c ping pong now =
    (if sc_maker c
     then marshal_maker P (sc_cfg c) \<lparr>me_Type = MMT_HEARTBEAT, me_Timestamp = now,
            me_Payload = MP_Heartbeat (heartbeat_message ping pong), me_unknown = []\<rparr>
     else marshal_router P (sc_cfg c) \<lparr>re_Type = RMT_HEARTBEAT, re_Timestamp = now,
            re_Payload = RP_Heartbeat (heartbeat_message ping pong), re_unknown = []\<rparr>)"

definition sendHeartbeat :: "protolib \<Rightarrow> nat \<Rightarrow> bool \<Rightarrow> bool \<Rightarrow> int \<Rightarrow> write_io \<Rightarrow> stream_client \<Rightarrow>
    stream_client \<times> stream_error option" where
  "sendHeartbeat P s ping pong now io c =
    (case heartbeat_data P c ping pong now of
       Inl e \<Rightarrow> (c, Some e)
     | Inr data \<Rightarrow> (case write_message s data id io c of (c1, started, err) \<Rightarrow> (c1, err)))"

definition handle_heartbeat :: "protolib \<Rightarrow> nat \<Rightarrow> heartbeat option \<Rightarrow> int \<Rightarrow> write_io \<Rightarrow> stream_client \<Rightarrow>
    stream_client \<times> stream_error option" where
  "handle_heartbeat P s h now io c =
    (case h of
       None \<Rightarrow> (c, Some (protocol_error ''invalid heartbeat''))
     | Some h \<Rightarrow>
         if \<not> hb_Ping h \<and> \<not> hb_Pong h then (c, Some (protocol_error ''invalid heartbeat''))
         else if hb_Ping h then sendHeartbeat P s False True now io c
         else (c, None))"

definition handle_maker :: "protolib \<Rightarrow> nat \<Rightarrow> maker_envelope \<Rightarrow> int \<Rightarrow> write_io \<Rightarrow> stream_client \<Rightarrow>
    stream_client \<times> stream_error option" where
  "handle_maker P s e now io c =
    (case me_Type e of
       MMT_HEARTBEAT \<Rightarrow> handle_heartbeat P s (me_GetHeartbeat e) now io c
     | MMT_FRAME_ACK \<Rightarrow>
        (case me_GetFrameAck e of
           None \<Rightarrow> (c, Some (protocol_error ''invalid frame rejection''))
         | Some a \<Rightarrow>
             if fa_Accepted a \<or> fa_Pair a = None \<or> fa_MinorVersion a > 255
             then (c, Some (protocol_error ''invalid frame rejection''))
             else (if sc_current c = Some s
                   then emitMakerLocked \<lparr>mev_Kind = FrameRejected, mev_Rejection = Some a, mev_Status = zero_status\<rparr> c
                   else c, None))
     | _ \<Rightarrow> (c, Some (protocol_error ''unexpected maker message'')))"

definition handle_router :: "protolib \<Rightarrow> hexlib \<Rightarrow> nat \<Rightarrow> router_envelope \<Rightarrow> int \<Rightarrow> write_io \<Rightarrow> stream_client \<Rightarrow>
    stream_client \<times> stream_error option" where
  "handle_router P H s e now io c =
    (case re_Type e of
       RMT_HEARTBEAT \<Rightarrow> handle_heartbeat P s (re_GetHeartbeat e) now io c
     | RMT_SUBSCRIBE_ACK \<Rightarrow>
        (case re_GetSubscribeAck e of
           None \<Rightarrow> (c, Some (protocol_error ''missing subscribe ack''))
         | Some a \<Rightarrow> ack s a c)
     | RMT_FRAME_UPDATE \<Rightarrow>
        (case re_GetUpdate e of
           None \<Rightarrow> (c, Some (protocol_error ''missing frame''))
         | Some m \<Rightarrow> update H s (Some m) c)
     | RMT_ERROR \<Rightarrow>
        (case re_GetError e of
           None \<Rightarrow> (c, Some (protocol_error ''invalid server error''))
         | Some x \<Rightarrow>
             if pe_Code x = [] then (c, Some (protocol_error ''invalid server error''))
             else serverError s x c)
     | _ \<Rightarrow> (c, Some (protocol_error ''unexpected router message'')))"

definition handle :: "protolib \<Rightarrow> hexlib \<Rightarrow> nat \<Rightarrow> bytes \<Rightarrow> int \<Rightarrow> write_io \<Rightarrow> stream_client \<Rightarrow>
    stream_client \<times> stream_error option" where
  "handle P H s data now io c =
    (if sc_maker c
     then (case decode_maker P data of Inl e \<Rightarrow> (c, Some e) | Inr e \<Rightarrow> handle_maker P s e now io c)
     else (case decode_router P data of Inl e \<Rightarrow> (c, Some e) | Inr e \<Rightarrow> handle_router P H s e now io c))"

text \<open>One turn of the read loop of \<open>runSession\<close>: Some error ends the session.\<close>

definition read_turn :: "protolib \<Rightarrow> hexlib \<Rightarrow> nat \<Rightarrow> stream_error + bool \<times> bytes \<Rightarrow> int \<Rightarrow> write_io \<Rightarrow> stream_client \<Rightarrow>
    stream_client \<times> stream_error option" where
  "read_turn P H s received now io c =
    (case received of
       Inl e \<Rightarrow> (c, Some (classifyReadError e))
     | Inr (binary, data) \<Rightarrow>
         if \<not> binary then (c, Some (protocol_error ''expected binary envelope''))
         else handle P H s data now io (count_received data c))"

subsection \<open>maker.go\<close>

definition publish_envelope :: "market_frame \<Rightarrow> int \<Rightarrow> maker_envelope" where
  "publish_envelope m now = \<lparr>me_Type = MMT_FRAME_PUSH, me_Timestamp = now, me_Payload = MP_FramePush m, me_unknown = []\<rparr>"

definition publish_failure :: "publish_outcome \<Rightarrow> stream_error \<Rightarrow> publish_error" where
  "publish_failure out e = \<lparr>pube_Outcome = out, pube_Err = e\<rparr>"

definition Publish :: "protolib \<Rightarrow> ctx_error option \<Rightarrow> market_frame option \<Rightarrow> int \<Rightarrow> write_io \<Rightarrow> stream_client \<Rightarrow>
    stream_client \<times> publish_error option" where
  "Publish P ctxErr value now io c =
    (let fail = (\<lambda>e. (c, Some (publish_failure NotSent e))) in
     case ctxErr of Some e \<Rightarrow> fail (ContextError e)
     | None \<Rightarrow>
    (case value of None \<Rightarrow> fail (NewError ''frame and 65-byte signature are required'')
     | Some m \<Rightarrow>
         if length (mf_Signature m) \<noteq> 65 then fail (NewError ''frame and 65-byte signature are required'')
         else if mf_Signature m ! 64 \<noteq> 27 \<and> mf_Signature m ! 64 \<noteq> 28
         then fail (NewError ''wire signature recovery ID must be 27 or 28'')
         else case marshal_maker P (sc_cfg c) (publish_envelope m now) of
           Inl e \<Rightarrow> fail e
         | Inr data \<Rightarrow>
             if sc_stopped c then fail ErrClosed
             else case sc_current c of
               None \<Rightarrow> fail ErrDisconnected
             | Some s \<Rightarrow>
                (case write_message s data id io c of
                   (c1, started, Some e) \<Rightarrow> (c1, Some (publish_failure (if started then Unknown else NotSent) e))
                 | (c1, started, None) \<Rightarrow> (c1, None))))"

text \<open>\<open>Next\<close>: \<open>ctxDone\<close> is the error when the \<open>select\<close> took the context branch; None is a call
  that still waits.\<close>

definition Next :: "ctx_error option \<Rightarrow> stream_client \<Rightarrow> stream_client \<times> (stream_error + maker_event) option" where
  "Next ctxDone c =
    (case ctxDone of
       Some e \<Rightarrow> (c, Some (Inl (ContextError e)))
     | None \<Rightarrow>
        (case chan_get (sc_makerEvents c) of
           Some (event, ch) \<Rightarrow> (c\<lparr>sc_makerEvents := ch\<rparr>, Some (Inr event))
         | None \<Rightarrow>
             if gc_closed (sc_makerEvents c)
             then (c, Some (Inl (case Err c of Some e \<Rightarrow> e | None \<Rightarrow> EOF)))
             else (c, None)))"

subsection \<open>router.go: a caller receives from its channels\<close>

definition receive_frame :: "stream_client \<Rightarrow> (frame_update \<times> stream_client) option" where
  "receive_frame c = (case chan_get (rt_frames (sc_router c)) of
     None \<Rightarrow> None
   | Some (u, ch) \<Rightarrow> Some (u, c\<lparr>sc_router := (sc_router c)\<lparr>rt_frames := ch\<rparr>\<rparr>))"

definition receive_event :: "stream_client \<Rightarrow> (router_event \<times> stream_client) option" where
  "receive_event c = (case chan_get (sc_routerEvents c) of
     None \<Rightarrow> None
   | Some (e, ch) \<Rightarrow> Some (e, c\<lparr>sc_routerEvents := ch\<rparr>))"

definition new_router_state :: "router_config \<Rightarrow> router_state" where
  "new_router_state cfg = \<lparr>rt_cfg = cfg, rt_subscribeGate = (make_chan 1)\<lparr>gc_buf := [()]\<rparr>,
     rt_frames = make_chan (nat (rtc_FrameBufferSize cfg)), rt_ready = False, rt_restoring = False,
     rt_accepted = [], rt_saved = None, rt_pending = None\<rparr>"

subsection \<open>reconnect.go\<close>

text \<open>\<open>Reconnect\<close> up to its loop (the generation it waits to exceed), and one turn of the loop:
  None waits for the next change.\<close>

definition Reconnect_begin :: "ctx_error option \<Rightarrow> stream_client \<Rightarrow> stream_client \<times> (stream_error + u64)" where
  "Reconnect_begin ctxErr c =
    (case ctxErr of
       Some e \<Rightarrow> (c, Inl (ContextError e))
     | None \<Rightarrow>
         if sc_stopped c then (c, Inl (stoppedErrorLocked c))
         else
           let generation = st_Generation (sc_status c) in
           (case sc_current c of
              None \<Rightarrow> (c, Inr generation)
            | Some s \<Rightarrow> (discard s ErrManualReconnect c, Inr generation)))"

definition Reconnect_turn :: "u64 \<Rightarrow> stream_client \<Rightarrow> (stream_error + unit) option" where
  "Reconnect_turn generation c =
    (if sc_stopped c then Some (Inl (stoppedErrorLocked c))
     else if st_Phase (sc_status c) = Connected \<and> st_Generation (sc_status c) > generation \<and>
             (sc_maker c \<or> \<not> rt_restoring (sc_router c))
     then Some (Inr ()) else None)"

text \<open>Sections of \<open>run\<close>: the cause of a lost session, counting an attempt, a failed attempt, the
  reservation of the gate before a new session is shown, and the deferred end.\<close>

definition run_cause :: "nat \<Rightarrow> stream_error \<Rightarrow> stream_client \<Rightarrow> stream_error" where
  "run_cause s err c = (case sn_failure (sc_sessions c s) of
     Some f \<Rightarrow> if \<not> terminalError err then f else err
   | None \<Rightarrow> err)"

definition count_attempt :: "stream_client \<Rightarrow> stream_client" where
  "count_attempt c = c\<lparr>sc_stats := (sc_stats c)\<lparr>cs_Reconnects := cs_Reconnects (sc_stats c) + 1\<rparr>\<rparr>"

definition run_dial_failed :: "stream_error \<Rightarrow> stream_client \<Rightarrow> stream_client" where
  "run_dial_failed e c = signalLocked (c\<lparr>sc_status := (sc_status c)\<lparr>st_LastError := Some e\<rparr>\<rparr>)"

definition run_reserve :: "stream_client \<Rightarrow> stream_client option" where
  "run_reserve c = (case take_gate c of
     None \<Rightarrow> None
   | Some c1 \<Rightarrow> Some (c1\<lparr>sc_router := (sc_router c1)\<lparr>rt_restoring := True\<rparr>\<rparr>))"

definition run_finish :: "stream_client \<Rightarrow> stream_client" where
  "run_finish c =
    (let c1 = (if \<not> sc_stopped c then stopLocked (map_option ContextError (sc_ctxErr c)) c else c);
         c2 = (if sc_maker c1
               then (if gc_closed (sc_makerEvents c1) then set_fault CloseOfClosed c1
                     else c1\<lparr>sc_makerEvents := chan_close (sc_makerEvents c1)\<rparr>)
               else if gc_closed (sc_routerEvents c1) \<or> gc_closed (rt_frames (sc_router c1))
               then set_fault CloseOfClosed c1
               else c1\<lparr>sc_routerEvents := chan_close (sc_routerEvents c1),
                 sc_router := (sc_router c1)\<lparr>rt_frames := chan_close (rt_frames (sc_router c1))\<rparr>\<rparr>)
     in c2\<lparr>sc_doneClosed := True\<rparr>)"

end
