(* ===== verification/Stream_Invariant.thy ===== *)
theory Stream_Invariant
  imports Stream_Operations
begin

text \<open>
  The invariant of the streaming client's state and the proof that every locked operation keeps
  it: nothing faults, the phase agrees with the flags, a queued frame belongs to the current
  generation and revision and matches an accepted filter, and the pending request belongs to the
  current session.
\<close>

definition lifecycle_ok :: "stream_client \<Rightarrow> bool" where
  "lifecycle_ok c \<longleftrightarrow>
     sc_fault c = None \<and>
     (sc_stopped c \<longleftrightarrow> st_Phase (sc_status c) = Stopped) \<and>
     (sc_current c \<noteq> None \<longleftrightarrow> st_Phase (sc_status c) = Connected) \<and>
     (sc_stopped c \<longrightarrow> sc_ctxErr c \<noteq> None) \<and>
     (sc_err c \<noteq> None \<longrightarrow> sc_stopped c) \<and>
     (\<forall>s. sc_current c = Some s \<longrightarrow> s < sc_nextSession c \<and>
        sn_generation (sc_sessions c s) = st_Generation (sc_status c))"

definition queues_ok :: "stream_client \<Rightarrow> bool" where
  "queues_ok c \<longleftrightarrow>
     (gc_closed (sc_makerEvents c) \<longrightarrow> sc_stopped c) \<and>
     (gc_closed (sc_routerEvents c) \<longrightarrow> sc_stopped c) \<and>
     (gc_closed (rt_frames (sc_router c)) \<longrightarrow> sc_stopped c) \<and>
     length (gc_buf (sc_makerEvents c)) \<le> gc_cap (sc_makerEvents c) \<and>
     length (gc_buf (sc_routerEvents c)) \<le> gc_cap (sc_routerEvents c) \<and>
     length (gc_buf (rt_frames (sc_router c))) \<le> gc_cap (rt_frames (sc_router c))"

text \<open>A frame in the queue of a client in state \<open>c\<close>.\<close>

definition frame_current :: "hexlib \<Rightarrow> stream_client \<Rightarrow> frame_update \<Rightarrow> bool" where
  "frame_current H c u \<longleftrightarrow>
     fu_Generation u = st_Generation (sc_status c) \<and>
     fu_SubscriptionRevision u = st_SubscriptionRevision (sc_status c) \<and>
     matchesLocked H (rt_accepted (sc_router c)) (fu_Key u)"

definition saved_filters :: "stream_client \<Rightarrow> pair_filter set" where
  "saved_filters c = (case rt_saved (sc_router c) of None \<Rightarrow> {} | Some q \<Rightarrow> set (sq_filters q))"

definition delivery_ok :: "hexlib \<Rightarrow> stream_client \<Rightarrow> bool" where
  "delivery_ok H c \<longleftrightarrow>
     (rt_ready (sc_router c) \<longrightarrow> sc_current c \<noteq> None \<and> rt_pending (sc_router c) = None \<and> \<not> sc_maker c) \<and>
     (\<not> rt_ready (sc_router c) \<longrightarrow> gc_buf (rt_frames (sc_router c)) = [] \<and> rt_accepted (sc_router c) = []) \<and>
     (\<forall>u\<in>set (gc_buf (rt_frames (sc_router c))). frame_current H c u) \<and>
     set (rt_accepted (sc_router c)) \<subseteq> saved_filters c"

definition pending_ok :: "stream_client \<Rightarrow> bool" where
  "pending_ok c \<longleftrightarrow>
     (\<forall>p. rt_pending (sc_router c) = Some p \<longrightarrow>
        sc_current c = Some (ps_session p) \<and> \<not> sc_maker c \<and>
        ps_revision p = st_SubscriptionRevision (sc_status c) \<and>
        rt_saved (sc_router c) = Some (ps_request p) \<and>
        ps_reply p < sc_nextReply c \<and> gc_buf (sc_replies c (ps_reply p)) = []) \<and>
     (\<forall>i. gc_cap (sc_replies c i) = 1)"

definition client_inv :: "hexlib \<Rightarrow> stream_client \<Rightarrow> bool" where
  "client_inv H c \<longleftrightarrow> lifecycle_ok c \<and> queues_ok c \<and> delivery_ok H c \<and> pending_ok c"

lemmas inv_defs = client_inv_def lifecycle_ok_def queues_ok_def delivery_ok_def pending_ok_def
  frame_current_def saved_filters_def

subsection \<open>Which fields each part reads\<close>

lemma lifecycle_ok_frame [simp]:
  "lifecycle_ok (c\<lparr>sc_cfg := v_cfg\<rparr>) = lifecycle_ok c"
  "lifecycle_ok (c\<lparr>sc_doneClosed := v_doneClosed\<rparr>) = lifecycle_ok c"
  "lifecycle_ok (c\<lparr>sc_changed := v_changed\<rparr>) = lifecycle_ok c"
  "lifecycle_ok (c\<lparr>sc_stats := v_stats\<rparr>) = lifecycle_ok c"
  "lifecycle_ok (c\<lparr>sc_maker := v_maker\<rparr>) = lifecycle_ok c"
  "lifecycle_ok (c\<lparr>sc_makerEvents := v_makerEvents\<rparr>) = lifecycle_ok c"
  "lifecycle_ok (c\<lparr>sc_routerEvents := v_routerEvents\<rparr>) = lifecycle_ok c"
  "lifecycle_ok (c\<lparr>sc_router := v_router\<rparr>) = lifecycle_ok c"
  "lifecycle_ok (c\<lparr>sc_replies := v_replies\<rparr>) = lifecycle_ok c"
  "lifecycle_ok (c\<lparr>sc_nextReply := v_nextReply\<rparr>) = lifecycle_ok c"
  by (simp_all add: lifecycle_ok_def)

lemma queues_ok_frame [simp]:
  "queues_ok (c\<lparr>sc_cfg := v_cfg\<rparr>) = queues_ok c"
  "queues_ok (c\<lparr>sc_ctxErr := v_ctxErr\<rparr>) = queues_ok c"
  "queues_ok (c\<lparr>sc_doneClosed := v_doneClosed\<rparr>) = queues_ok c"
  "queues_ok (c\<lparr>sc_changed := v_changed\<rparr>) = queues_ok c"
  "queues_ok (c\<lparr>sc_status := v_status\<rparr>) = queues_ok c"
  "queues_ok (c\<lparr>sc_stats := v_stats\<rparr>) = queues_ok c"
  "queues_ok (c\<lparr>sc_err := v_err\<rparr>) = queues_ok c"
  "queues_ok (c\<lparr>sc_current := v_current\<rparr>) = queues_ok c"
  "queues_ok (c\<lparr>sc_maker := v_maker\<rparr>) = queues_ok c"
  "queues_ok (c\<lparr>sc_sessions := v_sessions\<rparr>) = queues_ok c"
  "queues_ok (c\<lparr>sc_nextSession := v_nextSession\<rparr>) = queues_ok c"
  "queues_ok (c\<lparr>sc_replies := v_replies\<rparr>) = queues_ok c"
  "queues_ok (c\<lparr>sc_nextReply := v_nextReply\<rparr>) = queues_ok c"
  "queues_ok (c\<lparr>sc_fault := v_fault\<rparr>) = queues_ok c"
  by (simp_all add: queues_ok_def)

lemma delivery_ok_frame [simp]:
  "delivery_ok H (c\<lparr>sc_cfg := v_cfg\<rparr>) = delivery_ok H c"
  "delivery_ok H (c\<lparr>sc_ctxErr := v_ctxErr\<rparr>) = delivery_ok H c"
  "delivery_ok H (c\<lparr>sc_doneClosed := v_doneClosed\<rparr>) = delivery_ok H c"
  "delivery_ok H (c\<lparr>sc_changed := v_changed\<rparr>) = delivery_ok H c"
  "delivery_ok H (c\<lparr>sc_stats := v_stats\<rparr>) = delivery_ok H c"
  "delivery_ok H (c\<lparr>sc_stopped := v_stopped\<rparr>) = delivery_ok H c"
  "delivery_ok H (c\<lparr>sc_err := v_err\<rparr>) = delivery_ok H c"
  "delivery_ok H (c\<lparr>sc_makerEvents := v_makerEvents\<rparr>) = delivery_ok H c"
  "delivery_ok H (c\<lparr>sc_routerEvents := v_routerEvents\<rparr>) = delivery_ok H c"
  "delivery_ok H (c\<lparr>sc_sessions := v_sessions\<rparr>) = delivery_ok H c"
  "delivery_ok H (c\<lparr>sc_nextSession := v_nextSession\<rparr>) = delivery_ok H c"
  "delivery_ok H (c\<lparr>sc_replies := v_replies\<rparr>) = delivery_ok H c"
  "delivery_ok H (c\<lparr>sc_nextReply := v_nextReply\<rparr>) = delivery_ok H c"
  "delivery_ok H (c\<lparr>sc_fault := v_fault\<rparr>) = delivery_ok H c"
  by (simp_all add: delivery_ok_def frame_current_def saved_filters_def)

lemma pending_ok_frame [simp]:
  "pending_ok (c\<lparr>sc_cfg := v_cfg\<rparr>) = pending_ok c"
  "pending_ok (c\<lparr>sc_ctxErr := v_ctxErr\<rparr>) = pending_ok c"
  "pending_ok (c\<lparr>sc_doneClosed := v_doneClosed\<rparr>) = pending_ok c"
  "pending_ok (c\<lparr>sc_changed := v_changed\<rparr>) = pending_ok c"
  "pending_ok (c\<lparr>sc_stats := v_stats\<rparr>) = pending_ok c"
  "pending_ok (c\<lparr>sc_stopped := v_stopped\<rparr>) = pending_ok c"
  "pending_ok (c\<lparr>sc_err := v_err\<rparr>) = pending_ok c"
  "pending_ok (c\<lparr>sc_makerEvents := v_makerEvents\<rparr>) = pending_ok c"
  "pending_ok (c\<lparr>sc_routerEvents := v_routerEvents\<rparr>) = pending_ok c"
  "pending_ok (c\<lparr>sc_sessions := v_sessions\<rparr>) = pending_ok c"
  "pending_ok (c\<lparr>sc_nextSession := v_nextSession\<rparr>) = pending_ok c"
  "pending_ok (c\<lparr>sc_fault := v_fault\<rparr>) = pending_ok c"
  by (simp_all add: pending_ok_def)

lemma stopped_state:
  assumes "client_inv H c" "sc_stopped c"
  shows "st_Phase (sc_status c) = Stopped" "sc_current c = None" "gc_buf (rt_frames (sc_router c)) = []"
    "\<not> rt_ready (sc_router c)" "rt_pending (sc_router c) = None" "rt_accepted (sc_router c) = []"
    "sc_ctxErr c \<noteq> None"
  using assms by (auto simp: inv_defs)

lemma open_when_running:
  assumes "client_inv H c" "\<not> sc_stopped c"
  shows "\<not> gc_closed (sc_makerEvents c)" "\<not> gc_closed (sc_routerEvents c)" "\<not> gc_closed (rt_frames (sc_router c))"
  using assms by (auto simp: inv_defs)

subsection \<open>Steps that only touch bookkeeping\<close>

lemma delivery_ok_status [simp]:
  "delivery_ok H (c\<lparr>sc_status := t\<rparr>) = delivery_ok H c"
  "pending_ok (c\<lparr>sc_status := t\<rparr>) = pending_ok c"
  if "st_Generation t = st_Generation (sc_status c)"
    "st_SubscriptionRevision t = st_SubscriptionRevision (sc_status c)"
  using that by (simp_all add: delivery_ok_def pending_ok_def frame_current_def saved_filters_def)

lemma inv_signalLocked [simp]: "client_inv H (signalLocked c) \<longleftrightarrow> client_inv H c"
  by (simp add: signalLocked_def client_inv_def)

lemma inv_count_received [simp]: "client_inv H (count_received d c) \<longleftrightarrow> client_inv H c"
  by (simp add: count_received_def client_inv_def)

lemma inv_count_sent [simp]: "client_inv H (count_sent d c) \<longleftrightarrow> client_inv H c"
  by (simp add: count_sent_def client_inv_def)

lemma inv_count_attempt [simp]: "client_inv H (count_attempt c) \<longleftrightarrow> client_inv H c"
  by (simp add: count_attempt_def client_inv_def)

lemma inv_upd_session:
  assumes "client_inv H c" "\<And>x. sn_generation (f x) = sn_generation x"
  shows "client_inv H (upd_session s f c)"
proof -
  have "lifecycle_ok (upd_session s f c)"
    using assms unfolding client_inv_def lifecycle_ok_def upd_session_def by auto
  then show ?thesis
    using assms(1) by (simp add: client_inv_def upd_session_def)
qed

lemma inv_close_session: "client_inv H c \<Longrightarrow> client_inv H (close_session s c)"
  unfolding close_session_def by (erule inv_upd_session) simp

lemma inv_note_failure: "client_inv H c \<Longrightarrow> client_inv H (note_failure s e c)"
  unfolding note_failure_def by (erule inv_upd_session) simp

lemma inv_end_session: "client_inv H c \<Longrightarrow> client_inv H (end_session s e c)"
  unfolding end_session_def by (intro inv_close_session inv_note_failure)

lemma lifecycle_last_error [simp]:
  "lifecycle_ok (c\<lparr>sc_status := (sc_status c)\<lparr>st_LastError := e\<rparr>\<rparr>) = lifecycle_ok c"
  "lifecycle_ok (c\<lparr>sc_status := (sc_status c)\<lparr>st_Identity := i\<rparr>\<rparr>) = lifecycle_ok c"
  by (simp_all add: lifecycle_ok_def)

lemma inv_run_dial_failed: "client_inv H c \<Longrightarrow> client_inv H (run_dial_failed e c)"
  by (simp add: run_dial_failed_def signalLocked_def client_inv_def)

lemma router_fields_frame [simp]:
  "queues_ok (c\<lparr>sc_router := (sc_router c)\<lparr>rt_restoring := b\<rparr>\<rparr>) = queues_ok c"
  "delivery_ok H (c\<lparr>sc_router := (sc_router c)\<lparr>rt_restoring := b\<rparr>\<rparr>) = delivery_ok H c"
  "pending_ok (c\<lparr>sc_router := (sc_router c)\<lparr>rt_restoring := b\<rparr>\<rparr>) = pending_ok c"
  "queues_ok (c\<lparr>sc_router := (sc_router c)\<lparr>rt_subscribeGate := g\<rparr>\<rparr>) = queues_ok c"
  "delivery_ok H (c\<lparr>sc_router := (sc_router c)\<lparr>rt_subscribeGate := g\<rparr>\<rparr>) = delivery_ok H c"
  "pending_ok (c\<lparr>sc_router := (sc_router c)\<lparr>rt_subscribeGate := g\<rparr>\<rparr>) = pending_ok c"
  by (simp_all add: queues_ok_def delivery_ok_def pending_ok_def frame_current_def saved_filters_def)

lemma inv_restoring: "client_inv H c \<Longrightarrow> client_inv H (c\<lparr>sc_router := (sc_router c)\<lparr>rt_restoring := b\<rparr>\<rparr>)"
  by (simp add: client_inv_def)

lemma inv_gate: "client_inv H c \<Longrightarrow> client_inv H (c\<lparr>sc_router := (sc_router c)\<lparr>rt_subscribeGate := g\<rparr>\<rparr>)"
  by (simp add: client_inv_def)

subsection \<open>Stopping and emitting\<close>

text \<open>A router state with nothing to deliver, and the state \<open>stopLocked\<close> reaches before its final
  event.\<close>

definition router_idle :: "router_state \<Rightarrow> bool" where
  "router_idle r \<longleftrightarrow> gc_buf (rt_frames r) = [] \<and> \<not> rt_ready r \<and> rt_accepted r = [] \<and> rt_pending r = None"

definition clear_router :: "router_state \<Rightarrow> router_state" where
  "clear_router r = r\<lparr>rt_frames := (rt_frames r)\<lparr>gc_buf := []\<rparr>, rt_ready := False, rt_accepted := [],
     rt_pending := None\<rparr>"

lemma router_idle_clear [simp]: "router_idle (clear_router r)"
  by (simp add: router_idle_def clear_router_def)

lemma clearLocked_open [simp]:
  "\<not> gc_closed (rt_frames (sc_router c)) \<Longrightarrow> clearLocked c = c\<lparr>sc_router := clear_router (sc_router c)\<rparr>"
  by (simp add: clearLocked_def clear_router_def Let_def)

lemma clear_router_simps [simp]:
  "gc_cap (rt_frames (clear_router r)) = gc_cap (rt_frames r)"
  "gc_closed (rt_frames (clear_router r)) = gc_closed (rt_frames r)"
  "rt_restoring (clear_router r) = rt_restoring r" "rt_subscribeGate (clear_router r) = rt_subscribeGate r"
  "rt_saved (clear_router r) = rt_saved r" "rt_cfg (clear_router r) = rt_cfg r"
  by (simp_all add: clear_router_def)

lemma maker_idle: "client_inv H c \<Longrightarrow> sc_maker c \<Longrightarrow> router_idle (sc_router c)"
  by (auto simp: router_idle_def client_inv_def delivery_ok_def pending_ok_def)

definition dropped_sessions :: "stream_client \<Rightarrow> nat \<Rightarrow> session" where
  "dropped_sessions c = (case sc_current c of None \<Rightarrow> sc_sessions c
     | Some s \<Rightarrow> (sc_sessions c)(s := (sc_sessions c s)\<lparr>sn_cancelled := True, sn_connClosed := True\<rparr>))"

lemma drop_current_eq: "drop_current c = c\<lparr>sc_sessions := dropped_sessions c, sc_current := None\<rparr>"
  by (cases "sc_current c") (simp_all add: drop_current_def dropped_sessions_def close_session_def upd_session_def)

lemma clear_subscription_open:
  assumes "\<not> gc_closed (rt_frames (sc_router c))"
  shows "clear_subscription c = c\<lparr>sc_router := (if sc_maker c then sc_router c else clear_router (sc_router c))\<rparr>"
  using assms by (simp add: clear_subscription_def)

definition stopped_core :: "stream_error option \<Rightarrow> stream_client \<Rightarrow> stream_client" where
  "stopped_core err c = c\<lparr>sc_stopped := True, sc_err := err,
     sc_status := (sc_status c)\<lparr>st_Phase := Stopped,
       st_LastError := (if err = None then st_LastError (sc_status c) else err)\<rparr>,
     sc_router := (if sc_maker c then sc_router c else clear_router (sc_router c)),
     sc_sessions := dropped_sessions c, sc_current := None,
     sc_ctxErr := (if sc_ctxErr c = None then Some Canceled else sc_ctxErr c),
     sc_changed := sc_changed c + 1\<rparr>"

lemma stopLocked_open:
  assumes "\<not> sc_stopped c" "\<not> gc_closed (rt_frames (sc_router c))"
  shows "stopLocked err c = final_event (stopped_core err c)"
proof -
  have "signalLocked (cancel_client (drop_current (clear_subscription (mark_stopped err c)))) = stopped_core err c"
    using assms(2)
    by (cases c; cases "sc_current c") (simp_all add: mark_stopped_def clear_subscription_open drop_current_eq
        cancel_client_def signalLocked_def stopped_core_def dropped_sessions_def)
  then show ?thesis using assms(1) by (simp add: stopLocked_def)
qed

lemma lifecycle_stopped_core: "lifecycle_ok c \<Longrightarrow> \<not> sc_stopped c \<Longrightarrow> lifecycle_ok (stopped_core err c)"
  by (simp add: lifecycle_ok_def stopped_core_def)

lemma inv_idle:
  assumes "router_idle (sc_router c)" "lifecycle_ok c" "queues_ok c" "\<And>i. gc_cap (sc_replies c i) = 1"
  shows "client_inv H c"
  using assms by (simp add: client_inv_def router_idle_def delivery_ok_def pending_ok_def)

lemma inv_stopped_core:
  assumes "client_inv H c" "\<not> sc_stopped c"
  shows "client_inv H (stopped_core err c)"
proof (rule inv_idle)
  show "router_idle (sc_router (stopped_core err c))"
    using maker_idle [OF assms(1)] by (simp add: stopped_core_def)
  show "lifecycle_ok (stopped_core err c)"
    using assms lifecycle_stopped_core by (simp add: client_inv_def)
  have "gc_buf (rt_frames (clear_router (sc_router c))) = []"
    by (simp add: clear_router_def)
  then show "queues_ok (stopped_core err c)"
    using assms by (simp add: client_inv_def queues_ok_def stopped_core_def)
  show "gc_cap (sc_replies (stopped_core err c) i) = 1" for i
    using assms by (simp add: client_inv_def pending_ok_def stopped_core_def)
qed

lemma inv_push_maker:
  assumes "client_inv H c" "length (gc_buf (sc_makerEvents c)) < gc_cap (sc_makerEvents c)"
  shows "client_inv H (c\<lparr>sc_makerEvents := (sc_makerEvents c)\<lparr>gc_buf := gc_buf (sc_makerEvents c) @ [e]\<rparr>\<rparr>)"
  using assms by (simp add: client_inv_def queues_ok_def)

lemma inv_push_router:
  assumes "client_inv H c" "length (gc_buf (sc_routerEvents c)) < gc_cap (sc_routerEvents c)"
  shows "client_inv H (c\<lparr>sc_routerEvents := (sc_routerEvents c)\<lparr>gc_buf := gc_buf (sc_routerEvents c) @ [e]\<rparr>\<rparr>)"
  using assms by (simp add: client_inv_def queues_ok_def)

lemma inv_send_maker:
  assumes "client_inv H c" "\<not> gc_closed (sc_makerEvents c)" "client_inv H (full c)"
  shows "client_inv H (send_maker e full c)"
  using assms inv_push_maker [OF assms(1)] by (simp add: send_maker_def split: option.splits)

lemma inv_send_router:
  assumes "client_inv H c" "\<not> gc_closed (sc_routerEvents c)" "client_inv H (full c)"
  shows "client_inv H (send_router e full c)"
  using assms inv_push_router [OF assms(1)] by (simp add: send_router_def split: option.splits)

lemma stopped_core_queues [simp]:
  "sc_makerEvents (stopped_core err c) = sc_makerEvents c"
  "sc_routerEvents (stopped_core err c) = sc_routerEvents c"
  by (simp_all add: stopped_core_def)

lemma inv_stopLocked:
  assumes "client_inv H c"
  shows "client_inv H (stopLocked err c)"
proof (cases "sc_stopped c")
  case True
  then show ?thesis using assms by (simp add: stopLocked_def)
next
  case False
  note o = open_when_running [OF assms False]
  show ?thesis
    using inv_stopped_core [OF assms False, of err] o
    by (simp add: stopLocked_open [OF False o(3)] final_event_def inv_send_maker inv_send_router)
qed

lemma inv_stop: "client_inv H c \<Longrightarrow> client_inv H (stop err c)"
  by (simp add: stop_def inv_stopLocked)

lemma inv_emitMakerLocked: "client_inv H c \<Longrightarrow> client_inv H (emitMakerLocked e c)"
  by (auto simp: emitMakerLocked_def open_when_running intro!: inv_send_maker inv_stopLocked)

lemma inv_emitRouterLocked: "client_inv H c \<Longrightarrow> client_inv H (emitRouterLocked e c)"
  by (auto simp: emitRouterLocked_def open_when_running intro!: inv_send_router inv_stopLocked)

lemma inv_connectionEventLocked: "client_inv H c \<Longrightarrow> client_inv H (connectionEventLocked c)"
  by (simp add: connectionEventLocked_def inv_emitMakerLocked inv_emitRouterLocked)

subsection \<open>Sessions\<close>

lemma inv_install:
  assumes inv: "client_inv H c" and s: "s < sc_nextSession c" and none: "sc_current c = None"
  shows "client_inv H (fst (install s c))"
proof (cases "sc_stopped c \<or> sc_ctxErr c \<noteq> None")
  case True
  then show ?thesis using inv by (auto simp: install_def inv_close_session)
next
  case False
  let ?g = "st_Generation (sc_status c) + 1"
  let ?c = "c\<lparr>sc_status := (sc_status c)\<lparr>st_Generation := ?g, st_Phase := Connected\<rparr>,
     sc_sessions := (sc_sessions c)(s := (sc_sessions c s)\<lparr>sn_generation := ?g\<rparr>), sc_current := Some s\<rparr>"
  have idle: "router_idle (sc_router c)"
    using inv none by (auto simp: router_idle_def client_inv_def delivery_ok_def pending_ok_def)
  have "client_inv H ?c"
    by (rule inv_idle) (use inv s none False idle in
      \<open>auto simp: client_inv_def lifecycle_ok_def queues_ok_def pending_ok_def\<close>)
  moreover have "fst (install s c) = connectionEventLocked (signalLocked ?c)"
    using False by (cases c) (simp add: install_def upd_session_def Let_def)
  ultimately show ?thesis
    by (simp add: inv_connectionEventLocked)
qed

lemma inv_discard:
  assumes inv: "client_inv H c"
  shows "client_inv H (discard s err c)"
proof -
  let ?n = "note_failure s err c"
  have n: "client_inv H ?n" using inv by (rule inv_note_failure)
  show ?thesis
  proof (cases "sc_current ?n = Some s")
    case False
    then show ?thesis using n by (simp add: discard_def inv_close_session)
  next
    case True
    then have run: "\<not> sc_stopped ?n"
      using n by (auto simp: client_inv_def lifecycle_ok_def)
    note o = open_when_running [OF n run]
    let ?c = "?n\<lparr>sc_current := None, sc_status := (sc_status ?n)\<lparr>st_Phase := Reconnecting, st_LastError := Some err\<rparr>,
       sc_router := (if sc_maker ?n then sc_router ?n else clear_router (sc_router ?n))\<rparr>"
    have "client_inv H ?c"
    proof (rule inv_idle)
      show "router_idle (sc_router ?c)"
        using maker_idle [OF n] by simp
      show "lifecycle_ok ?c" "gc_cap (sc_replies ?c i) = 1" for i
        using n run by (simp_all add: client_inv_def lifecycle_ok_def pending_ok_def)
      have "gc_buf (rt_frames (clear_router (sc_router ?n))) = []"
        by (simp add: clear_router_def)
      then show "queues_ok ?c"
        using n run by (simp add: client_inv_def queues_ok_def)
    qed
    moreover have "discard s err c = close_session s (connectionEventLocked (signalLocked ?c))"
      using True run o by (simp add: discard_def Let_def clear_subscription_open)
    ultimately show ?thesis
      by (simp add: inv_close_session inv_connectionEventLocked)
  qed
qed

lemma inv_dial:
  assumes "client_inv H c"
  shows "client_inv H (fst (dial P io c))"
proof -
  have "sc_current c \<noteq> Some (sc_nextSession c)"
    using assms by (auto simp: client_inv_def lifecycle_ok_def)
  then show ?thesis
    using assms by (auto simp: dial_def Let_def upd_session_def count_received_def client_inv_def lifecycle_ok_def
        split: sum.splits)
qed

lemma inv_write_end: "client_inv H c \<Longrightarrow> client_inv H (fst (write_end s d io c))"
  by (auto simp: write_end_def Let_def inv_discard split: option.splits)

lemma inv_write_message:
  assumes "client_inv H c"
  shows "client_inv H (fst (write_message s d id io c))"
proof (cases "write_begin s d id io c")
  case (Inr c1)
  then have "c1 = c" by (auto simp: write_begin_def split: gate_outcome.splits option.splits)
  then show ?thesis
    using Inr assms inv_write_end [of H c s d io] by (auto simp: write_message_def split: prod.splits)
qed (use assms in \<open>simp add: write_message_def\<close>)

subsection \<open>Subscriptions\<close>

lemma inv_begin_subscription:
  assumes inv: "client_inv H c" and cur: "sc_current c = Some s" and router: "\<not> sc_maker c"
  shows "client_inv H (begin_subscription s q c)"
proof -
  have run: "\<not> sc_stopped c"
    using inv cur by (auto simp: client_inv_def lifecycle_ok_def)
  note o = open_when_running [OF inv run]
  let ?p = "sc_nextReply c" and ?rev = "st_SubscriptionRevision (sc_status c) + 1"
  let ?r = "(clear_router (sc_router c))\<lparr>rt_pending := Some \<lparr>ps_request = q, ps_session = s, ps_revision = ?rev,
      ps_reply = ?p\<rparr>, rt_saved := Some q\<rparr>"
  let ?c = "c\<lparr>sc_status := (sc_status c)\<lparr>st_SubscriptionRevision := ?rev\<rparr>,
      sc_router := ?r, sc_replies := (sc_replies c)(?p := make_chan 1), sc_nextReply := ?p + 1\<rparr>"
  have "lifecycle_ok ?c"
    using inv by (auto simp: client_inv_def lifecycle_ok_def)
  moreover have "queues_ok ?c"
    using inv by (simp add: client_inv_def queues_ok_def clear_router_def)
  moreover have "delivery_ok H ?c"
    by (simp add: delivery_ok_def clear_router_def)
  moreover have "pending_ok ?c"
    using inv cur router by (simp add: client_inv_def pending_ok_def)
  ultimately have "client_inv H ?c"
    unfolding client_inv_def by (intro conjI)
  moreover have "begin_subscription s q c = signalLocked ?c"
    using o by (cases c) (simp add: begin_subscription_def Let_def)
  ultimately show ?thesis
    by (simp only: inv_signalLocked)
qed

lemma inv_sendSubscription_begin:
  assumes "client_inv H c" "\<not> sc_maker c" "sendSubscription_begin P s q now io c = Inr (data, c')"
  shows "client_inv H c'"
proof -
  from assms(3) have "c' = begin_subscription s q c" "sc_current c = Some s"
    by (auto simp: sendSubscription_begin_def attempt_Inr write_begin_def split: gate_outcome.splits option.splits)
  then show ?thesis using inv_begin_subscription assms(1,2) by simp
qed

lemma inv_sendSubscription_written: "client_inv H c \<Longrightarrow> client_inv H (fst (sendSubscription_written s d io c))"
  using inv_write_end [of H c s d io]
  by (auto simp: sendSubscription_written_def inv_discard split: prod.splits option.splits)

lemma inv_take_reply:
  assumes "client_inv H c" "chan_get (sc_replies c p) = Some (v, ch)"
  shows "client_inv H (c\<lparr>sc_replies := (sc_replies c)(p := ch)\<rparr>)"
proof -
  have "pending_ok (c\<lparr>sc_replies := (sc_replies c)(p := ch)\<rparr>)"
    using assms unfolding client_inv_def pending_ok_def by auto
  then show ?thesis using assms(1) by (simp add: client_inv_def)
qed

lemma inv_sendSubscription_wait: "client_inv H c \<Longrightarrow> client_inv H (fst (sendSubscription_wait s p w c))"
  by (auto simp: sendSubscription_wait_def inv_discard simp del: chan_get_Some chan_get_None
      intro: inv_take_reply split: option.splits prod.splits wait_event.splits)

text \<open>A reply is sent once its request is no longer pending, so its channel still has room.\<close>

lemma inv_send_reply:
  assumes inv: "client_inv H c" and empty: "gc_buf (sc_replies c p) = []"
    and other: "\<And>q. rt_pending (sc_router c) = Some q \<Longrightarrow> ps_reply q \<noteq> p"
  shows "client_inv H (send_reply p v c)"
proof -
  let ?c = "c\<lparr>sc_replies := (sc_replies c)(p := (sc_replies c p)\<lparr>gc_buf := [v]\<rparr>)\<rparr>"
  have "gc_cap (sc_replies c p) = 1"
    using inv by (simp add: client_inv_def pending_ok_def)
  then have "send_reply p v c = ?c"
    using empty by (simp add: send_reply_def chan_put_def)
  moreover have "pending_ok ?c"
    using inv other unfolding client_inv_def pending_ok_def by auto
  ultimately show ?thesis using inv by (simp add: client_inv_def)
qed

lemma inv_clear_pending:
  assumes "client_inv H c"
  shows "client_inv H (c\<lparr>sc_router := (sc_router c)\<lparr>rt_pending := None\<rparr>\<rparr>)" (is "client_inv H ?c")
proof -
  have "delivery_ok H ?c" if "delivery_ok H c"
    using that unfolding delivery_ok_def frame_current_def saved_filters_def by simp
  moreover have "queues_ok ?c" if "queues_ok c"
    using that unfolding queues_ok_def by simp
  moreover have "pending_ok ?c" if "pending_ok c"
    using that unfolding pending_ok_def by simp
  ultimately show ?thesis using assms by (simp add: client_inv_def)
qed

lemma ack_items_accepted:
  "ack_items i items fs = Inr (rs, acc) \<Longrightarrow> set acc \<subseteq> set fs"
  by (induction i items fs arbitrary: rs acc rule: ack_items.induct)
    (auto simp: attempt_Inr split: if_splits)

text \<open>Emitting keeps the reply channels, and the pending request only ever disappears.\<close>

lemma send_router_replies [simp]: "sc_replies (send_router e id c) = sc_replies c"
  by (simp add: send_router_def set_fault_def split: option.splits)

lemma final_event_replies [simp]: "sc_replies (final_event c) = sc_replies c"
  by (simp add: final_event_def send_maker_def set_fault_def split: option.splits)

lemma stopLocked_replies [simp]: "sc_replies (stopLocked e c) = sc_replies c"
  by (simp add: stopLocked_def signalLocked_def cancel_client_def drop_current_def close_session_def
      upd_session_def clear_subscription_def clearLocked_def set_fault_def mark_stopped_def Let_def split: option.splits)

lemma emitRouterLocked_replies [simp]: "sc_replies (emitRouterLocked e c) = sc_replies c"
  by (simp add: emitRouterLocked_def send_router_def set_fault_def split: option.splits)

lemma final_event_router [simp]: "sc_router (final_event c) = sc_router c"
  by (simp add: final_event_def send_maker_def send_router_def set_fault_def split: option.splits)

lemma stopLocked_pending: "rt_pending (sc_router c) = None \<Longrightarrow> rt_pending (sc_router (stopLocked e c)) = None"
  by (simp add: stopLocked_def signalLocked_def cancel_client_def drop_current_def close_session_def
      upd_session_def clear_subscription_def clearLocked_def set_fault_def mark_stopped_def Let_def split: option.splits)

lemma emitRouterLocked_pending:
  "rt_pending (sc_router c) = None \<Longrightarrow> rt_pending (sc_router (emitRouterLocked e c)) = None"
  by (simp add: emitRouterLocked_def send_router_def set_fault_def stopLocked_pending split: option.splits)

lemma inv_ack:
  assumes inv: "client_inv H c"
  shows "client_inv H (fst (ack s a c))"
proof (cases "\<exists>pending results accepted. sc_current c = Some s \<and> \<not> sc_stopped c \<and>
    rt_pending (sc_router c) = Some pending \<and> ps_session pending = s \<and>
    length (sa_Results a) = length (sq_filters (ps_request pending)) \<and>
    ack_items 0 (sa_Results a) (sq_filters (ps_request pending)) = Inr (results, accepted)")
  case False
  then show ?thesis
    using inv by (auto simp: ack_def split: option.splits sum.splits)
next
  case True
  then obtain pending results accepted where ok: "sc_current c = Some s" "\<not> sc_stopped c"
      "rt_pending (sc_router c) = Some pending" "ps_session pending = s"
      "length (sa_Results a) = length (sq_filters (ps_request pending))"
      "ack_items 0 (sa_Results a) (sq_filters (ps_request pending)) = Inr (results, accepted)"
    by blast
  let ?c1 = "c\<lparr>sc_router := (sc_router c)\<lparr>rt_accepted := accepted, rt_ready := True, rt_pending := None\<rparr>\<rparr>"
  have p: "rt_saved (sc_router c) = Some (ps_request pending)" "gc_buf (sc_replies c (ps_reply pending)) = []"
      "\<not> sc_maker c" "\<not> rt_ready (sc_router c)" "gc_buf (rt_frames (sc_router c)) = []"
    using inv ok(3) by (auto simp: inv_defs)
  have "delivery_ok H ?c1"
    using ok p ack_items_accepted [OF ok(6)] by (simp add: delivery_ok_def saved_filters_def)
  moreover have "pending_ok ?c1" "queues_ok ?c1" "lifecycle_ok ?c1"
    using inv by (simp_all add: client_inv_def pending_ok_def queues_ok_def)
  ultimately have "client_inv H ?c1"
    by (simp add: client_inv_def)
  then have "client_inv H (emitRouterLocked e ?c1)" for e
    by (rule inv_emitRouterLocked)
  then have "client_inv H (send_reply (ps_reply pending) v (emitRouterLocked e ?c1))" for e v
    by (rule inv_send_reply) (use p in \<open>simp_all add: emitRouterLocked_pending\<close>)
  then show ?thesis
    using ok by (simp add: ack_def Let_def)
qed

lemma inv_serverError:
  assumes inv: "client_inv H c"
  shows "client_inv H (fst (serverError s x c))"
proof -
  have "client_inv H (send_reply (ps_reply pending) v (c\<lparr>sc_router := (sc_router c)\<lparr>rt_pending := None\<rparr>\<rparr>))"
    if "rt_pending (sc_router c) = Some pending" for pending v
  proof (rule inv_send_reply [OF inv_clear_pending [OF inv]])
    show "gc_buf (sc_replies (c\<lparr>sc_router := (sc_router c)\<lparr>rt_pending := None\<rparr>\<rparr>) (ps_reply pending)) = []"
      using inv that by (simp add: client_inv_def pending_ok_def)
  qed simp
  then show ?thesis
    using inv by (auto simp: serverError_def Let_def intro!: inv_emitRouterLocked split: option.splits)
qed

subsection \<open>Delivery\<close>

lemma inv_push_frame:
  assumes inv: "client_inv H c" and ready: "rt_ready (sc_router c)"
    and room: "length (gc_buf (rt_frames (sc_router c))) < gc_cap (rt_frames (sc_router c))"
    and u: "frame_current H c u"
  shows "client_inv H (c\<lparr>sc_router := (sc_router c)\<lparr>rt_frames := (rt_frames (sc_router c))\<lparr>gc_buf :=
    gc_buf (rt_frames (sc_router c)) @ [u]\<rparr>\<rparr>\<rparr>)" (is "client_inv H ?c")
proof -
  have "delivery_ok H ?c"
    using inv ready u by (auto simp: client_inv_def delivery_ok_def frame_current_def saved_filters_def)
  moreover have "pending_ok ?c" "queues_ok ?c"
    using inv room by (simp_all add: client_inv_def pending_ok_def queues_ok_def)
  ultimately show ?thesis using inv by (simp add: client_inv_def)
qed

lemma inv_update:
  assumes inv: "client_inv H c"
  shows "client_inv H (fst (update H s value c))"
proof (cases "sc_current c \<noteq> Some s \<or> \<not> rt_ready (sc_router c) \<or> sc_stopped c")
  case True
  then show ?thesis using inv by (auto simp: update_def)
next
  case False
  then have run: "\<not> sc_stopped c" and ready: "rt_ready (sc_router c)" by simp_all
  have gen: "sn_generation (sc_sessions c s) = st_Generation (sc_status c)"
    using inv False by (auto simp: client_inv_def lifecycle_ok_def)
  show ?thesis
    using False inv open_when_running(3) [OF inv run]
    by (auto simp: update_def Let_def frame_current_def gen inv_stopLocked intro!: inv_push_frame
        simp del: chan_put_def split: option.splits)
qed

lemma inv_receive_frame:
  assumes inv: "client_inv H c" and get: "receive_frame c = Some (u, c')"
  shows "client_inv H c' \<and> frame_current H c u"
proof -
  from get obtain rest where buf: "gc_buf (rt_frames (sc_router c)) = u # rest"
      and c': "c' = c\<lparr>sc_router := (sc_router c)\<lparr>rt_frames := (rt_frames (sc_router c))\<lparr>gc_buf := rest\<rparr>\<rparr>\<rparr>"
    by (auto simp: receive_frame_def chan_get_def split: option.splits list.splits)
  have "delivery_ok H c'" "frame_current H c u"
    using inv buf by (auto simp: c' client_inv_def delivery_ok_def frame_current_def saved_filters_def)
  moreover have "pending_ok c'" "queues_ok c'" "lifecycle_ok c'"
    using inv buf by (simp_all add: c' client_inv_def pending_ok_def queues_ok_def)
  ultimately show ?thesis by (simp add: client_inv_def)
qed

lemma inv_receive_event:
  assumes inv: "client_inv H c" and get: "receive_event c = Some (e, c')"
  shows "client_inv H c'"
  using assms by (auto simp: receive_event_def chan_get_def client_inv_def queues_ok_def
      split: option.splits list.splits)

lemma inv_Next: "client_inv H c \<Longrightarrow> client_inv H (fst (Next d c))"
  by (auto simp: Next_def chan_get_def client_inv_def queues_ok_def split: option.splits list.splits)

subsection \<open>Messages, calls and the end of run\<close>

lemma inv_sendHeartbeat: "client_inv H c \<Longrightarrow> client_inv H (fst (sendHeartbeat P s a b now io c))"
  using inv_write_message [of H c s]
  by (auto simp: sendHeartbeat_def split: sum.splits prod.splits) (metis fst_conv)

lemma inv_handle_heartbeat: "client_inv H c \<Longrightarrow> client_inv H (fst (handle_heartbeat P s h now io c))"
  by (simp add: handle_heartbeat_def inv_sendHeartbeat split: option.splits)

lemma inv_handle:
  assumes "client_inv H c"
  shows "client_inv H (fst (handle P H s data now io c))"
  using assms
  by (simp add: handle_def handle_maker_def handle_router_def inv_handle_heartbeat inv_emitMakerLocked inv_ack
      inv_update inv_serverError split: sum.splits maker_message_type.splits router_message_type.splits option.splits)

lemma inv_read_turn: "client_inv H c \<Longrightarrow> client_inv H (fst (read_turn P H s r now io c))"
  by (auto simp: read_turn_def inv_handle split: sum.splits)

lemma inv_Publish: "client_inv H c \<Longrightarrow> client_inv H (fst (Publish P e v now io c))"
  using inv_write_message [of H c]
  by (auto simp: Publish_def Let_def split: option.splits sum.splits prod.splits) (metis fst_conv)+

lemma inv_Reconnect_begin: "client_inv H c \<Longrightarrow> client_inv H (fst (Reconnect_begin e c))"
  by (simp add: Reconnect_begin_def Let_def inv_discard split: option.splits)

lemma inv_restore_outcome: "client_inv H c \<Longrightarrow> client_inv H (restore_outcome s e c)"
  by (simp add: restore_outcome_def inv_stop inv_discard split: option.splits)

subsection \<open>What no operation but the end of run changes\<close>

definition fixed_part where
  "fixed_part c = (sc_cfg c, sc_maker c, sc_doneClosed c, rt_cfg (sc_router c), rt_subscribeGate (sc_router c),
     rt_restoring (sc_router c),
     gc_closed (sc_makerEvents c), gc_closed (sc_routerEvents c), gc_closed (rt_frames (sc_router c)),
     gc_cap (sc_makerEvents c), gc_cap (sc_routerEvents c), gc_cap (rt_frames (sc_router c)))"

lemma fixed_set_fault [simp]: "fixed_part (set_fault f c) = fixed_part c"
  by (simp add: set_fault_def fixed_part_def)

lemma fixed_bookkeeping [simp]:
  "fixed_part (signalLocked c) = fixed_part c" "fixed_part (count_received d c) = fixed_part c"
  "fixed_part (count_sent d c) = fixed_part c" "fixed_part (count_attempt c) = fixed_part c"
  "fixed_part (upd_session s f c) = fixed_part c" "fixed_part (close_session s c) = fixed_part c"
  "fixed_part (note_failure s e c) = fixed_part c" "fixed_part (end_session s e c) = fixed_part c"
  "fixed_part (run_dial_failed e c) = fixed_part c" "fixed_part (mark_stopped x c) = fixed_part c"
  "fixed_part (cancel_client c) = fixed_part c"
  by (simp_all add: fixed_part_def signalLocked_def count_received_def count_sent_def count_attempt_def
      upd_session_def close_session_def note_failure_def end_session_def run_dial_failed_def mark_stopped_def
      cancel_client_def)

lemma fixed_clearLocked [simp]: "fixed_part (clearLocked c) = fixed_part c"
  by (simp add: clearLocked_def Let_def) (simp add: fixed_part_def)

lemma fixed_drop_current [simp]: "fixed_part (drop_current c) = fixed_part c"
  by (simp add: drop_current_eq fixed_part_def)

lemma fixed_send:
  "fixed_part (send_maker e full c) = fixed_part c" if "fixed_part (full c) = fixed_part c"
  using that by (simp add: send_maker_def split: option.splits) (simp add: fixed_part_def)

lemma fixed_send_router:
  "fixed_part (send_router e full c) = fixed_part c" if "fixed_part (full c) = fixed_part c"
  using that by (simp add: send_router_def split: option.splits) (simp add: fixed_part_def)

lemma fixed_stopLocked [simp]: "fixed_part (stopLocked e c) = fixed_part c"
  by (simp add: stopLocked_def final_event_def clear_subscription_def fixed_send fixed_send_router)

lemma fixed_emit [simp]:
  "fixed_part (stop x c) = fixed_part c"
  "fixed_part (emitMakerLocked e c) = fixed_part c" "fixed_part (emitRouterLocked e' c) = fixed_part c"
  "fixed_part (connectionEventLocked c) = fixed_part c"
  by (simp_all add: stop_def emitMakerLocked_def emitRouterLocked_def connectionEventLocked_def fixed_send
      fixed_send_router)

lemma fixed_fields [simp]:
  "fixed_part (c\<lparr>sc_status := t\<rparr>) = fixed_part c" "fixed_part (c\<lparr>sc_current := x\<rparr>) = fixed_part c"
  "fixed_part (c\<lparr>sc_nextSession := n\<rparr>) = fixed_part c" "fixed_part (c\<lparr>sc_replies := rs\<rparr>) = fixed_part c"
  "fixed_part (c\<lparr>sc_nextReply := n\<rparr>) = fixed_part c" "fixed_part (c\<lparr>sc_ctxErr := x'\<rparr>) = fixed_part c"
  by (simp_all add: fixed_part_def)

lemma fixed_install [simp]: "fixed_part (fst (install s c)) = fixed_part c"
  by (simp add: install_def Let_def)

lemma fixed_discard [simp]: "fixed_part (discard s e c) = fixed_part c"
  by (simp add: discard_def Let_def clear_subscription_def)

lemma fixed_dial [simp]: "fixed_part (fst (dial P io c)) = fixed_part c"
  by (simp add: dial_def Let_def split: sum.splits prod.splits)

lemma fixed_write_end [simp]: "fixed_part (fst (write_end s d io c)) = fixed_part c"
  by (simp add: write_end_def Let_def split: option.splits)

lemma fixed_write_message [simp]: "fixed_part (fst (write_message s d id io c)) = fixed_part c"
  using fixed_write_end [of s d io c]
  by (auto simp: write_message_def write_begin_def split: sum.splits prod.splits gate_outcome.splits option.splits
      simp del: fixed_write_end)

lemma fixed_router_fields:
  assumes "rt_cfg r = rt_cfg (sc_router c)" "rt_subscribeGate r = rt_subscribeGate (sc_router c)"
    "rt_restoring r = rt_restoring (sc_router c)"
    "gc_closed (rt_frames r) = gc_closed (rt_frames (sc_router c))" "gc_cap (rt_frames r) = gc_cap (rt_frames (sc_router c))"
  shows "fixed_part (c\<lparr>sc_router := r\<rparr>) = fixed_part c"
  using assms by (simp add: fixed_part_def)

lemma fixed_begin_subscription [simp]: "fixed_part (begin_subscription s q c) = fixed_part c"
  by (simp add: begin_subscription_def Let_def fixed_router_fields)

lemma fixed_written [simp]: "fixed_part (fst (sendSubscription_written s d io c)) = fixed_part c"
  using fixed_write_end [of s d io c]
  by (auto simp: sendSubscription_written_def split: prod.splits option.splits simp del: fixed_write_end)

lemma fixed_wait [simp]: "fixed_part (fst (sendSubscription_wait s p w c)) = fixed_part c"
  by (simp add: sendSubscription_wait_def split: option.splits prod.splits wait_event.splits)

lemma fixed_send_reply [simp]: "fixed_part (send_reply p v c) = fixed_part c"
  by (simp add: send_reply_def split: option.splits)

lemma fixed_ack [simp]: "fixed_part (fst (ack s a c)) = fixed_part c"
  by (auto simp: ack_def Let_def fixed_router_fields split: option.splits sum.splits)

lemma fixed_serverError [simp]: "fixed_part (fst (serverError s x c)) = fixed_part c"
  by (simp add: serverError_def Let_def fixed_router_fields split: option.splits)

lemma fixed_update [simp]: "fixed_part (fst (update H s v c)) = fixed_part c"
  by (auto simp: update_def Let_def fixed_router_fields split: option.splits)

lemma fixed_handle [simp]: "fixed_part (fst (handle P H s d now io c)) = fixed_part c"
proof -
  have hb: "fixed_part (fst (handle_heartbeat P s h now io c)) = fixed_part c" for h
    using fixed_write_message [of s _ io c]
    by (auto simp: handle_heartbeat_def sendHeartbeat_def split: option.splits sum.splits prod.splits
        simp del: fixed_write_message) (metis fst_conv)+
  show ?thesis
    by (simp add: handle_def handle_maker_def handle_router_def hb
        split: sum.splits maker_message_type.splits router_message_type.splits option.splits)
qed

lemma fixed_read_turn [simp]: "fixed_part (fst (read_turn P H s r now io c)) = fixed_part c"
  by (auto simp: read_turn_def split: sum.splits)

lemma fixed_Publish [simp]: "fixed_part (fst (Publish P e v now io c)) = fixed_part c"
  using fixed_write_message [of _ _ io c]
  by (auto simp: Publish_def Let_def split: option.splits sum.splits prod.splits simp del: fixed_write_message)
    (metis fst_conv)+

lemma fixed_Reconnect_begin [simp]: "fixed_part (fst (Reconnect_begin e c)) = fixed_part c"
  by (simp add: Reconnect_begin_def Let_def split: option.splits)

lemma fixed_restore_outcome [simp]: "fixed_part (restore_outcome s e c) = fixed_part c"
  by (simp add: restore_outcome_def split: option.splits)

lemma fixed_partD:
  assumes "fixed_part c1 = fixed_part c2"
  shows "sc_cfg c1 = sc_cfg c2" "sc_maker c1 = sc_maker c2" "sc_doneClosed c1 = sc_doneClosed c2"
    "rt_cfg (sc_router c1) = rt_cfg (sc_router c2)"
    "rt_subscribeGate (sc_router c1) = rt_subscribeGate (sc_router c2)"
    "rt_restoring (sc_router c1) = rt_restoring (sc_router c2)"
    "gc_closed (sc_makerEvents c1) = gc_closed (sc_makerEvents c2)"
    "gc_closed (sc_routerEvents c1) = gc_closed (sc_routerEvents c2)"
    "gc_closed (rt_frames (sc_router c1)) = gc_closed (rt_frames (sc_router c2))"
    "gc_cap (sc_makerEvents c1) = gc_cap (sc_makerEvents c2)"
    "gc_cap (sc_routerEvents c1) = gc_cap (sc_routerEvents c2)"
    "gc_cap (rt_frames (sc_router c1)) = gc_cap (rt_frames (sc_router c2))"
  using assms by (simp_all add: fixed_part_def)

lemma stopLocked_stopped: "client_inv H c \<Longrightarrow> sc_stopped (stopLocked e c)"
proof (cases "sc_stopped c")
  case False
  assume "client_inv H c"
  then show ?thesis
    using False by (simp add: stopLocked_open open_when_running final_event_def send_maker_def send_router_def
        set_fault_def stopped_core_def split: option.splits)
qed (simp add: stopLocked_def)

lemma inv_close_channels:
  assumes "client_inv H c" "sc_stopped c"
  shows "client_inv H (c\<lparr>sc_makerEvents := chan_close (sc_makerEvents c), sc_doneClosed := True\<rparr>)"
    "client_inv H (c\<lparr>sc_routerEvents := chan_close (sc_routerEvents c),
        sc_router := (sc_router c)\<lparr>rt_frames := chan_close (rt_frames (sc_router c))\<rparr>, sc_doneClosed := True\<rparr>)"
  using assms by (simp_all add: client_inv_def queues_ok_def delivery_ok_def pending_ok_def frame_current_def
      saved_filters_def)

lemma inv_run_finish:
  assumes inv: "client_inv H c"
    and still_open: "\<not> gc_closed (sc_makerEvents c)" "\<not> gc_closed (sc_routerEvents c)" "\<not> gc_closed (rt_frames (sc_router c))"
  shows "client_inv H (run_finish c) \<and> sc_stopped (run_finish c) \<and> sc_doneClosed (run_finish c)"
proof -
  obtain c1 where c1: "c1 = (if \<not> sc_stopped c then stopLocked (map_option ContextError (sc_ctxErr c)) c else c)"
    by blast
  have i: "client_inv H c1" "sc_stopped c1"
    using inv stopLocked_stopped by (simp_all add: c1 inv_stopLocked)
  have "fixed_part c1 = fixed_part c" by (simp add: c1)
  note f = fixed_partD [OF this]
  have "run_finish c = (if sc_maker c1 then c1\<lparr>sc_makerEvents := chan_close (sc_makerEvents c1), sc_doneClosed := True\<rparr>
      else c1\<lparr>sc_routerEvents := chan_close (sc_routerEvents c1),
        sc_router := (sc_router c1)\<lparr>rt_frames := chan_close (rt_frames (sc_router c1))\<rparr>, sc_doneClosed := True\<rparr>)"
    using still_open f(7-9) unfolding run_finish_def c1 [symmetric] by simp
  then show ?thesis
    using inv_close_channels [OF i] i by simp
qed

end
