(* ===== verification/Stream_Evolution.thy ===== *)
theory Stream_Evolution
  imports Stream_Invariant
begin

text \<open>
  How the streaming client's state moves on: \<open>evolves c c'\<close> collects what every locked operation
  except \<open>install\<close> guarantees between the state before and after (the current session is kept or
  dropped, never replaced; a stop and its cause are final; the generation stays). The relation is a
  preorder, so the facts carry over to sequences of operations.
\<close>

definition evolves :: "stream_client \<Rightarrow> stream_client \<Rightarrow> bool" where
  "evolves c c' \<longleftrightarrow>
     sc_nextSession c \<le> sc_nextSession c' \<and>
     (sc_current c' = None \<or> sc_current c' = sc_current c) \<and>
     (sc_ctxErr c \<noteq> None \<longrightarrow> sc_ctxErr c' = sc_ctxErr c) \<and>
     (sc_stopped c \<longrightarrow> sc_stopped c' \<and> sc_err c' = sc_err c \<and>
        st_SubscriptionRevision (sc_status c') = st_SubscriptionRevision (sc_status c)) \<and>
     st_Generation (sc_status c') = st_Generation (sc_status c)"

lemma evolves_refl [simp, intro]: "evolves c c"
  by (simp add: evolves_def)

lemma evolves_trans: "evolves a b \<Longrightarrow> evolves b c \<Longrightarrow> evolves a c"
  by (fastforce simp: evolves_def)

lemma evolves_frame [simp]:
  "evolves c (c'\<lparr>sc_router := r\<rparr>) = evolves c c'" "evolves c (c'\<lparr>sc_replies := rs\<rparr>) = evolves c c'"
  "evolves c (c'\<lparr>sc_nextReply := n\<rparr>) = evolves c c'" "evolves c (c'\<lparr>sc_makerEvents := m\<rparr>) = evolves c c'"
  "evolves c (c'\<lparr>sc_routerEvents := m'\<rparr>) = evolves c c'" "evolves c (c'\<lparr>sc_sessions := ss\<rparr>) = evolves c c'"
  "evolves c (c'\<lparr>sc_stats := st\<rparr>) = evolves c c'" "evolves c (c'\<lparr>sc_changed := k\<rparr>) = evolves c c'"
  "evolves c (c'\<lparr>sc_fault := f\<rparr>) = evolves c c'" "evolves c (c'\<lparr>sc_doneClosed := b\<rparr>) = evolves c c'"
  by (simp_all add: evolves_def)

lemma evolves_bookkeeping [simp]:
  "evolves c (set_fault f c') = evolves c c'" "evolves c (signalLocked c') = evolves c c'"
  "evolves c (count_received d c') = evolves c c'" "evolves c (count_sent d c') = evolves c c'"
  "evolves c (count_attempt c') = evolves c c'" "evolves c (close_session s c') = evolves c c'"
  "evolves c (note_failure s e c') = evolves c c'" "evolves c (end_session s e c') = evolves c c'"
  "evolves c (clearLocked c') = evolves c c'" "evolves c (clear_subscription c') = evolves c c'"
  "evolves c (send_reply p v c') = evolves c c'"
  by (simp_all add: set_fault_def signalLocked_def count_received_def count_sent_def count_attempt_def
      close_session_def note_failure_def end_session_def upd_session_def clearLocked_def clear_subscription_def
      send_reply_def Let_def split: option.splits)

lemma evolves_status [simp]:
  "st_Generation t = st_Generation (sc_status c') \<Longrightarrow>
   st_SubscriptionRevision t = st_SubscriptionRevision (sc_status c') \<Longrightarrow>
   evolves c (c'\<lparr>sc_status := t\<rparr>) = evolves c c'"
  "evolves c (run_dial_failed e c') = evolves c c'"
  by (simp_all add: evolves_def run_dial_failed_def signalLocked_def)

lemma evolves_drop:
  "evolves c c' \<Longrightarrow> evolves c (c'\<lparr>sc_current := None\<rparr>)"
  "evolves c c' \<Longrightarrow> evolves c (drop_current c')"
  "evolves c c' \<Longrightarrow> evolves c (cancel_client c')"
  by (auto simp: evolves_def drop_current_eq cancel_client_def)

lemma evolves_send:
  "evolves c c' \<Longrightarrow> evolves c (full c') \<Longrightarrow> evolves c (send_maker e full c')"
  "evolves c c' \<Longrightarrow> evolves c (full c') \<Longrightarrow> evolves c (send_router e' full c')"
  by (auto simp: send_maker_def send_router_def split: option.splits)

lemma evolves_stopLocked: "evolves c (stopLocked e c)"
proof (cases "sc_stopped c")
  case False
  then have "evolves c (mark_stopped e c)"
    by (simp add: evolves_def mark_stopped_def)
  then show ?thesis
    using False by (simp add: stopLocked_def final_event_def evolves_drop evolves_send)
qed (simp add: stopLocked_def)

lemma evolves_stop': "evolves c c' \<Longrightarrow> evolves c (stopLocked e c')"
  using evolves_stopLocked evolves_trans by blast

lemma evolves_emit:
  assumes "evolves c c'"
  shows "evolves c (stop x c')" "evolves c (emitMakerLocked e c')" "evolves c (emitRouterLocked e' c')"
    "evolves c (connectionEventLocked c')"
  using assms
  by (simp_all add: stop_def emitMakerLocked_def emitRouterLocked_def connectionEventLocked_def evolves_send
      evolves_stop')

lemma evolves_discard: "evolves c (discard s e c)"
  by (simp add: discard_def Let_def evolves_emit evolves_drop)

lemma evolves_discard': "evolves c c' \<Longrightarrow> evolves c (discard s e c')"
  using evolves_discard evolves_trans by blast

lemma evolves_dial: "evolves c (fst (dial P io c))"
proof -
  have "evolves c (upd_session s f (c\<lparr>sc_nextSession := Suc (sc_nextSession c)\<rparr>))" for s f
    by (simp add: evolves_def upd_session_def)
  then show ?thesis by (simp add: dial_def Let_def split: sum.splits prod.splits)
qed

lemma evolves_write_end: "evolves c (fst (write_end s d io c))"
  by (auto simp: write_end_def Let_def evolves_discard evolves_discard' split: option.splits)

lemma write_begin_id: "write_begin s d id io c = Inr c' \<Longrightarrow> c' = c"
  by (auto simp: write_begin_def split: gate_outcome.splits option.splits)

lemma evolves_write_message: "evolves c (fst (write_message s d id io c))"
  using evolves_write_end [of c s d io]
  by (auto simp: write_message_def dest!: write_begin_id split: sum.splits prod.splits)

lemma write_begin_Inr:
  "write_begin s d before io c = Inr c' \<longleftrightarrow>
     int (length d) \<le> cc_MaxWriteMessageBytes (sc_cfg c) \<and> wio_gate io = GotGate \<and> wio_callErr io = None \<and>
     \<not> sc_stopped c \<and> sc_current c = Some s \<and> \<not> session_done s c \<and> c' = before c"
  by (auto simp: write_begin_def split: gate_outcome.splits option.splits)

lemma evolves_sendSubscription_begin:
  assumes "sendSubscription_begin P s q now io c = Inr (d, c')"
  shows "evolves c c'"
proof -
  from assms have c': "\<not> sc_stopped c" "c' = begin_subscription s q c"
    by (auto simp: sendSubscription_begin_def attempt_Inr write_begin_Inr)
  let ?c1 = "clearLocked (c\<lparr>sc_replies := (sc_replies c)(sc_nextReply c := make_chan 1), sc_nextReply := sc_nextReply c + 1\<rparr>)"
  have "evolves c ?c1" by simp
  then have "evolves c (?c1\<lparr>sc_status := (sc_status ?c1)\<lparr>st_SubscriptionRevision := n\<rparr>\<rparr>)" for n
    using c'(1) by (simp add: evolves_def)
  then show ?thesis
    by (simp add: c'(2) begin_subscription_def Let_def)
qed

lemma evolves_written: "evolves c (fst (sendSubscription_written s d io c))"
  using evolves_write_end [of c s d io]
  by (auto simp: sendSubscription_written_def evolves_discard' split: prod.splits option.splits)

lemma evolves_wait: "evolves c (fst (sendSubscription_wait s p w c))"
  by (simp add: sendSubscription_wait_def evolves_discard split: option.splits prod.splits wait_event.splits)

lemma evolves_ack: "evolves c (fst (ack s a c))"
  by (auto simp: ack_def Let_def evolves_emit split: option.splits sum.splits)

lemma evolves_serverError: "evolves c (fst (serverError s x c))"
  by (auto simp: serverError_def Let_def evolves_emit split: option.splits)

lemma evolves_update: "evolves c (fst (update H s v c))"
  by (auto simp: update_def Let_def evolves_stopLocked split: option.splits)

lemma evolves_handle: "evolves c (fst (handle P H s d now io c))"
proof -
  have hb: "evolves c (fst (handle_heartbeat P s h now io c))" for h
    using evolves_write_message [of c s _ io]
    by (auto simp: handle_heartbeat_def sendHeartbeat_def split: option.splits sum.splits prod.splits)
      (metis fst_conv)+
  show ?thesis
    by (simp add: handle_def handle_maker_def handle_router_def hb evolves_ack evolves_update evolves_serverError
        evolves_emit split: sum.splits maker_message_type.splits router_message_type.splits option.splits)
qed

lemma evolves_read_turn: "evolves c (fst (read_turn P H s r now io c))"
  using evolves_handle [of "count_received d c" P H s d now io for d]
  by (auto simp: read_turn_def split: sum.splits)
    (metis evolves_bookkeeping(3) evolves_refl evolves_trans)

lemma evolves_Reconnect_begin: "evolves c (fst (Reconnect_begin e c))"
  by (simp add: Reconnect_begin_def Let_def evolves_discard split: option.splits)

lemma evolves_restore_outcome: "evolves c (restore_outcome s e c)"
  by (simp add: restore_outcome_def evolves_emit evolves_discard split: option.splits)

lemma evolves_run_finish: "evolves c (run_finish c)"
  by (auto simp: run_finish_def Let_def evolves_stopLocked)

lemmas evolves_ops = evolves_stopLocked evolves_discard evolves_dial evolves_write_end evolves_write_message
  evolves_sendSubscription_begin evolves_written evolves_wait evolves_ack evolves_serverError evolves_update
  evolves_handle evolves_read_turn evolves_Reconnect_begin evolves_restore_outcome evolves_run_finish

lemma install_cases:
  assumes "install s c = (c', ok)"
  obtains (refused) "\<not> ok" "sc_stopped c \<or> sc_ctxErr c \<noteq> None" "c' = close_session s c"
  | (installed) c1 where "\<not> sc_stopped c" "sc_ctxErr c = None" "ok \<longleftrightarrow> \<not> sc_stopped c'"
      "sc_current c1 = Some s" "sc_nextSession c1 = sc_nextSession c"
      "st_Generation (sc_status c1) = st_Generation (sc_status c) + 1" "evolves c1 c'"
proof (cases "sc_stopped c \<or> sc_ctxErr c \<noteq> None")
  case True
  then show ?thesis using refused assms by (auto simp: install_def)
next
  case False
  let ?g = "st_Generation (sc_status c) + 1"
  let ?c1 = "(upd_session s (\<lambda>x. x\<lparr>sn_generation := ?g\<rparr>)
      (c\<lparr>sc_status := (sc_status c)\<lparr>st_Generation := ?g, st_Phase := Connected\<rparr>\<rparr>))\<lparr>sc_current := Some s\<rparr>"
  have "c' = connectionEventLocked (signalLocked ?c1)" "ok \<longleftrightarrow> \<not> sc_stopped c'"
    using False assms by (cases c; auto simp: install_def Let_def upd_session_def)+
  then show ?thesis
    using False by (intro installed [of ?c1]) (simp_all add: evolves_emit upd_session_def)
qed

end
