(* ===== verification/Stream_System.thy ===== *)
theory Stream_System
  imports Stream_Evolution
begin

text \<open>
  The streaming client as a concurrent system. A world is the client's state, the position of the
  goroutine \<open>run\<close> (preceded by the dialing of \<open>DialMaker\<close> and \<open>DialRouter\<close>), the owner of the
  subscription gate and the retry delay. Every rule of \<open>stream_step\<close> is one section that the
  program executes under \<open>client.mu\<close> or one channel operation; between two rules any other
  goroutine may run. Callers, the network and the lifetime context act at any time.
\<close>

datatype run_pc =
    PStart
  | PFirst nat
  | PSession nat
  | PReturning nat stream_error
  | PEnded nat stream_error
  | PLost nat stream_error
  | PDiscarded nat stream_error
  | PRetry bool
  | PDial
  | PGate nat
  | PInstall nat
  | PClosing
  | PDone
  | PFailed

datatype gate_user = Caller | Restorer | RunLoop

datatype gate_holder = Free | Holding gate_user | Waiting gate_user nat nat bytes | Finishing gate_user

record stream_world =
  w_client :: stream_client
  w_pc :: run_pc
  w_holder :: gate_holder
  w_delay :: int

fun holder_user :: "gate_holder \<Rightarrow> gate_user option" where
  "holder_user Free = None"
| "holder_user (Holding u) = Some u"
| "holder_user (Waiting u s p d) = Some u"
| "holder_user (Finishing u) = Some u"

text \<open>The session whose goroutines may be running.\<close>

fun pc_session :: "run_pc \<Rightarrow> nat option" where
  "pc_session (PSession s) = Some s"
| "pc_session (PReturning s e) = Some s"
| "pc_session (PEnded s e) = Some s"
| "pc_session _ = None"

text \<open>What a user of the gate does with the outcome of \<open>sendSubscription\<close>: a caller returns it,
  restoration stops the client or discards the session.\<close>

fun subscription_outcome :: "gate_user \<Rightarrow> nat \<Rightarrow> stream_error option \<Rightarrow> stream_client \<Rightarrow> stream_client" where
  "subscription_outcome Restorer s err c = restore_outcome s err c"
| "subscription_outcome _ s err c = c"

definition result_err :: "stream_error + 'a \<Rightarrow> stream_error option" where
  "result_err r = (case r of Inl e \<Rightarrow> Some e | Inr _ \<Rightarrow> None)"

text \<open>A maker has no router; its record field holds an idle one that no operation touches.\<close>

definition unused_router :: "connection_config \<Rightarrow> router_state" where
  "unused_router cfg = new_router_state \<lparr>rtc_Connection = cfg,
     rtc_Listing = \<lparr>lc_BaseURL = [], lc_HTTPClient = None, lc_Timeout = 0\<rparr>,
     rtc_SubscribeTimeout = 0, rtc_MaxSubscribeFilters = 0, rtc_FrameBufferSize = 0\<rparr>"

definition start_maker :: "ctx_error option \<Rightarrow> connection_config \<Rightarrow> stream_world" where
  "start_maker lifetime cfg =
    \<lparr>w_client = newClient lifetime cfg True (unused_router cfg),
     w_pc = PStart, w_holder = Free, w_delay = rc_InitialDelay (cc_Reconnect cfg)\<rparr>"

definition start_router :: "ctx_error option \<Rightarrow> router_config \<Rightarrow> stream_world" where
  "start_router lifetime cfg =
    \<lparr>w_client = newClient lifetime (rtc_Connection cfg) False (new_router_state cfg),
     w_pc = PStart, w_holder = Free, w_delay = rc_InitialDelay (cc_Reconnect (rtc_Connection cfg))\<rparr>"

inductive stream_step :: "protolib \<Rightarrow> hexlib \<Rightarrow> stream_world \<Rightarrow> stream_world \<Rightarrow> bool"
  for P H where
  lifetime_ends: "sc_ctxErr (w_client w) = None \<Longrightarrow>
    stream_step P H w (w\<lparr>w_client := (w_client w)\<lparr>sc_ctxErr := Some e\<rparr>\<rparr>)"
| close_called: "stream_step P H w (w\<lparr>w_client := stop None (w_client w)\<rparr>)"
| write_finishes: "s < sc_nextSession (w_client w) \<Longrightarrow>
    stream_step P H w (w\<lparr>w_client := fst (write_end s data io (w_client w))\<rparr>)"
| session_discarded: "s < sc_nextSession (w_client w) \<Longrightarrow>
    stream_step P H w (w\<lparr>w_client := discard s e (w_client w)\<rparr>)"
| frame_received: "receive_frame (w_client w) = Some (u, c) \<Longrightarrow> stream_step P H w (w\<lparr>w_client := c\<rparr>)"
| event_received: "receive_event (w_client w) = Some (e, c) \<Longrightarrow> stream_step P H w (w\<lparr>w_client := c\<rparr>)"
| next_called: "stream_step P H w (w\<lparr>w_client := fst (Next d (w_client w))\<rparr>)"
| gate_taken: "\<not> sc_maker (w_client w) \<Longrightarrow> take_gate (w_client w) = Some c \<Longrightarrow>
    stream_step P H w (w\<lparr>w_client := c, w_holder := Holding Caller\<rparr>)"
| caller_begins: "w_holder w = Holding Caller \<Longrightarrow> Subscribe_request H (w_client w) filters = Inr q \<Longrightarrow>
    sendSubscription_begin P s q now io (w_client w) = Inr (data, c) \<Longrightarrow>
    stream_step P H w (w\<lparr>w_client := c, w_holder := Waiting Caller s (sc_nextReply (w_client w)) data\<rparr>)"
| caller_refused: "w_holder w = Holding Caller \<Longrightarrow> stream_step P H w (w\<lparr>w_holder := Finishing Caller\<rparr>)"
| restore_begins: "w_holder w = Holding Restorer \<Longrightarrow> pc_session (w_pc w) = Some s \<Longrightarrow>
    rt_saved (sc_router (w_client w)) = Some q \<Longrightarrow>
    sendSubscription_begin P s q now io (w_client w) = Inr (data, c) \<Longrightarrow>
    stream_step P H w (w\<lparr>w_client := c, w_holder := Waiting Restorer s (sc_nextReply (w_client w)) data\<rparr>)"
| restore_refused: "w_holder w = Holding Restorer \<Longrightarrow> pc_session (w_pc w) = Some s \<Longrightarrow>
    rt_saved (sc_router (w_client w)) = Some q \<Longrightarrow>
    sendSubscription_begin P s q now io (w_client w) = Inl e \<Longrightarrow>
    stream_step P H w (w\<lparr>w_client := restore_outcome s (Some e) (w_client w), w_holder := Finishing Restorer\<rparr>)"
| nothing_to_restore: "w_holder w = Holding Restorer \<Longrightarrow> rt_saved (sc_router (w_client w)) = None \<Longrightarrow>
    stream_step P H w (w\<lparr>w_holder := Finishing Restorer\<rparr>)"
| subscription_unsent: "w_holder w = Waiting u s p data \<Longrightarrow>
    sendSubscription_written s data io (w_client w) = (c, Some e) \<Longrightarrow>
    stream_step P H w (w\<lparr>w_client := subscription_outcome u s (Some e) c, w_holder := Finishing u\<rparr>)"
| subscription_answered: "w_holder w = Waiting u s p data \<Longrightarrow>
    gc_buf (sc_replies (w_client w) p) \<noteq> [] \<or> (\<exists>e. wev = WaitContextDone e) \<or> session_done s (w_client w) \<Longrightarrow>
    sendSubscription_wait s p wev (w_client w) = (c, r) \<Longrightarrow>
    stream_step P H w (w\<lparr>w_client := subscription_outcome u s (result_err r) c, w_holder := Finishing u\<rparr>)"
| gate_released: "w_holder w = Finishing Caller \<Longrightarrow>
    stream_step P H w (w\<lparr>w_client := release_gate (w_client w), w_holder := Free\<rparr>)"
| restore_ends: "w_holder w = Finishing Restorer \<Longrightarrow>
    stream_step P H w (w\<lparr>w_client := restore_end (w_client w), w_holder := Free\<rparr>)"
| first_dial_fails: "w_pc w = PStart \<Longrightarrow> dial P io (w_client w) = (c, Inl e) \<Longrightarrow>
    stream_step P H w (w\<lparr>w_client := cancel_client c, w_pc := PFailed\<rparr>)"
| first_dial: "w_pc w = PStart \<Longrightarrow> dial P io (w_client w) = (c, Inr s) \<Longrightarrow>
    stream_step P H w (w\<lparr>w_client := c, w_pc := PFirst s\<rparr>)"
| first_install: "w_pc w = PFirst s \<Longrightarrow> install s (w_client w) = (c, ok) \<Longrightarrow>
    stream_step P H w (if ok then w\<lparr>w_client := c, w_pc := PSession s\<rparr>
                       else w\<lparr>w_client := cancel_client c, w_pc := PFailed\<rparr>)"
| message_handled: "w_pc w = PSession s \<Longrightarrow> read_turn P H s r now io (w_client w) = (c, None) \<Longrightarrow>
    stream_step P H w (w\<lparr>w_client := c\<rparr>)"
| reading_fails: "w_pc w = PSession s \<Longrightarrow> read_turn P H s r now io (w_client w) = (c, Some e) \<Longrightarrow>
    stream_step P H w (w\<lparr>w_client := c, w_pc := PReturning s e\<rparr>)"
| session_ends: "w_pc w = PReturning s e \<Longrightarrow>
    stream_step P H w (w\<lparr>w_client := end_session s e (w_client w), w_pc := PEnded s e\<rparr>)"
| session_joined: "w_pc w = PEnded s e \<Longrightarrow> holder_user (w_holder w) \<noteq> Some Restorer \<Longrightarrow>
    stream_step P H w (w\<lparr>w_pc := if sc_stopped (w_client w) then PClosing
                                  else PLost s (run_cause s e (w_client w))\<rparr>)"
| loss_cancelled: "w_pc w = PLost s e \<Longrightarrow> sc_ctxErr (w_client w) = Some x \<Longrightarrow>
    stream_step P H w (w\<lparr>w_client := stop (Some (ContextError x)) (w_client w), w_pc := PClosing\<rparr>)"
| loss_discarded: "w_pc w = PLost s e \<Longrightarrow> sc_ctxErr (w_client w) = None \<Longrightarrow>
    stream_step P H w (w\<lparr>w_client := discard s e (w_client w), w_pc := PDiscarded s e\<rparr>)"
| given_up: "w_pc w = PDiscarded s e \<Longrightarrow> gives_up (cc_Reconnect (sc_cfg (w_client w))) e \<Longrightarrow>
    stream_step P H w (w\<lparr>w_client := stop (Some e) (w_client w), w_pc := PClosing\<rparr>)"
| retry_decided: "w_pc w = PDiscarded s e \<Longrightarrow> \<not> gives_up (cc_Reconnect (sc_cfg (w_client w))) e \<Longrightarrow>
    stream_step P H w (w\<lparr>w_pc := PRetry (errors_Is e ErrManualReconnect),
      w_delay := reset_delay (cc_Reconnect (sc_cfg (w_client w))) age (w_delay w)\<rparr>)"
| wait_cancelled: "w_pc w = PRetry False \<Longrightarrow> sc_ctxErr (w_client w) \<noteq> None \<Longrightarrow>
    stream_step P H w (w\<lparr>w_pc := PClosing\<rparr>)"
| wait_elapsed: "w_pc w = PRetry False \<Longrightarrow>
    stream_step P H w (w\<lparr>w_client := count_attempt (w_client w), w_pc := PDial,
      w_delay := next_delay (cc_Reconnect (sc_cfg (w_client w))) (w_delay w)\<rparr>)"
| retry_at_once: "w_pc w = PRetry True \<Longrightarrow>
    stream_step P H w (w\<lparr>w_client := count_attempt (w_client w), w_pc := PDial\<rparr>)"
| dial_final: "w_pc w = PDial \<Longrightarrow> dial P io (w_client w) = (c, Inl e) \<Longrightarrow> terminalError e \<Longrightarrow>
    stream_step P H w (w\<lparr>w_client := stop (Some e) c, w_pc := PClosing\<rparr>)"
| dial_fails: "w_pc w = PDial \<Longrightarrow> dial P io (w_client w) = (c, Inl e) \<Longrightarrow> \<not> terminalError e \<Longrightarrow>
    stream_step P H w (w\<lparr>w_client := run_dial_failed e c,
      w_pc := if sc_ctxErr c = None then PRetry False else PClosing\<rparr>)"
| dial_succeeds: "w_pc w = PDial \<Longrightarrow> dial P io (w_client w) = (c, Inr s) \<Longrightarrow>
    stream_step P H w (w\<lparr>w_client := c, w_pc := if sc_maker c then PInstall s else PGate s\<rparr>)"
| reserve_cancelled: "w_pc w = PGate s \<Longrightarrow> sc_ctxErr (w_client w) \<noteq> None \<Longrightarrow>
    stream_step P H w (w\<lparr>w_client := close_session s (w_client w), w_pc := PClosing\<rparr>)"
| reserved: "w_pc w = PGate s \<Longrightarrow> run_reserve (w_client w) = Some c \<Longrightarrow>
    stream_step P H w (w\<lparr>w_client := c, w_pc := PInstall s, w_holder := Holding RunLoop\<rparr>)"
| installed: "w_pc w = PInstall s \<Longrightarrow> install s (w_client w) = (c, True) \<Longrightarrow>
    stream_step P H w (w\<lparr>w_client := c, w_pc := PSession s,
      w_holder := if sc_maker c then w_holder w else Holding Restorer\<rparr>)"
| install_refused: "w_pc w = PInstall s \<Longrightarrow> install s (w_client w) = (c, False) \<Longrightarrow>
    stream_step P H w (w\<lparr>w_client := if sc_maker c then c else release_gate c, w_pc := PClosing,
      w_holder := if sc_maker c then w_holder w else Free\<rparr>)"
| run_ends: "w_pc w = PClosing \<Longrightarrow>
    stream_step P H w (w\<lparr>w_client := run_finish (w_client w), w_pc := PDone\<rparr>)"

inductive_cases stream_stepE: "stream_step P H w w'"

definition started :: "stream_world \<Rightarrow> bool" where
  "started w \<longleftrightarrow> (\<exists>lifetime cfg. w = start_maker lifetime cfg \<and> usable_connection cfg) \<or>
     (\<exists>lifetime cfg. w = start_router lifetime cfg \<and> usable_router cfg)"

subsection \<open>Systems and their invariants\<close>

locale step_system =
  fixes init :: "'w \<Rightarrow> bool"
    and step :: "'w \<Rightarrow> 'w \<Rightarrow> bool"
    and inv :: "'w \<Rightarrow> bool"
  assumes init_inv: "init w \<Longrightarrow> inv w"
    and step_inv: "inv w \<Longrightarrow> step w w' \<Longrightarrow> inv w'"
begin

lemma steps_inv: "step\<^sup>*\<^sup>* w w' \<Longrightarrow> inv w \<Longrightarrow> inv w'"
  by (induction rule: rtranclp_induct) (auto intro: step_inv)

lemma reached_inv: "init w0 \<Longrightarrow> step\<^sup>*\<^sup>* w0 w \<Longrightarrow> inv w"
  using steps_inv init_inv by blast

lemma steps_preserve:
  assumes "step\<^sup>*\<^sup>* w w'" "inv w" "Q w"
    and "\<And>v v'. inv v \<Longrightarrow> Q v \<Longrightarrow> step v v' \<Longrightarrow> Q v'"
  shows "Q w'"
proof -
  from assms(1,2,3) have "inv w' \<and> Q w'"
    by (induction rule: rtranclp_induct) (auto intro: step_inv assms(4))
  then show ?thesis ..
qed

end

subsection \<open>The invariant of a world\<close>

definition gate_ok :: "stream_world \<Rightarrow> bool" where
  "gate_ok w \<longleftrightarrow> gc_cap (rt_subscribeGate (sc_router (w_client w))) = 1 \<and>
     gc_buf (rt_subscribeGate (sc_router (w_client w))) = (if w_holder w = Free then [()] else [])"

fun pc_ok :: "run_pc \<Rightarrow> stream_client \<Rightarrow> bool" where
  "pc_ok (PFirst s) c = (sc_current c = None \<and> s < sc_nextSession c)"
| "pc_ok (PGate s) c = (sc_current c = None \<and> s < sc_nextSession c \<and> \<not> sc_maker c)"
| "pc_ok (PInstall s) c = (sc_current c = None \<and> s < sc_nextSession c)"
| "pc_ok (PSession s) c = (s < sc_nextSession c \<and> (sc_current c = None \<or> sc_current c = Some s))"
| "pc_ok (PReturning s e) c = (s < sc_nextSession c \<and> (sc_current c = None \<or> sc_current c = Some s))"
| "pc_ok (PEnded s e) c = (s < sc_nextSession c \<and> (sc_current c = None \<or> sc_current c = Some s))"
| "pc_ok (PLost s e) c = (s < sc_nextSession c \<and> (sc_current c = None \<or> sc_current c = Some s))"
| "pc_ok _ c = (sc_current c = None)"

definition holder_ok :: "stream_world \<Rightarrow> bool" where
  "holder_ok w \<longleftrightarrow>
     (holder_user (w_holder w) = Some RunLoop \<longleftrightarrow> (\<exists>s. w_pc w = PInstall s) \<and> \<not> sc_maker (w_client w)) \<and>
     (holder_user (w_holder w) = Some Restorer \<longrightarrow> pc_session (w_pc w) \<noteq> None) \<and>
     (sc_maker (w_client w) \<longrightarrow> w_holder w = Free) \<and>
     (rt_restoring (sc_router (w_client w)) \<longrightarrow>
        holder_user (w_holder w) \<in> {Some RunLoop, Some Restorer} \<or> sc_ctxErr (w_client w) \<noteq> None)"

text \<open>Channels are closed by the end of \<open>run\<close> only, and keep their configured capacities.\<close>

definition capacities_ok :: "stream_client \<Rightarrow> bool" where
  "capacities_ok c \<longleftrightarrow>
     gc_cap (sc_makerEvents c) = (if sc_maker c then nat (cc_EventBufferSize (sc_cfg c)) else 0) \<and>
     gc_cap (sc_routerEvents c) = (if sc_maker c then 0 else nat (cc_EventBufferSize (sc_cfg c))) \<and>
     gc_cap (rt_frames (sc_router c)) = nat (rtc_FrameBufferSize (rt_cfg (sc_router c)))"

definition closed_ok :: "stream_world \<Rightarrow> bool" where
  "closed_ok w \<longleftrightarrow> capacities_ok (w_client w) \<and> (w_pc w \<noteq> PDone \<longrightarrow>
     \<not> gc_closed (sc_makerEvents (w_client w)) \<and> \<not> gc_closed (sc_routerEvents (w_client w)) \<and>
     \<not> gc_closed (rt_frames (sc_router (w_client w)))) \<and> (w_pc w = PDone \<longrightarrow> sc_doneClosed (w_client w))"

definition world_inv :: "hexlib \<Rightarrow> stream_world \<Rightarrow> bool" where
  "world_inv H w \<longleftrightarrow> client_inv H (w_client w) \<and> gate_ok w \<and> pc_ok (w_pc w) (w_client w) \<and> holder_ok w \<and> closed_ok w"

lemma capacities_fixed:
  assumes "fixed_part c' = fixed_part c"
  shows "capacities_ok c' = capacities_ok c"
  by (simp add: capacities_ok_def fixed_partD [OF assms])

lemma capacities_router [simp]:
  "capacities_ok (c\<lparr>sc_router := (sc_router c)\<lparr>rt_subscribeGate := g\<rparr>\<rparr>) = capacities_ok c"
  "capacities_ok (c\<lparr>sc_router := (sc_router c)\<lparr>rt_restoring := b\<rparr>\<rparr>) = capacities_ok c"
  "capacities_ok (c\<lparr>sc_router := (sc_router c)\<lparr>rt_restoring := b, rt_subscribeGate := g\<rparr>\<rparr>) = capacities_ok c"
  "capacities_ok (c\<lparr>sc_router := (sc_router c)\<lparr>rt_subscribeGate := g, rt_restoring := b\<rparr>\<rparr>) = capacities_ok c"
  "capacities_ok (cancel_client c) = capacities_ok c"
  by (simp_all add: capacities_ok_def cancel_client_def)

lemma pc_ok_evolves:
  assumes "evolves c c'" "fixed_part c' = fixed_part c" "pc_ok pc c"
  shows "pc_ok pc c'"
  using assms fixed_partD(2) [OF assms(2)] by (cases pc) (auto simp: evolves_def)

text \<open>A step that changes only the client's state, by an operation that keeps its fixed part.\<close>

lemma client_step_inv:
  assumes inv: "world_inv H w" and c: "client_inv H c" "evolves (w_client w) c" "fixed_part c = fixed_part (w_client w)"
  shows "world_inv H (w\<lparr>w_client := c\<rparr>)"
proof -
  note f = fixed_partD [OF c(3)]
  have "holder_ok (w\<lparr>w_client := c\<rparr>)"
    using inv c(2) by (auto simp: world_inv_def holder_ok_def f evolves_def)
  then show ?thesis
    using inv c pc_ok_evolves [OF c(2,3)] by (simp add: world_inv_def gate_ok_def closed_ok_def f capacities_fixed [OF c(3)])
qed

text \<open>Moving the run goroutine or the gate's owner on top of such a step.\<close>

lemma pc_step_inv:
  assumes inv: "world_inv H w" and pc: "pc_ok pc (w_client w)" "pc \<noteq> PDone" "w_pc w \<noteq> PDone"
    and run: "(\<exists>s. pc = PInstall s) \<longleftrightarrow> (\<exists>s. w_pc w = PInstall s)"
    and restorer: "holder_user (w_holder w) = Some Restorer \<Longrightarrow> pc_session pc \<noteq> None"
  shows "world_inv H (w\<lparr>w_pc := pc\<rparr>)"
  using inv pc run restorer by (auto simp: world_inv_def gate_ok_def holder_ok_def closed_ok_def)

lemma holder_step_inv:
  assumes inv: "world_inv H w" and h: "w_holder w \<noteq> Free" "holder_user h = holder_user (w_holder w)"
  shows "world_inv H (w\<lparr>w_holder := h\<rparr>)"
proof -
  have "h \<noteq> Free" using h by (cases "w_holder w") auto
  then show ?thesis
    using inv h by (auto simp: world_inv_def gate_ok_def holder_ok_def closed_ok_def)
qed

lemma world_invD:
  assumes "world_inv H w"
  shows "client_inv H (w_client w)" "pc_ok (w_pc w) (w_client w)" "gate_ok w" "holder_ok w" "closed_ok w"
  using assms by (simp_all add: world_inv_def)

lemma gate_user_router: "world_inv H w \<Longrightarrow> w_holder w \<noteq> Free \<Longrightarrow> \<not> sc_maker (w_client w)"
  by (auto simp: world_inv_def holder_ok_def)

lemma evolves_gate [simp]:
  "evolves c (release_gate c') = evolves c c'" "evolves c (restore_end c') = evolves c c'"
  by (simp_all add: release_gate_def restore_end_def split: option.splits)

lemma take_gate_Some:
  "take_gate c = Some c' \<longleftrightarrow> (\<exists>rest. gc_buf (rt_subscribeGate (sc_router c)) = () # rest \<and>
     c' = c\<lparr>sc_router := (sc_router c)\<lparr>rt_subscribeGate := (rt_subscribeGate (sc_router c))\<lparr>gc_buf := rest\<rparr>\<rparr>\<rparr>)"
  by (auto simp: take_gate_def chan_get_def split: option.splits list.splits)

lemma release_gate_open:
  assumes "gate_ok w" "w_holder w \<noteq> Free" "rt_subscribeGate (sc_router c) = rt_subscribeGate (sc_router (w_client w))"
  shows "release_gate c = c\<lparr>sc_router := (sc_router c)\<lparr>rt_subscribeGate :=
    (rt_subscribeGate (sc_router c))\<lparr>gc_buf := [()]\<rparr>\<rparr>\<rparr>"
  using assms by (simp add: release_gate_def gate_ok_def chan_put_def)

lemma gate_taken_inv:
  assumes inv: "world_inv H w" and router: "\<not> sc_maker (w_client w)" and take: "take_gate (w_client w) = Some c"
  shows "world_inv H (w\<lparr>w_client := c, w_holder := Holding Caller\<rparr>)"
proof -
  from take inv have free: "w_holder w = Free"
    by (auto simp: take_gate_Some world_inv_def gate_ok_def split: if_splits)
  from take obtain rest where buf: "gc_buf (rt_subscribeGate (sc_router (w_client w))) = () # rest"
    and c: "c = (w_client w)\<lparr>sc_router := (sc_router (w_client w))\<lparr>rt_subscribeGate :=
      (rt_subscribeGate (sc_router (w_client w)))\<lparr>gc_buf := rest\<rparr>\<rparr>\<rparr>"
    by (auto simp: take_gate_Some)
  have "pc_ok (w_pc w) c"
    using world_invD(2) [OF inv] by (cases "w_pc w") (simp_all add: c)
  moreover have "client_inv H c" using world_invD(1) [OF inv] by (simp add: c inv_gate)
  ultimately show ?thesis
    using inv buf free router by (auto simp: world_inv_def gate_ok_def holder_ok_def closed_ok_def c)
qed

text \<open>Giving the gate back; \<open>restoring\<close> is cleared by restoration only.\<close>

lemma release_inv:
  assumes inv: "world_inv H w" and held: "w_holder w \<noteq> Free" and user: "holder_user (w_holder w) \<noteq> Some RunLoop"
    and restoring: "holder_user (w_holder w) = Some Restorer \<Longrightarrow> \<not> b"
      "holder_user (w_holder w) \<noteq> Some Restorer \<Longrightarrow> b = rt_restoring (sc_router (w_client w))"
  shows "world_inv H (w\<lparr>w_client := (w_client w)\<lparr>sc_router := (sc_router (w_client w))\<lparr>rt_restoring := b,
      rt_subscribeGate := (rt_subscribeGate (sc_router (w_client w)))\<lparr>gc_buf := [()]\<rparr>\<rparr>\<rparr>, w_holder := Free\<rparr>)"
    (is "world_inv H ?w")
proof -
  have "client_inv H (w_client ?w)"
    using inv_gate [OF inv_restoring [OF world_invD(1) [OF inv], of b],
        of "(rt_subscribeGate (sc_router (w_client w)))\<lparr>gc_buf := [()]\<rparr>"] by simp
  moreover have "pc_ok (w_pc w) (w_client ?w)"
    using world_invD(2) [OF inv] by (cases "w_pc w") simp_all
  ultimately show ?thesis
    using inv held user restoring by (auto simp: world_inv_def gate_ok_def holder_ok_def closed_ok_def)
qed

end
