(* ===== verification/Stream_Safety.thy ===== *)
theory Stream_Safety
  imports Stream_System
begin

text \<open>
  Every step of the streaming system keeps its invariant, and what follows for every reachable
  world: no operation panics or blocks while holding the mutex, the queue holds only frames of the
  current generation and revision, and a stop is final. The last part shows that a stopped client's
  \<open>run\<close> can always finish, so \<open>Close\<close> can return.
\<close>

lemma subscription_outcome_ok [simp]:
  "client_inv H c \<Longrightarrow> client_inv H (subscription_outcome u s e c)"
  "evolves c' c \<Longrightarrow> evolves c' (subscription_outcome u s e c)"
  "fixed_part (subscription_outcome u s e c) = fixed_part c"
  by (cases u; auto simp: inv_restore_outcome intro: evolves_trans [OF _ evolves_restore_outcome])+

lemma session_fields [simp]:
  "sc_current (close_session s c) = sc_current c" "sc_nextSession (close_session s c) = sc_nextSession c"
  "sc_current (end_session s e c) = sc_current c" "sc_nextSession (end_session s e c) = sc_nextSession c"
  "sc_current (count_attempt c) = sc_current c" "sc_current (run_dial_failed e c) = sc_current c"
  "sc_current (cancel_client c) = sc_current c"
  by (simp_all add: cancel_client_def run_dial_failed_def signalLocked_def end_session_def note_failure_def close_session_def upd_session_def count_attempt_def)

lemma lifetime_inv:
  assumes "world_inv H w" "sc_ctxErr (w_client w) = None"
  shows "world_inv H (w\<lparr>w_client := (w_client w)\<lparr>sc_ctxErr := Some e\<rparr>\<rparr>)"
proof (rule client_step_inv [OF assms(1)])
  have "lifecycle_ok ((w_client w)\<lparr>sc_ctxErr := Some e\<rparr>)" if "lifecycle_ok (w_client w)"
    using that unfolding lifecycle_ok_def by auto
  then show "client_inv H ((w_client w)\<lparr>sc_ctxErr := Some e\<rparr>)"
    using world_invD(1) [OF assms(1)] by (simp add: client_inv_def)
  show "evolves (w_client w) ((w_client w)\<lparr>sc_ctxErr := Some e\<rparr>)"
    using assms(2) by (simp add: evolves_def)
qed simp

lemma cancel_client_inv: "client_inv H c \<Longrightarrow> client_inv H (cancel_client c)"
proof -
  assume "client_inv H c"
  moreover have "lifecycle_ok (cancel_client c)" if "lifecycle_ok c"
    using that unfolding lifecycle_ok_def cancel_client_def by auto
  ultimately show ?thesis by (simp add: client_inv_def cancel_client_def)
qed

text \<open>A client step followed by a move of \<open>run\<close>, and by a change of the gate's state.\<close>

lemma client_pc_inv:
  assumes "world_inv H w" "client_inv H c" "evolves (w_client w) c" "fixed_part c = fixed_part (w_client w)"
    and "pc_ok pc c" "pc \<noteq> PDone" "w_pc w \<noteq> PDone"
    and "(\<exists>s. pc = PInstall s) \<longleftrightarrow> (\<exists>s. w_pc w = PInstall s)"
    and "holder_user (w_holder w) = Some Restorer \<Longrightarrow> pc_session pc \<noteq> None"
  shows "world_inv H (w\<lparr>w_client := c, w_pc := pc\<rparr>)"
proof -
  have "world_inv H ((w\<lparr>w_client := c\<rparr>)\<lparr>w_pc := pc\<rparr>)"
    by (rule pc_step_inv [OF client_step_inv [OF assms(1-4)]]) (use assms(5-) in simp_all)
  then show ?thesis by simp
qed

lemma client_holder_inv:
  assumes "world_inv H w" "client_inv H c" "evolves (w_client w) c" "fixed_part c = fixed_part (w_client w)"
    and "w_holder w \<noteq> Free" "holder_user h = holder_user (w_holder w)"
  shows "world_inv H (w\<lparr>w_client := c, w_holder := h\<rparr>)"
proof -
  have "world_inv H ((w\<lparr>w_client := c\<rparr>)\<lparr>w_holder := h\<rparr>)"
    by (rule holder_step_inv [OF client_step_inv [OF assms(1-4)]]) (use assms(5-) in simp_all)
  then show ?thesis by simp
qed

lemma no_restorer: "world_inv H w \<Longrightarrow> pc_session (w_pc w) = None \<Longrightarrow> holder_user (w_holder w) \<noteq> Some Restorer"
  by (auto simp: world_inv_def holder_ok_def)

lemma stop_current: "client_inv H c \<Longrightarrow> sc_current (stop e c) = None"
  using stopped_state(2) [OF inv_stopLocked stopLocked_stopped] by (simp add: stop_def)

lemma discard_not_current: "sc_current (discard s e c) \<noteq> Some s"
proof -
  have "sc_current (connectionEventLocked (signalLocked (clear_subscription c'))) \<noteq> Some s" if "sc_current c' = None" for c'
    using evolves_emit(4) [of c' "signalLocked (clear_subscription c')"] that by (auto simp: evolves_def [of c'])
  then show ?thesis
    by (auto simp: discard_def Let_def close_session_def upd_session_def)
qed

lemma begin_fixed: "sendSubscription_begin P s q now io c = Inr (d, c') \<Longrightarrow> fixed_part c' = fixed_part c"
  by (auto simp: sendSubscription_begin_def attempt_Inr write_begin_Inr)

lemma begin_holder_inv:
  assumes inv: "world_inv H w" and held: "w_holder w = Holding u"
    and sent: "sendSubscription_begin P s q now io (w_client w) = Inr (d, c)"
  shows "world_inv H (w\<lparr>w_client := c, w_holder := Waiting u s p d\<rparr>)"
  by (rule client_holder_inv [OF inv])
    (use inv held sent gate_user_router [OF inv] inv_sendSubscription_begin [OF world_invD(1) [OF inv] _ sent]
      in \<open>simp_all add: begin_fixed evolves_sendSubscription_begin\<close>)

lemma outcome_holder_inv:
  assumes inv: "world_inv H w" and held: "holder_user (w_holder w) = Some u"
    and c: "client_inv H c" "evolves (w_client w) c" "fixed_part c = fixed_part (w_client w)"
  shows "world_inv H (w\<lparr>w_client := subscription_outcome u s e c, w_holder := Finishing u\<rparr>)"
  using held by (intro client_holder_inv [OF inv]) (use c in auto)

lemma release_caller_inv:
  assumes inv: "world_inv H w" and held: "w_holder w = Finishing Caller"
  shows "world_inv H (w\<lparr>w_client := release_gate (w_client w), w_holder := Free\<rparr>)"
proof -
  have "release_gate (w_client w) = (w_client w)\<lparr>sc_router := (sc_router (w_client w))\<lparr>
      rt_restoring := rt_restoring (sc_router (w_client w)),
      rt_subscribeGate := (rt_subscribeGate (sc_router (w_client w)))\<lparr>gc_buf := [()]\<rparr>\<rparr>\<rparr>"
    using release_gate_open [OF world_invD(3) [OF inv], of "w_client w"] held by simp
  then show ?thesis
    using release_inv [OF inv, of "rt_restoring (sc_router (w_client w))"] held by simp
qed

lemma restore_ends_inv:
  assumes inv: "world_inv H w" and held: "w_holder w = Finishing Restorer"
  shows "world_inv H (w\<lparr>w_client := restore_end (w_client w), w_holder := Free\<rparr>)"
proof -
  let ?r = "(sc_router (w_client w))\<lparr>rt_restoring := False,
      rt_subscribeGate := (rt_subscribeGate (sc_router (w_client w)))\<lparr>gc_buf := [()]\<rparr>\<rparr>"
  have "restore_end (w_client w) = signalLocked ((w_client w)\<lparr>sc_router := ?r\<rparr>)"
    using world_invD(3) [OF inv] held
    by (cases "w_client w") (simp add: restore_end_def release_gate_def signalLocked_def gate_ok_def chan_put_def)
  moreover have "world_inv H (v\<lparr>w_client := signalLocked (w_client v)\<rparr>)" if "world_inv H v" for v
    using that by (intro client_step_inv [OF that]) (simp_all add: world_invD)
  from this [of "w\<lparr>w_client := (w_client w)\<lparr>sc_router := ?r\<rparr>, w_holder := Free\<rparr>"]
  have "world_inv H (w\<lparr>w_client := signalLocked ((w_client w)\<lparr>sc_router := ?r\<rparr>), w_holder := Free\<rparr>)"
    using release_inv [OF inv, of False] held by (cases w) simp
  ultimately show ?thesis by simp
qed

lemma dial_inv:
  assumes "client_inv H c" "dial P io c = (c', r)"
  shows "client_inv H c'" "evolves c c'" "fixed_part c' = fixed_part c"
  using assms inv_dial [of H c P io] evolves_dial [of c P io] fixed_dial [of P io c] by simp_all

lemma dial_session: "dial P io c = (c', Inr s) \<Longrightarrow> s < sc_nextSession c'"
  by (auto simp: dial_def Let_def upd_session_def count_received_def split: sum.splits prod.splits)

lemma dial_failed_same: "dial P io c = (c', Inl e) \<Longrightarrow> c' = c"
  by (auto simp: dial_def Let_def split: sum.splits prod.splits)

lemma reserved_inv:
  assumes inv: "world_inv H w" and pc: "w_pc w = PGate s" and res: "run_reserve (w_client w) = Some c"
  shows "world_inv H (w\<lparr>w_client := c, w_pc := PInstall s, w_holder := Holding RunLoop\<rparr>)"
proof -
  from res obtain c1 where take: "take_gate (w_client w) = Some c1"
    and c: "c = c1\<lparr>sc_router := (sc_router c1)\<lparr>rt_restoring := True\<rparr>\<rparr>"
    by (auto simp: run_reserve_def split: option.splits)
  have router: "\<not> sc_maker (w_client w)" using world_invD(2) [OF inv] pc by simp
  have v: "world_inv H (w\<lparr>w_client := c1, w_holder := Holding Caller\<rparr>)"
    using gate_taken_inv [OF inv router take] .
  then have "client_inv H c" by (simp add: c world_inv_def inv_restoring)
  then show ?thesis
    using v pc by (auto simp: world_inv_def gate_ok_def holder_ok_def closed_ok_def c)
qed

text \<open>The state right after \<open>install\<close>, for a session that was dialed and not yet shown.\<close>

lemma install_inv:
  assumes inv: "client_inv H c" and s: "s < sc_nextSession c" "sc_current c = None" and ins: "install s c = (c', ok)"
  shows "client_inv H c'" "fixed_part c' = fixed_part c" "s < sc_nextSession c'"
    "sc_current c' = None \<or> sc_current c' = Some s" "sc_ctxErr c \<noteq> None \<Longrightarrow> sc_ctxErr c' \<noteq> None"
    "\<not> ok \<Longrightarrow> sc_current c' = None \<and> sc_ctxErr c' \<noteq> None"
proof -
  show i: "client_inv H c'" using inv_install [OF inv s] ins by simp
  show "fixed_part c' = fixed_part c" using fixed_install [of s c] ins by simp
  show "s < sc_nextSession c'" "sc_current c' = None \<or> sc_current c' = Some s" "sc_ctxErr c \<noteq> None \<Longrightarrow> sc_ctxErr c' \<noteq> None"
    using ins s by (cases rule: install_cases; auto simp: evolves_def close_session_def upd_session_def)+
  show "sc_current c' = None \<and> sc_ctxErr c' \<noteq> None" if "\<not> ok"
    using ins
  proof (cases rule: install_cases)
    case refused
    have "sc_ctxErr c \<noteq> None"
      using refused(2) inv by (auto simp: client_inv_def lifecycle_ok_def)
    then show ?thesis using refused s by (simp add: close_session_def upd_session_def)
  next
    case (installed c1)
    then show ?thesis using that stopped_state(2,7) [OF i] by simp
  qed
qed

lemma first_install_inv:
  assumes inv: "world_inv H w" and pc: "w_pc w = PFirst s" and ins: "install s (w_client w) = (c, ok)"
  shows "world_inv H (if ok then w\<lparr>w_client := c, w_pc := PSession s\<rparr> else w\<lparr>w_client := cancel_client c, w_pc := PFailed\<rparr>)"
proof -
  have "s < sc_nextSession (w_client w)" "sc_current (w_client w) = None"
    using world_invD(2) [OF inv] pc by simp_all
  note i = install_inv [OF world_invD(1) [OF inv] this ins]
  note f = fixed_partD [OF i(2)]
  have cf: "fixed_part (cancel_client c) = fixed_part (w_client w)" using i(2) by simp
  have "world_inv H (w\<lparr>w_client := c, w_pc := PSession s\<rparr>)"
    using inv i(1,3-5) pc by (auto simp: world_inv_def gate_ok_def holder_ok_def closed_ok_def f capacities_fixed [OF i(2)])
  moreover have "world_inv H (w\<lparr>w_client := cancel_client c, w_pc := PFailed\<rparr>)" if "\<not> ok"
    using inv i(6) [OF that] pc cancel_client_inv [OF i(1)] no_restorer [OF inv]
    by (simp add: world_inv_def gate_ok_def holder_ok_def closed_ok_def fixed_partD [OF cf] capacities_fixed [OF i(2)])
      (simp add: cancel_client_def)
  ultimately show ?thesis by simp
qed

lemma installed_inv:
  assumes inv: "world_inv H w" and pc: "w_pc w = PInstall s" and ins: "install s (w_client w) = (c, True)"
  shows "world_inv H (w\<lparr>w_client := c, w_pc := PSession s, w_holder := if sc_maker c then w_holder w else Holding Restorer\<rparr>)"
proof -
  have "s < sc_nextSession (w_client w)" "sc_current (w_client w) = None"
    using world_invD(2) [OF inv] pc by simp_all
  note i = install_inv [OF world_invD(1) [OF inv] this ins]
  note f = fixed_partD [OF i(2)]
  show ?thesis
    using inv i(1,3-5) pc by (auto simp: world_inv_def gate_ok_def holder_ok_def closed_ok_def f capacities_fixed [OF i(2)])
qed

lemma install_refused_inv:
  assumes inv: "world_inv H w" and pc: "w_pc w = PInstall s" and ins: "install s (w_client w) = (c, False)"
  shows "world_inv H (w\<lparr>w_client := if sc_maker c then c else release_gate c, w_pc := PClosing,
      w_holder := if sc_maker c then w_holder w else Free\<rparr>)"
proof -
  have "s < sc_nextSession (w_client w)" "sc_current (w_client w) = None"
    using world_invD(2) [OF inv] pc by simp_all
  note i = install_inv [OF world_invD(1) [OF inv] this ins]
  note f = fixed_partD [OF i(2)]
  show ?thesis
  proof (cases "sc_maker c")
    case True
    then show ?thesis
      using inv i(1,5,6) pc by (auto simp: world_inv_def gate_ok_def holder_ok_def closed_ok_def f capacities_fixed [OF i(2)])
  next
    case False
    then have held: "w_holder w \<noteq> Free"
      using inv pc f by (auto simp: world_inv_def holder_ok_def)
    have gate: "release_gate c = c\<lparr>sc_router := (sc_router c)\<lparr>rt_subscribeGate :=
        (rt_subscribeGate (sc_router c))\<lparr>gc_buf := [()]\<rparr>\<rparr>\<rparr>"
      using release_gate_open [OF world_invD(3) [OF inv] held f(5)] .
    have "client_inv H (release_gate c)" using i(1) by (simp add: gate inv_gate)
    then show ?thesis
      using inv i(6) False pc by (simp add: world_inv_def gate_ok_def holder_ok_def closed_ok_def f gate capacities_fixed [OF i(2)])
  qed
qed

lemma run_ends_inv:
  assumes inv: "world_inv H w" and pc: "w_pc w = PClosing"
  shows "world_inv H (w\<lparr>w_client := run_finish (w_client w), w_pc := PDone\<rparr>)"
proof -
  let ?c = "run_finish (w_client w)"
  have i: "client_inv H ?c" "sc_stopped ?c" and closed: "sc_doneClosed ?c"
    using inv_run_finish [OF world_invD(1) [OF inv]] world_invD(5) [OF inv] pc by (simp_all add: closed_ok_def)
  have "fixed_part (stopLocked e (w_client w)) = fixed_part (w_client w)" for e
    by simp
  note f = fixed_partD [OF this]
  have "rt_subscribeGate (sc_router ?c) = rt_subscribeGate (sc_router (w_client w))" "sc_maker ?c = sc_maker (w_client w)"
      "capacities_ok ?c = capacities_ok (w_client w)"
    by (simp_all add: run_finish_def Let_def f set_fault_def capacities_ok_def)
  then show ?thesis
    using inv i closed pc stopped_state(2,7) [OF i] no_restorer [OF inv]
    by (auto simp: world_inv_def gate_ok_def holder_ok_def closed_ok_def)
qed

text \<open>Steps that leave \<open>run\<close> and the gate where they are.\<close>

lemma receive_frame_fixed:
  "receive_frame c = Some (u, c') \<Longrightarrow> fixed_part c' = fixed_part c \<and> evolves c c'"
  by (auto simp: receive_frame_def chan_get_def fixed_router_fields split: option.splits list.splits)

lemma receive_event_fixed: "receive_event c = Some (e, c') \<Longrightarrow> fixed_part c' = fixed_part c \<and> evolves c c'"
  by (auto simp: receive_event_def chan_get_def fixed_part_def split: option.splits list.splits)

lemma Next_fixed: "fixed_part (fst (Next d c)) = fixed_part c \<and> evolves c (fst (Next d c))"
  by (auto simp: Next_def chan_get_def fixed_part_def split: option.splits list.splits)

lemma environment_inv:
  assumes "world_inv H w"
  shows "world_inv H (w\<lparr>w_client := stop e (w_client w)\<rparr>)"
    "world_inv H (w\<lparr>w_client := fst (write_end s d io (w_client w))\<rparr>)"
    "world_inv H (w\<lparr>w_client := discard s x (w_client w)\<rparr>)"
    "world_inv H (w\<lparr>w_client := fst (Next n (w_client w))\<rparr>)"
  by (rule client_step_inv [OF assms];
      simp add: world_invD [OF assms] inv_stop inv_write_end inv_discard inv_Next evolves_emit evolves_ops Next_fixed)+

lemma read_turn_inv:
  assumes inv: "world_inv H w" and r: "read_turn P H s r now io (w_client w) = (c, e)"
  shows "client_inv H c" "evolves (w_client w) c" "fixed_part c = fixed_part (w_client w)"
  using inv_read_turn [OF world_invD(1) [OF inv], of P s r now io] evolves_read_turn [of "w_client w" P H s r now io]
    fixed_read_turn [of P H s r now io "w_client w"] r by simp_all

lemma stop_pc_inv:
  assumes inv: "world_inv H w" and c: "client_inv H c" "evolves (w_client w) c" "fixed_part c = fixed_part (w_client w)"
    and pc: "w_pc w \<noteq> PDone" "\<And>s. w_pc w \<noteq> PInstall s" "pc_session (w_pc w) = None"
  shows "world_inv H (w\<lparr>w_client := stop e c, w_pc := PClosing\<rparr>)"
  by (rule client_pc_inv [OF inv])
    (use c pc no_restorer [OF inv] in \<open>simp_all add: inv_stop evolves_emit stop_current\<close>)

lemma answer_inv:
  assumes "world_inv H w"
  shows "sendSubscription_written s d io (w_client w) = (c, r) \<Longrightarrow>
      client_inv H c \<and> evolves (w_client w) c \<and> fixed_part c = fixed_part (w_client w)"
    "sendSubscription_wait s p v (w_client w) = (c, r') \<Longrightarrow>
      client_inv H c \<and> evolves (w_client w) c \<and> fixed_part c = fixed_part (w_client w)"
  using inv_sendSubscription_written [OF world_invD(1) [OF assms], of s d io]
    inv_sendSubscription_wait [OF world_invD(1) [OF assms], of s p v]
    evolves_written [of "w_client w" s d io] evolves_wait [of "w_client w" s p v]
    fixed_written [of s d io "w_client w"] fixed_wait [of s p v "w_client w"] by simp_all

text \<open>Subscribing: the rules for callers and for restoration.\<close>

lemma subscription_step_inv:
  assumes inv: "world_inv H w"
  shows "w_holder w = Holding Caller \<Longrightarrow> world_inv H (w\<lparr>w_holder := Finishing Caller\<rparr>)"
    "w_holder w = Holding Restorer \<Longrightarrow> world_inv H (w\<lparr>w_holder := Finishing Restorer\<rparr>)"
    "w_holder w = Holding Restorer \<Longrightarrow>
       world_inv H (w\<lparr>w_client := restore_outcome s x (w_client w), w_holder := Finishing Restorer\<rparr>)"
    "w_holder w = Waiting u s p d \<Longrightarrow> sendSubscription_written s d io (w_client w) = (c, Some e) \<Longrightarrow>
       world_inv H (w\<lparr>w_client := subscription_outcome u s (Some e) c, w_holder := Finishing u\<rparr>)"
    "w_holder w = Waiting u s p d \<Longrightarrow> sendSubscription_wait s p v (w_client w) = (c, r) \<Longrightarrow>
       world_inv H (w\<lparr>w_client := subscription_outcome u s (result_err r) c, w_holder := Finishing u\<rparr>)"
proof -
  show "world_inv H (w\<lparr>w_holder := Finishing Caller\<rparr>)" if "w_holder w = Holding Caller"
    using that by (intro holder_step_inv [OF inv]) simp_all
  show "world_inv H (w\<lparr>w_holder := Finishing Restorer\<rparr>)" if "w_holder w = Holding Restorer"
    using that by (intro holder_step_inv [OF inv]) simp_all
  show "world_inv H (w\<lparr>w_client := restore_outcome s x (w_client w), w_holder := Finishing Restorer\<rparr>)"
    if "w_holder w = Holding Restorer"
    using outcome_holder_inv [OF inv, of Restorer "w_client w" s x] that world_invD(1) [OF inv] by simp
  show "world_inv H (w\<lparr>w_client := subscription_outcome u s (Some e) c, w_holder := Finishing u\<rparr>)"
    if "w_holder w = Waiting u s p d" "sendSubscription_written s d io (w_client w) = (c, Some e)"
    using answer_inv(1) [OF inv that(2)] that(1) by (intro outcome_holder_inv [OF inv]) simp_all
  show "world_inv H (w\<lparr>w_client := subscription_outcome u s (result_err r) c, w_holder := Finishing u\<rparr>)"
    if "w_holder w = Waiting u s p d" "sendSubscription_wait s p v (w_client w) = (c, r)"
    using answer_inv(2) [OF inv that(2)] that(1) by (intro outcome_holder_inv [OF inv]) simp_all
qed

text \<open>The session's goroutine: reading, ending and deciding.\<close>

lemma session_step_inv:
  assumes inv: "world_inv H w"
  shows "w_pc w = PSession s \<Longrightarrow> read_turn P H s r now io (w_client w) = (c, None) \<Longrightarrow>
      world_inv H (w\<lparr>w_client := c\<rparr>)"
    "w_pc w = PSession s \<Longrightarrow> read_turn P H s r now io (w_client w) = (c, Some e) \<Longrightarrow>
      world_inv H (w\<lparr>w_client := c, w_pc := PReturning s e\<rparr>)"
    "w_pc w = PReturning s e \<Longrightarrow>
      world_inv H (w\<lparr>w_client := end_session s e (w_client w), w_pc := PEnded s e\<rparr>)"
    "w_pc w = PEnded s e \<Longrightarrow> holder_user (w_holder w) \<noteq> Some Restorer \<Longrightarrow>
      world_inv H (w\<lparr>w_pc := if sc_stopped (w_client w) then PClosing else PLost s (run_cause s e (w_client w))\<rparr>)"
    "w_pc w = PLost s e \<Longrightarrow> world_inv H (w\<lparr>w_client := stop x (w_client w), w_pc := PClosing\<rparr>)"
    "w_pc w = PLost s e \<Longrightarrow> world_inv H (w\<lparr>w_client := discard s e (w_client w), w_pc := PDiscarded s e\<rparr>)"
proof -
  note c = world_invD(1) [OF inv] and pcok = world_invD(2) [OF inv]
  show "world_inv H (w\<lparr>w_client := c\<rparr>)" if "read_turn P H s r now io (w_client w) = (c, None)"
    by (rule client_step_inv [OF inv read_turn_inv [OF inv that]])
  show "world_inv H (w\<lparr>w_client := c, w_pc := PReturning s e\<rparr>)"
    if pc: "w_pc w = PSession s" and r: "read_turn P H s r now io (w_client w) = (c, Some e)"
    by (rule client_pc_inv [OF inv read_turn_inv [OF inv r]])
      (use pc pcok pc_ok_evolves [OF read_turn_inv(2,3) [OF inv r] pcok] in simp_all)
  show "world_inv H (w\<lparr>w_client := end_session s e (w_client w), w_pc := PEnded s e\<rparr>)" if pc: "w_pc w = PReturning s e"
    by (rule client_pc_inv [OF inv inv_end_session [OF c]])
      (use pc pcok in simp_all)
  show "world_inv H (w\<lparr>w_pc := if sc_stopped (w_client w) then PClosing else PLost s (run_cause s e (w_client w))\<rparr>)"
    if "w_pc w = PEnded s e" "holder_user (w_holder w) \<noteq> Some Restorer"
    by (rule pc_step_inv [OF inv]) (use that pcok stopped_state(2) [OF c] in simp_all)
  show "world_inv H (w\<lparr>w_client := stop x (w_client w), w_pc := PClosing\<rparr>)" if "w_pc w = PLost s e"
    by (rule stop_pc_inv [OF inv c]) (use that in simp_all)
  show "world_inv H (w\<lparr>w_client := discard s e (w_client w), w_pc := PDiscarded s e\<rparr>)" if pc: "w_pc w = PLost s e"
  proof (rule client_pc_inv [OF inv inv_discard [OF c]])
    have "sc_current (discard s e (w_client w)) = None \<or> sc_current (discard s e (w_client w)) = Some s"
      using evolves_discard [of "w_client w" s e] pcok pc by (auto simp: evolves_def)
    moreover have "sc_current (discard s e (w_client w)) \<noteq> Some s"
      by (rule discard_not_current)
    ultimately show "pc_ok (PDiscarded s e) (discard s e (w_client w))" by auto
  qed (use pc no_restorer [OF inv] in \<open>simp_all add: evolves_ops\<close>)
qed

text \<open>Retrying: waiting, dialing and reserving the gate.\<close>

lemma retry_step_inv:
  assumes inv: "world_inv H w"
  shows "w_pc w = PDiscarded s e \<Longrightarrow> world_inv H (w\<lparr>w_client := stop x (w_client w), w_pc := PClosing\<rparr>)"
    "w_pc w = PDiscarded s e \<Longrightarrow> world_inv H (w\<lparr>w_pc := PRetry b, w_delay := d\<rparr>)"
    "w_pc w = PRetry b \<Longrightarrow> world_inv H (w\<lparr>w_pc := PClosing\<rparr>)"
    "w_pc w = PRetry b \<Longrightarrow> world_inv H (w\<lparr>w_client := count_attempt (w_client w), w_pc := PDial, w_delay := d\<rparr>)"
    "w_pc w = PDial \<Longrightarrow> dial P io (w_client w) = (c, Inl e) \<Longrightarrow>
      world_inv H (w\<lparr>w_client := stop x c, w_pc := PClosing\<rparr>)"
    "w_pc w = PDial \<Longrightarrow> dial P io (w_client w) = (c, Inl e) \<Longrightarrow>
      world_inv H (w\<lparr>w_client := run_dial_failed e c, w_pc := if sc_ctxErr c = None then PRetry False else PClosing\<rparr>)"
    "w_pc w = PGate s \<Longrightarrow> world_inv H (w\<lparr>w_client := close_session s (w_client w), w_pc := PClosing\<rparr>)"
proof -
  note c = world_invD(1) [OF inv] and pcok = world_invD(2) [OF inv] and nr = no_restorer [OF inv]
  have delay: "world_inv H (v\<lparr>w_delay := d\<rparr>)" if "world_inv H v" for v d
    using that by (auto simp: world_inv_def gate_ok_def holder_ok_def closed_ok_def)
  show "world_inv H (w\<lparr>w_client := stop x (w_client w), w_pc := PClosing\<rparr>)" if "w_pc w = PDiscarded s e"
    by (rule stop_pc_inv [OF inv c]) (use that in simp_all)
  have "world_inv H (w\<lparr>w_pc := PRetry b\<rparr>)" if "w_pc w = PDiscarded s e"
    by (rule pc_step_inv [OF inv]) (use that pcok nr in simp_all)
  then show "world_inv H (w\<lparr>w_pc := PRetry b, w_delay := d\<rparr>)" if "w_pc w = PDiscarded s e"
    using delay [of "w\<lparr>w_pc := PRetry b\<rparr>" d] that by simp
  show "world_inv H (w\<lparr>w_pc := PClosing\<rparr>)" if "w_pc w = PRetry b"
    by (rule pc_step_inv [OF inv]) (use that pcok nr in simp_all)
  have "world_inv H (w\<lparr>w_client := count_attempt (w_client w), w_pc := PDial\<rparr>)" if "w_pc w = PRetry b"
    by (rule client_pc_inv [OF inv]) (use that c pcok nr in simp_all)
  then show "world_inv H (w\<lparr>w_client := count_attempt (w_client w), w_pc := PDial, w_delay := d\<rparr>)" if "w_pc w = PRetry b"
    using delay [of "w\<lparr>w_client := count_attempt (w_client w), w_pc := PDial\<rparr>" d] that by simp
  show "world_inv H (w\<lparr>w_client := stop x c, w_pc := PClosing\<rparr>)"
    if "w_pc w = PDial" "dial P io (w_client w) = (c, Inl e)" for c
    by (rule stop_pc_inv [OF inv dial_inv [OF world_invD(1) [OF inv] that(2)]]) (use that in simp_all)
  show "world_inv H (w\<lparr>w_client := run_dial_failed e c, w_pc := if sc_ctxErr c = None then PRetry False else PClosing\<rparr>)"
    if "w_pc w = PDial" "dial P io (w_client w) = (c, Inl e)" for c
    using dial_inv [OF world_invD(1) [OF inv] that(2)] dial_failed_same [OF that(2)] that(1) pcok nr
    by (intro client_pc_inv [OF inv]) (auto simp: inv_run_dial_failed)
  show "world_inv H (w\<lparr>w_client := close_session s (w_client w), w_pc := PClosing\<rparr>)" if "w_pc w = PGate s"
    by (rule client_pc_inv [OF inv]) (use that c pcok nr in
      \<open>simp_all add: inv_close_session\<close>)
qed

lemma dial_step_inv:
  assumes inv: "world_inv H w" and dial: "dial P io (w_client w) = (c, r)"
  shows "w_pc w = PStart \<Longrightarrow> r = Inl e \<Longrightarrow> world_inv H (w\<lparr>w_client := cancel_client c, w_pc := PFailed\<rparr>)"
    "w_pc w = PStart \<Longrightarrow> r = Inr s \<Longrightarrow> world_inv H (w\<lparr>w_client := c, w_pc := PFirst s\<rparr>)"
    "w_pc w = PDial \<Longrightarrow> r = Inr s \<Longrightarrow> world_inv H (w\<lparr>w_client := c, w_pc := if sc_maker c then PInstall s else PGate s\<rparr>)"
proof -
  note d = dial_inv [OF world_invD(1) [OF inv] dial] and nr = no_restorer [OF inv]
  have cur: "sc_current c = None" if "sc_current (w_client w) = None"
    using d(2) that by (auto simp: evolves_def)
  show "world_inv H (w\<lparr>w_client := cancel_client c, w_pc := PFailed\<rparr>)" if "w_pc w = PStart"
    using that cur world_invD(2) [OF inv] d nr
    by (intro client_pc_inv [OF inv]) (auto simp: cancel_client_inv evolves_drop)
  show "world_inv H (w\<lparr>w_client := c, w_pc := PFirst s\<rparr>)" if "w_pc w = PStart" "r = Inr s"
    using that cur world_invD(2) [OF inv] d dial dial_session nr
    by (intro client_pc_inv [OF inv]) auto
  show "world_inv H (w\<lparr>w_client := c, w_pc := if sc_maker c then PInstall s else PGate s\<rparr>)"
    if "w_pc w = PDial" "r = Inr s"
    using client_step_inv [OF inv d] that cur world_invD(2) [OF inv] dial dial_session [of P io "w_client w" c s] nr
    by (auto simp: world_inv_def gate_ok_def holder_ok_def closed_ok_def)
qed

lemma stream_step_inv:
  assumes inv: "world_inv H w" and step: "stream_step P H w w'"
  shows "world_inv H w'"
  using step
proof (cases rule: stream_step.cases)
  case lifetime_ends
  then show ?thesis using lifetime_inv [OF inv] by simp
next
  case close_called
  then show ?thesis using environment_inv [OF inv] by simp
next
  case write_finishes
  then show ?thesis using environment_inv [OF inv] by simp
next
  case session_discarded
  then show ?thesis using environment_inv [OF inv] by simp
next
  case (frame_received u c)
  then show ?thesis
    using client_step_inv [OF inv, of c] inv_receive_frame [OF world_invD(1) [OF inv]] receive_frame_fixed by simp
next
  case (event_received e c)
  then show ?thesis
    using client_step_inv [OF inv, of c] inv_receive_event [OF world_invD(1) [OF inv]] receive_event_fixed by simp
next
  case next_called
  then show ?thesis using environment_inv [OF inv] by simp
next
  case gate_taken
  then show ?thesis using gate_taken_inv [OF inv] by simp
next
  case caller_begins
  then show ?thesis using begin_holder_inv [OF inv] by simp
next
  case caller_refused
  then show ?thesis using subscription_step_inv(1) [OF inv] by simp
next
  case restore_begins
  then show ?thesis using begin_holder_inv [OF inv] by simp
next
  case restore_refused
  then show ?thesis using subscription_step_inv(3) [OF inv] by simp
next
  case nothing_to_restore
  then show ?thesis using subscription_step_inv(2) [OF inv] by simp
next
  case subscription_unsent
  then show ?thesis using subscription_step_inv(4) [OF inv] by simp
next
  case subscription_answered
  then show ?thesis using subscription_step_inv(5) [OF inv] by simp
next
  case gate_released
  then show ?thesis using release_caller_inv [OF inv] by simp
next
  case restore_ends
  then show ?thesis using restore_ends_inv [OF inv] by simp
next
  case first_dial_fails
  then show ?thesis using dial_step_inv(1) [OF inv] by simp
next
  case first_dial
  then show ?thesis using dial_step_inv(2) [OF inv] by simp
next
  case first_install
  then show ?thesis using first_install_inv [OF inv] by simp
next
  case message_handled
  then show ?thesis using session_step_inv(1) [OF inv] by simp
next
  case reading_fails
  then show ?thesis using session_step_inv(2) [OF inv] by simp
next
  case session_ends
  then show ?thesis using session_step_inv(3) [OF inv] by simp
next
  case session_joined
  then show ?thesis using session_step_inv(4) [OF inv] by simp
next
  case loss_cancelled
  then show ?thesis using session_step_inv(5) [OF inv] by simp
next
  case loss_discarded
  then show ?thesis using session_step_inv(6) [OF inv] by simp
next
  case given_up
  then show ?thesis using retry_step_inv(1) [OF inv] by simp
next
  case retry_decided
  then show ?thesis using retry_step_inv(2) [OF inv] by simp
next
  case wait_cancelled
  then show ?thesis using retry_step_inv(3) [OF inv, of False] by simp
next
  case wait_elapsed
  then show ?thesis using retry_step_inv(4) [OF inv, of False] by simp
next
  case retry_at_once
  then show ?thesis using retry_step_inv(4) [OF inv, of True "w_delay w"] by simp
next
  case dial_final
  then show ?thesis using retry_step_inv(5) [OF inv] by simp
next
  case dial_fails
  then show ?thesis using retry_step_inv(6) [OF inv] by simp
next
  case dial_succeeds
  then show ?thesis using dial_step_inv(3) [OF inv] by simp
next
  case reserve_cancelled
  then show ?thesis using retry_step_inv(7) [OF inv] by simp
next
  case reserved
  then show ?thesis using reserved_inv [OF inv] by simp
next
  case installed
  then show ?thesis using installed_inv [OF inv] by simp
next
  case install_refused
  then show ?thesis using install_refused_inv [OF inv] by simp
next
  case run_ends
  then show ?thesis using run_ends_inv [OF inv] by simp
qed

lemma started_inv: "started w \<Longrightarrow> world_inv H w"
  by (auto simp: started_def start_maker_def unused_router_def start_router_def newClient_def new_router_state_def zero_status_def
      world_inv_def client_inv_def lifecycle_ok_def queues_ok_def delivery_ok_def pending_ok_def
      gate_ok_def holder_ok_def closed_ok_def capacities_ok_def)

interpretation stream: step_system started "stream_step P H" "world_inv H" for P H
  by unfold_locales (auto intro: started_inv stream_step_inv)

end
