(* ===== verification/Stream_Properties.thy ===== *)
theory Stream_Properties
  imports Stream_Safety
begin

text \<open>
  What holds of every world the streaming client can reach, and the behaviour of its single
  operations: acknowledgement, delivery, publishing, reading events, stale sessions and the errors
  of malformed messages. A small protobuf library and a run from dialing to a delivered frame show
  that the hypotheses can hold.
\<close>

abbreviation stream_steps :: "protolib \<Rightarrow> hexlib \<Rightarrow> stream_world \<Rightarrow> stream_world \<Rightarrow> bool" where
  "stream_steps P H \<equiv> (stream_step P H)\<^sup>*\<^sup>*"

lemma reached_client_inv: "started w0 \<Longrightarrow> stream_steps P H w0 w \<Longrightarrow> client_inv H (w_client w)"
  using stream.reached_inv world_invD(1) by blast

subsection \<open>Stopping is final\<close>

lemma step_evolves_stopped:
  assumes "stream_step P H w w'" "world_inv H w" "sc_stopped (w_client w)"
  shows "evolves (w_client w) (w_client w')"
  using assms(1)
proof (cases rule: stream_step.cases)
  case (lifetime_ends e)
  then show ?thesis using stopped_state(7) [OF world_invD(1) [OF assms(2)] assms(3)] by simp
next
  case (first_install s c ok)
  then show ?thesis using assms(3) by (auto simp: install_def intro: evolves_drop)
next
  case (installed s c)
  then show ?thesis using assms(3) by (simp add: install_def)
next
  case (install_refused s c)
  then show ?thesis using assms(3) by (auto simp: install_def)
next
  case (gate_taken c)
  then show ?thesis by (auto simp: take_gate_Some)
next
  case (reserved s c)
  then show ?thesis by (auto simp: run_reserve_def take_gate_Some split: option.splits)
next
  case (frame_received u c)
  then show ?thesis using receive_frame_fixed by simp
next
  case (event_received e c)
  then show ?thesis using receive_event_fixed by simp
next
  case (message_handled s r now io c)
  then show ?thesis using evolves_read_turn [of "w_client w" P H s r now io] by simp
next
  case (reading_fails s r now io c e)
  then show ?thesis using evolves_read_turn [of "w_client w" P H s r now io] by simp
next
  case (subscription_unsent u s p data io c e)
  then show ?thesis using answer_inv(1) [OF assms(2)] by simp
next
  case (subscription_answered u s p data wev c r)
  then show ?thesis using answer_inv(2) [OF assms(2)] by simp
next
  case (first_dial_fails io c e)
  then show ?thesis using evolves_dial [of "w_client w" P io] by (auto intro: evolves_drop)
next
  case (first_dial io c s)
  then show ?thesis using evolves_dial [of "w_client w" P io] by simp
next
  case (dial_final io c e)
  then show ?thesis using evolves_dial [of "w_client w" P io] by (simp add: evolves_emit)
next
  case (dial_fails io c e)
  then show ?thesis using evolves_dial [of "w_client w" P io] by simp
next
  case (dial_succeeds io c s)
  then show ?thesis using evolves_dial [of "w_client w" P io] by simp
next
  case caller_begins
  then show ?thesis by (simp add: evolves_sendSubscription_begin)
next
  case restore_begins
  then show ?thesis by (simp add: evolves_sendSubscription_begin)
qed (simp_all add: evolves_emit evolves_ops Next_fixed)

lemma steps_evolve_stopped:
  assumes "stream_steps P H w w'" "world_inv H w" "sc_stopped (w_client w)"
  shows "evolves (w_client w) (w_client w') \<and> sc_stopped (w_client w')"
  using assms
proof (induction rule: rtranclp_induct)
  case (step v v')
  then have "world_inv H v" using stream.steps_inv by blast
  with step have "evolves (w_client v) (w_client v')" by (intro step_evolves_stopped) auto
  with step show ?case using evolves_trans by (auto simp: evolves_def)
qed simp

subsection \<open>Every reachable world\<close>

lemma matches_exists:
  "matchesLocked H fs key \<longleftrightarrow> (\<exists>f\<in>set fs.
     (\<forall>k. pf_Pair f = Some k \<longrightarrow> pk_ChainId k = fk_ChainID key \<and> pk_PairId k = fk_PairID key) \<and>
     (pf_Maker f \<noteq> [] \<longrightarrow> HexToAddress H (pf_Maker f) = fk_Maker key))"
  by (induction H fs key rule: matchesLocked.induct) (auto split: option.splits)

text \<open>A run of the system used by the examples: dialing, installing, subscribing to everything,
  the acknowledgement and one frame. The library decodes one-byte messages.\<close>

definition toy_filter :: pair_filter where
  "toy_filter = \<lparr>pf_Pair = None, pf_Maker = [], pf_AllowPairGray = False, pf_AllowMakerGray = False, pf_unknown = []\<rparr>"

definition toy_frame :: market_frame where
  "toy_frame = \<lparr>mf_UpdatedAt = 7, mf_Pair = Some \<lparr>pk_ChainId = 1, pk_PairId = 2, pk_BaseToken = [], pk_QuoteToken = [],
     pk_unknown = []\<rparr>, mf_Bids = [], mf_Asks = [], mf_Frame = None, mf_MakerAddr = [],
     mf_Signature = replicate 64 1 @ [27], mf_unknown = []\<rparr>"

definition toy_router_message :: "bytes \<Rightarrow> string + router_envelope" where
  "toy_router_message data =
    (if data = [1] then Inr \<lparr>re_Type = RMT_CONNECTION_ACK, re_Timestamp = 0,
       re_Payload = RP_ConnectionAck \<lparr>ca_Success = True, ca_Identity = [], ca_ServerTime = 0, ca_unknown = []\<rparr>, re_unknown = []\<rparr>
     else if data = [2] then Inr \<lparr>re_Type = RMT_SUBSCRIBE_ACK, re_Timestamp = 0,
       re_Payload = RP_SubscribeAck \<lparr>sa_Results = [Some \<lparr>pr_Filter = None, pr_Ok = True, pr_Reason = [], pr_unknown = []\<rparr>],
         sa_unknown = []\<rparr>, re_unknown = []\<rparr>
     else if data = [3] then Inr \<lparr>re_Type = RMT_FRAME_UPDATE, re_Timestamp = 0, re_Payload = RP_Update toy_frame, re_unknown = []\<rparr>
     else Inl ''bad'')"

definition toy_proto :: protolib where
  "toy_proto = \<lparr>UnmarshalMaker = (\<lambda>_. Inl ''bad''), UnmarshalRouter = toy_router_message,
     SizeMaker = (\<lambda>_. 1), SizeRouter = (\<lambda>_. 1), MarshalMaker = (\<lambda>_. Inr [4]), MarshalRouter = (\<lambda>_. Inr [5])\<rparr>"

definition toy_hex :: hexlib where
  "toy_hex = \<lparr>IsHexAddress = (\<lambda>_. True), HexToAddress = (\<lambda>s. of_nat (length s))\<rparr>"

definition toy_dial :: dial_io where
  "toy_dial = \<lparr>dio_dialErr = None, dio_respStatus = None, dio_ctxErrDial = None, dio_read = Inr (True, [1]),
     dio_ctxErrRead = None, dio_now = 0\<rparr>"

definition toy_write :: write_io where
  "toy_write = \<lparr>wio_gate = GotGate, wio_callErr = None, wio_result = None, wio_callErrAfter = None, wio_callbackRan = False\<rparr>"

definition toy_start :: stream_world where
  "toy_start = start_router None default_router"

definition toy_dialed :: stream_world where
  "toy_dialed = toy_start\<lparr>w_client := fst (dial toy_proto toy_dial (w_client toy_start)), w_pc := PFirst 0\<rparr>"

definition toy_connected :: stream_world where
  "toy_connected = toy_dialed\<lparr>w_client := fst (install 0 (w_client toy_dialed)), w_pc := PSession 0\<rparr>"

definition toy_gated :: stream_world where
  "toy_gated = toy_connected\<lparr>w_client := the (take_gate (w_client toy_connected)), w_holder := Holding Caller\<rparr>"

definition toy_requested :: stream_world where
  "toy_requested = toy_gated\<lparr>w_client := begin_subscription 0 \<lparr>sq_filters = [toy_filter]\<rparr> (w_client toy_gated),
     w_holder := Waiting Caller 0 0 [5]\<rparr>"

definition toy_subscribed :: stream_world where
  "toy_subscribed = toy_requested\<lparr>w_client :=
     fst (read_turn toy_proto toy_hex 0 (Inr (True, [2])) 0 toy_write (w_client toy_requested))\<rparr>"

definition toy_delivered :: stream_world where
  "toy_delivered = toy_subscribed\<lparr>w_client :=
     fst (read_turn toy_proto toy_hex 0 (Inr (True, [3])) 0 toy_write (w_client toy_subscribed))\<rparr>"

lemmas toy_defs = toy_filter_def toy_frame_def toy_router_message_def toy_proto_def toy_hex_def toy_dial_def toy_write_def

lemma default_router_usable: "usable_router default_router"
  using normalizeRouter_Inr [OF zero_router_defaults] .

lemma toy_started: "started toy_start"
  using default_router_usable by (auto simp: started_def toy_start_def)

lemma toy_dial_result: "dial toy_proto toy_dial (w_client toy_start) =
    (fst (dial toy_proto toy_dial (w_client toy_start)), Inr 0)"
  by (simp add: dial_def dial_handshake_def connectionAck_def decode_def toy_defs reflect_defs toy_start_def start_router_def
      newClient_def Let_def re_GetConnectionAck_def)

lemma toy_install_result: "snd (install 0 (w_client toy_dialed))"
  by code_simp

lemma toy_gate_result: "take_gate (w_client toy_connected) \<noteq> None \<and> \<not> sc_maker (w_client toy_connected)"
  by code_simp

lemma toy_request_result:
  "\<not> sc_stopped (w_client toy_gated) \<and> sc_current (w_client toy_gated) = Some 0 \<and> \<not> session_done 0 (w_client toy_gated) \<and>
   sc_nextReply (w_client toy_gated) = 0 \<and> 1 \<le> cc_MaxWriteMessageBytes (sc_cfg (w_client toy_gated)) \<and>
   rtc_MaxSubscribeFilters (rt_cfg (sc_router (w_client toy_gated))) = 100"
  by code_simp

lemma toy_ack_result: "snd (read_turn toy_proto toy_hex 0 (Inr (True, [2])) 0 toy_write (w_client toy_requested)) = None"
  by code_simp

lemma toy_update_result: "snd (read_turn toy_proto toy_hex 0 (Inr (True, [3])) 0 toy_write (w_client toy_subscribed)) = None"
  by code_simp

lemma toy_queue: "map fu_SubscriptionRevision (gc_buf (rt_frames (sc_router (w_client toy_delivered)))) = [1]"
  by code_simp

lemma toy_run_start: "stream_steps toy_proto toy_hex toy_start toy_connected"
proof -
  have "w_pc toy_start = PStart" "w_pc toy_dialed = PFirst 0"
    by (simp_all add: toy_start_def start_router_def toy_dialed_def)
  then have "stream_step toy_proto toy_hex toy_start toy_dialed"
    unfolding toy_dialed_def by (intro stream_step.first_dial [OF _ toy_dial_result])
  moreover have "install 0 (w_client toy_dialed) = (fst (install 0 (w_client toy_dialed)), True)"
    using toy_install_result by (metis prod.collapse)
  then have "stream_step toy_proto toy_hex toy_dialed toy_connected"
    using stream_step.first_install [of toy_dialed 0 _ True] \<open>w_pc toy_dialed = PFirst 0\<close> by (simp add: toy_connected_def)
  ultimately show ?thesis by (meson converse_rtranclp_into_rtranclp r_into_rtranclp)
qed

lemma toy_run_request: "stream_steps toy_proto toy_hex toy_connected toy_requested"
proof -
  have take: "take_gate (w_client toy_connected) = Some (the (take_gate (w_client toy_connected)))"
    using toy_gate_result by simp
  have "stream_step toy_proto toy_hex toy_connected toy_gated"
    unfolding toy_gated_def using toy_gate_result by (intro stream_step.gate_taken [OF _ take]) simp
  moreover have holder: "w_holder toy_gated = Holding Caller"
    by (simp add: toy_gated_def)
  have request: "Subscribe_request toy_hex (w_client toy_gated) [Some toy_filter] = Inr \<lparr>sq_filters = [toy_filter]\<rparr>"
    using toy_request_result
    by (simp add: Subscribe_request_def validateSubscriptionFilters_def cloneFilters_def reflect_defs message_field_def toy_defs)
  have sent: "sendSubscription_begin toy_proto 0 \<lparr>sq_filters = [toy_filter]\<rparr> 0 toy_write (w_client toy_gated) =
      Inr ([5], begin_subscription 0 \<lparr>sq_filters = [toy_filter]\<rparr> (w_client toy_gated))"
    using toy_request_result
    by (simp add: sendSubscription_begin_def marshal_def subscribe_envelope_def reflect_defs list_field_def
        message_field_def toy_defs write_begin_def)
  have "stream_step toy_proto toy_hex toy_gated toy_requested"
    using stream_step.caller_begins [OF holder request sent] toy_request_result by (simp add: toy_requested_def)
  ultimately show ?thesis by (meson converse_rtranclp_into_rtranclp r_into_rtranclp)
qed

lemma pair_of_snd: "snd p = y \<Longrightarrow> p = (fst p, y)"
  by (cases p) simp

lemma toy_run_deliver: "stream_steps toy_proto toy_hex toy_requested toy_delivered"
proof -
  have pc: "w_pc toy_requested = PSession 0" "w_pc toy_subscribed = PSession 0"
    by (simp_all add: toy_subscribed_def toy_requested_def toy_gated_def toy_connected_def)
  have "stream_step toy_proto toy_hex toy_requested toy_subscribed"
    unfolding toy_subscribed_def
    by (rule stream_step.message_handled [OF pc(1) pair_of_snd [OF toy_ack_result]])
  moreover have "stream_step toy_proto toy_hex toy_subscribed toy_delivered"
    unfolding toy_delivered_def
    by (rule stream_step.message_handled [OF pc(2) pair_of_snd [OF toy_update_result]])
  ultimately show ?thesis by (meson converse_rtranclp_into_rtranclp r_into_rtranclp)
qed

lemma toy_run: "stream_steps toy_proto toy_hex toy_start toy_delivered"
  using toy_run_start toy_run_request toy_run_deliver by (meson rtranclp_trans)

text \<open>C5: In every world the streaming client can reach, under any interleaving of its goroutines,
  its callers and the network: no channel is sent on after it was closed, closed twice, or drained
  after closing, no reply or gate send blocks while the mutex is held, the subscription gate is
  free exactly when nobody owns it, and the queues stay within their configured sizes.\<close>

theorem stream_never_faults:
  assumes "started w0" "stream_steps P H w0 w" "c = w_client w"
  shows "sc_fault c = None \<and>
    (gc_buf (rt_subscribeGate (sc_router c)) = [()] \<longleftrightarrow> w_holder w = Free) \<and>
    length (gc_buf (sc_makerEvents c)) \<le> nat (cc_EventBufferSize (sc_cfg c)) \<and>
    length (gc_buf (sc_routerEvents c)) \<le> nat (cc_EventBufferSize (sc_cfg c)) \<and>
    length (gc_buf (rt_frames (sc_router c))) \<le> nat (rtc_FrameBufferSize (rt_cfg (sc_router c)))"
proof -
  have inv: "world_inv H w" using stream.reached_inv [OF assms(1,2)] .
  then have "queues_ok c" "lifecycle_ok c" "capacities_ok c" "gate_ok w"
    by (simp_all add: world_inv_def client_inv_def closed_ok_def assms(3))
  then show ?thesis
    by (auto simp: queues_ok_def lifecycle_ok_def capacities_ok_def gate_ok_def assms(3) split: if_splits)
qed

theorem stream_never_faults_witness:
  "sc_fault (w_client toy_delivered) = None \<and> length (gc_buf (rt_frames (sc_router (w_client toy_delivered)))) \<le>
    nat (rtc_FrameBufferSize (rt_cfg (sc_router (w_client toy_delivered))))"
  using stream_never_faults [OF toy_started toy_run refl] by blast

lemma receive_frame_current:
  assumes "started w0" "stream_steps P H w0 w" "receive_frame (w_client w) = Some (u, c)"
  shows "fu_Generation u = st_Generation (Status (w_client w)) \<and>
    fu_SubscriptionRevision u = st_SubscriptionRevision (Status (w_client w)) \<and>
    st_Phase (Status (w_client w)) = Connected \<and> rt_ready (sc_router (w_client w)) \<and>
    (\<exists>q f. rt_saved (sc_router (w_client w)) = Some q \<and> f \<in> set (sq_filters q) \<and> matchesLocked H [f] (fu_Key u))"
proof -
  have inv: "client_inv H (w_client w)" using reached_client_inv [OF assms(1,2)] .
  have cur: "frame_current H (w_client w) u" using inv_receive_frame [OF inv assms(3)] by simp
  have "gc_buf (rt_frames (sc_router (w_client w))) \<noteq> []"
    using assms(3) by (auto simp: receive_frame_def split: option.splits)
  then have ready: "rt_ready (sc_router (w_client w))" "st_Phase (sc_status (w_client w)) = Connected"
    using inv by (auto simp: client_inv_def delivery_ok_def lifecycle_ok_def)
  obtain f where f: "f \<in> set (rt_accepted (sc_router (w_client w)))" "matchesLocked H [f] (fu_Key u)"
    using cur by (auto simp: frame_current_def matches_exists)
  have "f \<in> saved_filters (w_client w)"
    using inv f(1) by (auto simp: client_inv_def delivery_ok_def)
  then obtain q where "rt_saved (sc_router (w_client w)) = Some q" "f \<in> set (sq_filters q)"
    by (auto simp: saved_filters_def split: option.splits)
  with f(2) have "\<exists>q f. rt_saved (sc_router (w_client w)) = Some q \<and> f \<in> set (sq_filters q) \<and> matchesLocked H [f] (fu_Key u)"
    by blast
  then show ?thesis
    using cur ready unfolding frame_current_def Status_def by blast
qed

text \<open>C2: A frame that a router's caller receives belongs to the connection and the subscription
  that are current at that moment: its generation and revision are the ones Status reports, the
  client is connected and acknowledged, and its key satisfies a filter of the complete request that
  was last sent.\<close>

theorem received_frame_current:
  assumes "started w0" "stream_steps P H w0 w" "receive_frame (w_client w) = Some (u, c)"
  shows "fu_Generation u = st_Generation (Status (w_client w)) \<and>
    fu_SubscriptionRevision u = st_SubscriptionRevision (Status (w_client w)) \<and>
    st_Phase (Status (w_client w)) = Connected \<and> rt_ready (sc_router (w_client w)) \<and>
    (\<exists>q f. rt_saved (sc_router (w_client w)) = Some q \<and> f \<in> set (sq_filters q) \<and> matchesLocked H [f] (fu_Key u))"
  by (rule receive_frame_current [OF assms])

theorem received_frame_current_witness:
  "\<exists>u c. receive_frame (w_client toy_delivered) = Some (u, c) \<and> fu_SubscriptionRevision u = 1 \<and>
    st_SubscriptionRevision (Status (w_client toy_delivered)) = 1"
proof -
  obtain u where u: "gc_buf (rt_frames (sc_router (w_client toy_delivered))) = [u]" "fu_SubscriptionRevision u = 1"
    using toy_queue by (auto simp: map_eq_Cons_conv)
  then obtain c where "receive_frame (w_client toy_delivered) = Some (u, c)"
    by (auto simp: receive_frame_def chan_get_def)
  with received_frame_current [OF toy_started toy_run this] u(2) show ?thesis by metis
qed

text \<open>C11: Once a client has stopped, whatever happens afterwards it stays stopped with the same
  terminal error, without a connection, generation or revision change, pending request or queued
  frame.\<close>

theorem stop_is_final:
  assumes "started w0" "stream_steps P H w0 w" "sc_stopped (w_client w)" "stream_steps P H w w'"
  shows "sc_stopped (w_client w') \<and> Err (w_client w') = Err (w_client w) \<and>
    st_Phase (Status (w_client w')) = Stopped \<and> sc_current (w_client w') = None \<and>
    st_Generation (Status (w_client w')) = st_Generation (Status (w_client w)) \<and>
    st_SubscriptionRevision (Status (w_client w')) = st_SubscriptionRevision (Status (w_client w)) \<and>
    rt_pending (sc_router (w_client w')) = None \<and> gc_buf (rt_frames (sc_router (w_client w'))) = []"
proof -
  have inv: "world_inv H w" using stream.reached_inv [OF assms(1,2)] .
  have e: "evolves (w_client w) (w_client w')" and s: "sc_stopped (w_client w')"
    using steps_evolve_stopped [OF assms(4) inv assms(3)] by simp_all
  have inv': "client_inv H (w_client w')"
    using stream.steps_inv [OF assms(4) inv] world_invD(1) by blast
  show ?thesis
    using e s assms(3) stopped_state [OF inv' s] by (simp add: evolves_def Err_def Status_def)
qed

definition toy_stopped :: stream_world where
  "toy_stopped = toy_delivered\<lparr>w_client := stop None (w_client toy_delivered)\<rparr>"

lemma toy_run_stopped: "stream_steps toy_proto toy_hex toy_start toy_stopped"
  using toy_run stream_step.close_called [of toy_proto toy_hex toy_delivered]
  by (simp add: toy_stopped_def rtranclp.rtrancl_into_rtrancl)

lemma toy_stopped_stopped: "sc_stopped (w_client toy_stopped)"
  using stopLocked_stopped [OF reached_client_inv [OF toy_started toy_run]] by (simp add: toy_stopped_def stop_def)

theorem stop_is_final_witness:
  "gc_buf (rt_frames (sc_router (w_client toy_delivered))) \<noteq> [] \<and> gc_buf (rt_frames (sc_router (w_client toy_stopped))) = []"
  using stop_is_final [OF toy_started toy_run_stopped toy_stopped_stopped rtranclp.rtrancl_refl] toy_queue by auto

end
