(* ===== verification/Stream_Behaviour.thy ===== *)
theory Stream_Behaviour
  imports Stream_Properties
begin

text \<open>
  Single operations of the streaming client in detail: what an acknowledgement accepts, what the
  outcome of a publish says about the write, how events are drained after the end, that work of an
  old session cannot touch a newer one, and that a stopped client's goroutines can always finish.
\<close>

subsection \<open>Acknowledgements\<close>

text \<open>The results and filters an acknowledgement stands for.\<close>

definition ack_results :: "pair_filter_result option list \<Rightarrow> pair_filter list \<Rightarrow> nat \<Rightarrow> subscription_item_result list" where
  "ack_results items fs i = map (\<lambda>(k, item, f). \<lparr>si_Index = k, si_Filter = f, si_Accepted = pr_Ok (the item),
     si_Reason = pr_Reason (the item)\<rparr>) (zip [i..<i + length items] (zip items fs))"

definition ack_filters :: "pair_filter_result option list \<Rightarrow> pair_filter list \<Rightarrow> pair_filter list" where
  "ack_filters items fs = map snd (filter (\<lambda>(item, f). pr_Ok (the item)) (zip items fs))"

lemma ack_items_exact:
  assumes "length items = length fs"
  shows "ack_items i items fs =
    (if None \<in> set items then Inl (protocol_error ''missing filter result'')
     else Inr (ack_results items fs i, ack_filters items fs))"
  using assms
proof (induction items fs arbitrary: i rule: list_induct2)
  case Nil
  then show ?case by (simp add: ack_results_def ack_filters_def)
next
  case (Cons item items f fs)
  then show ?case
    by (cases item) (simp_all add: ack_results_def ack_filters_def upt_conv_Cons del: upt_Suc)
qed

lemma emitRouter_room:
  assumes "client_inv H c" "\<not> sc_stopped c" "length (gc_buf (sc_routerEvents c)) < gc_cap (sc_routerEvents c)"
  shows "emitRouterLocked e c = c\<lparr>sc_routerEvents := (sc_routerEvents c)\<lparr>gc_buf := gc_buf (sc_routerEvents c) @ [e]\<rparr>\<rparr>"
  using assms open_when_running(2) [OF assms(1,2)] by (simp add: emitRouterLocked_def send_router_def chan_put_def)

text \<open>C17: For the pending request of the current session, and room for its event, an acknowledgement
  with one result per filter makes the client ready with exactly the filters the server accepted, in
  order, and hands the caller one result per filter in request order with the current generation and
  revision; an acknowledgement with another number of results or a missing one changes nothing and
  is a terminal error.\<close>

theorem ack_exact:
  assumes inv: "client_inv H c" and cur: "sc_current c = Some s"
    and pend: "rt_pending (sc_router c) = Some p"
    and room: "length (gc_buf (sc_routerEvents c)) < gc_cap (sc_routerEvents c)"
    and res: "ack s a c = (c', err)" and items: "items = sa_Results a" and fs: "fs = sq_filters (ps_request p)"
  shows "if length items = length fs \<and> None \<notin> set items
    then err = None \<and> rt_ready (sc_router c') \<and> rt_accepted (sc_router c') = ack_filters items fs \<and>
      rt_pending (sc_router c') = None \<and>
      gc_buf (sc_replies c' (ps_reply p)) = [\<lparr>reply_result = \<lparr>sub_Kind = Replace,
        sub_Generation = st_Generation (sc_status c), sub_SubscriptionRevision = st_SubscriptionRevision (sc_status c),
        sub_Results = ack_results items fs 0\<rparr>, reply_err = None\<rparr>]
    else c' = c \<and> (\<exists>e. err = Some e \<and> terminalError e)"
proof -
  have p: "ps_session p = s" "ps_revision p = st_SubscriptionRevision (sc_status c)"
      "gc_buf (sc_replies c (ps_reply p)) = []" "gc_cap (sc_replies c (ps_reply p)) = 1"
    using inv cur pend by (auto simp: client_inv_def pending_ok_def)
  have run: "\<not> sc_stopped c" and gen: "sn_generation (sc_sessions c s) = st_Generation (sc_status c)"
    using inv cur by (auto simp: client_inv_def lifecycle_ok_def)
  show ?thesis
  proof (cases "length items = length fs \<and> None \<notin> set items")
    case False
    then show ?thesis
      using res cur run pend p(1) items fs ack_items_exact [of items fs 0]
      by (cases "length items = length fs") (auto simp: ack_def)
  next
    case True
    then have ok: "ack_items 0 items fs = Inr (ack_results items fs 0, ack_filters items fs)"
      using ack_items_exact by simp
    have "\<not> gc_closed (sc_routerEvents c)" using open_when_running(2) [OF inv run] .
    then show ?thesis
      using res cur run pend p room True ok gen items fs
      by (auto simp: ack_def Let_def emitRouterLocked_def send_router_def chan_put_def send_reply_def signalLocked_def)
  qed
qed

lemma toy_requested_facts:
  "sc_current (w_client toy_requested) = Some 0 \<and>
   length (gc_buf (sc_routerEvents (w_client toy_requested))) < gc_cap (sc_routerEvents (w_client toy_requested)) \<and>
   rt_pending (sc_router (w_client toy_requested)) = Some \<lparr>ps_request = \<lparr>sq_filters = [toy_filter]\<rparr>, ps_session = 0,
     ps_revision = 1, ps_reply = 0\<rparr>"
  by code_simp

definition toy_ack :: "bool \<Rightarrow> subscribe_ack" where
  "toy_ack ok = \<lparr>sa_Results = [Some \<lparr>pr_Filter = None, pr_Ok = ok, pr_Reason = ''no'', pr_unknown = []\<rparr>], sa_unknown = []\<rparr>"

theorem ack_exact_witness:
  "rt_accepted (sc_router (fst (ack 0 (toy_ack True) (w_client toy_requested)))) = [toy_filter] \<and>
   snd (ack 0 (toy_ack True) (w_client toy_requested)) = None"
proof -
  have inv: "client_inv toy_hex (w_client toy_requested)"
    using reached_client_inv [OF toy_started rtranclp_trans [OF toy_run_start toy_run_request]] .
  have "ack_filters (sa_Results (toy_ack True)) [toy_filter] = [toy_filter]"
    by (simp add: ack_filters_def toy_ack_def)
  then show ?thesis
    using ack_exact [OF inv _ _ _ prod.collapse [symmetric] refl refl, of 0 _ "toy_ack True"] toy_requested_facts
    by (simp add: toy_ack_def)
qed

subsection \<open>Publishing\<close>

lemma write_message_outcome:
  assumes "write_message s data id io c = (c', st, err)"
  shows "\<not> st \<Longrightarrow> c' = c \<and> err \<noteq> None"
    and "st \<Longrightarrow> \<not> sc_stopped c \<and> sc_current c = Some s \<and> int (length data) \<le> cc_MaxWriteMessageBytes (sc_cfg c) \<and>
      (if err = None then c' = count_sent data c else sc_current c' \<noteq> Some s)"
proof -
  show "c' = c \<and> err \<noteq> None" if "\<not> st"
    using assms that by (auto simp: write_message_def split: sum.splits prod.splits)
  assume st
  with assms obtain c1 where "write_begin s data id io c = Inr c1" "write_end s data io c1 = (c', err)"
    by (auto simp: write_message_def split: sum.splits prod.splits)
  then have w: "\<not> sc_stopped c" "sc_current c = Some s" "int (length data) \<le> cc_MaxWriteMessageBytes (sc_cfg c)"
      "write_end s data io c = (c', err)"
    by (auto simp: write_begin_Inr)
  moreover have "if err = None then c' = count_sent data c else sc_current c' \<noteq> Some s"
    using w(4) discard_not_current by (auto simp: write_end_def Let_def split: option.splits)
  ultimately show "\<not> sc_stopped c \<and> sc_current c = Some s \<and> int (length data) \<le> cc_MaxWriteMessageBytes (sc_cfg c) \<and>
      (if err = None then c' = count_sent data c else sc_current c' \<noteq> Some s)" by simp
qed

lemma Publish_outcome:
  "case Publish P ctxErr value now io c of
     (c', None) \<Rightarrow> (\<exists>m s data. value = Some m \<and> length (mf_Signature m) = 65 \<and> mf_Signature m ! 64 \<in> {27, 28} \<and>
        marshal_maker P (sc_cfg c) (publish_envelope m now) = Inr data \<and> sc_current c = Some s \<and> \<not> sc_stopped c \<and>
        int (length data) \<le> cc_MaxWriteMessageBytes (sc_cfg c) \<and>
        write_message s data id io c = (c', True, None) \<and> c' = count_sent data c)
   | (c', Some e) \<Rightarrow> (case pube_Outcome e of
        NotSent \<Rightarrow> c' = c
      | Unknown \<Rightarrow> (\<exists>m s data. value = Some m \<and> sc_current c = Some s \<and> sc_current c' \<noteq> Some s \<and>
          write_message s data id io c = (c', True, Some (pube_Err e))))"
  (is "case ?p of (c', None) \<Rightarrow> ?ok c' | (c', Some e) \<Rightarrow> ?failed c' e")
proof (cases "\<exists>m s data. value = Some m \<and> ctxErr = None \<and> length (mf_Signature m) = 65 \<and> mf_Signature m ! 64 \<in> {27, 28} \<and>
    marshal_maker P (sc_cfg c) (publish_envelope m now) = Inr data \<and> sc_current c = Some s \<and> \<not> sc_stopped c")
  case True
  then obtain m s data where ok: "value = Some m" "ctxErr = None" "length (mf_Signature m) = 65"
      "mf_Signature m ! 64 = 27 \<or> mf_Signature m ! 64 = 28"
      "marshal_maker P (sc_cfg c) (publish_envelope m now) = Inr data" "sc_current c = Some s" "\<not> sc_stopped c"
    by blast
  obtain c' st err where w: "write_message s data id io c = (c', st, err)" by (metis prod_cases3)
  note o = write_message_outcome [OF w]
  show ?thesis
    using ok w o by (cases err; cases st) (auto simp: Publish_def publish_failure_def)
next
  case False
  then have "\<exists>e. ?p = (c, Some (publish_failure NotSent e))"
    by (auto simp: Publish_def Let_def split: option.splits sum.splits)
  then show ?thesis by (auto simp: publish_failure_def)
qed

text \<open>Publish reports honestly what happened to the frame. Success means the marshaled envelope
  of exactly this frame, with a 65-byte signature of recovery id 27 or 28 and within the size limit,
  was handed to the current session's socket and counted once. NotSent means no write was attempted
  and the state is untouched. Unknown means a write was attempted, and that session is no longer
  current.\<close>

theorem publish_outcome_honest:
  "case Publish P ctxErr value now io c of
     (c', None) \<Rightarrow> (\<exists>m s data. value = Some m \<and> length (mf_Signature m) = 65 \<and> mf_Signature m ! 64 \<in> {27, 28} \<and>
        marshal_maker P (sc_cfg c) (publish_envelope m now) = Inr data \<and> sc_current c = Some s \<and> \<not> sc_stopped c \<and>
        int (length data) \<le> cc_MaxWriteMessageBytes (sc_cfg c) \<and>
        write_message s data id io c = (c', True, None) \<and> c' = count_sent data c)
   | (c', Some e) \<Rightarrow> (case pube_Outcome e of
        NotSent \<Rightarrow> c' = c
      | Unknown \<Rightarrow> (\<exists>m s data. value = Some m \<and> sc_current c = Some s \<and> sc_current c' \<noteq> Some s \<and>
          write_message s data id io c = (c', True, Some (pube_Err e))))"
  by (rule Publish_outcome)

subsection \<open>Reading events after the end\<close>

fun next_results :: "nat \<Rightarrow> stream_client \<Rightarrow> (stream_error + maker_event) list" where
  "next_results 0 c = []"
| "next_results (Suc n) c = (case Next None c of (c', Some r) \<Rightarrow> r # next_results n c' | (c', None) \<Rightarrow> [])"

text \<open>After the run loop has closed the event channel, repeated calls of Next return every
  buffered event in the order of emission and then, for good, the terminal error, or io.EOF when the
  client was closed cleanly.\<close>

theorem next_drains_then_ends:
  assumes "gc_closed (sc_makerEvents c)"
  shows "next_results (length (gc_buf (sc_makerEvents c)) + n) c =
    map Inr (gc_buf (sc_makerEvents c)) @ replicate n (Inl (case Err c of Some e \<Rightarrow> e | None \<Rightarrow> EOF))"
proof -
  have ended: "next_results n c = replicate n (Inl (case Err c of Some e \<Rightarrow> e | None \<Rightarrow> EOF))"
    if "gc_buf (sc_makerEvents c) = []" "gc_closed (sc_makerEvents c)" for c :: stream_client
    using that by (induction n) (simp_all add: Next_def chan_get_def)
  show ?thesis
    using assms
  proof (induction "gc_buf (sc_makerEvents c)" arbitrary: c)
    case Nil
    then show ?case using ended [of c] by simp
  next
    case (Cons e es)
    let ?c = "c\<lparr>sc_makerEvents := (sc_makerEvents c)\<lparr>gc_buf := es\<rparr>\<rparr>"
    have "Next None c = (?c, Some (Inr e))"
      using Cons(2) [symmetric] by (simp add: Next_def chan_get_def)
    then show ?case
      using Cons(1) [of ?c] Cons(2) [symmetric] Cons(3) by (simp add: Err_def)
  qed
qed

definition toy_ended :: stream_client where
  "toy_ended = run_finish (stop (Some ErrProtocol) (newClient None default_connection True (new_router_state default_router)))"

theorem next_drains_then_ends_witness:
  "map (\<lambda>r. case r of Inl e \<Rightarrow> Some e | Inr _ \<Rightarrow> None) (next_results (1 + 2) toy_ended) = [None, Some ErrProtocol, Some ErrProtocol]"
proof -
  have t: "gc_closed (sc_makerEvents toy_ended)" "length (gc_buf (sc_makerEvents toy_ended)) = 1" "Err toy_ended = Some ErrProtocol"
    by code_simp+
  have "map (\<lambda>r. case r of Inl e \<Rightarrow> Some e | Inr _ \<Rightarrow> None) (map Inr es) = [None :: stream_error option]"
    if "length es = 1" for es :: "maker_event list"
    using that by (cases es) auto
  with next_drains_then_ends [OF t(1), of 2] t(2,3) show ?thesis by (simp add: numeral_2_eq_2)
qed

subsection \<open>Old sessions\<close>

text \<open>A failure reported for a session that is not the current one records its cause and closes
  that session, and changes nothing else: neither the newer connection, nor the status, nor the
  subscription, nor a queue.\<close>

theorem stale_discard_isolated:
  assumes "sc_current c \<noteq> Some s"
  shows "discard s e c = c\<lparr>sc_sessions := (sc_sessions c)(s := (sc_sessions c s)\<lparr>
      sn_failure := Some (case sn_failure (sc_sessions c s) of Some f \<Rightarrow> f | None \<Rightarrow> e),
      sn_cancelled := True, sn_connClosed := True\<rparr>)\<rparr>"
  using assms
  by (cases "sc_sessions c s"; cases "sn_failure (sc_sessions c s)")
    (simp_all add: discard_def note_failure_def close_session_def upd_session_def Let_def)

theorem stale_discard_isolated_witness:
  "sc_current (w_client toy_delivered) = Some 0 \<and>
   sc_router (discard 5 ErrDisconnected (w_client toy_delivered)) = sc_router (w_client toy_delivered)"
proof -
  have "sc_current (w_client toy_delivered) = Some 0" by code_simp
  with stale_discard_isolated [of "w_client toy_delivered" 5 ErrDisconnected] show ?thesis by simp
qed

subsection \<open>A stopped client finishes\<close>

text \<open>From a stopped world, the remaining steps of each position of \<open>run\<close>.\<close>

lemma stopped_restorer_leaves:
  assumes inv: "world_inv H w" and stopped: "sc_stopped (w_client w)"
  shows "\<exists>w'. stream_steps P H w w' \<and> holder_user (w_holder w') \<noteq> Some Restorer \<and> w_pc w' = w_pc w"
proof (cases "holder_user (w_holder w) = Some Restorer")
  case False
  then show ?thesis by blast
next
  case True
  have fin: "\<exists>w'. stream_steps P H v w' \<and> holder_user (w_holder w') \<noteq> Some Restorer \<and> w_pc w' = w_pc v"
    if "w_holder v = Finishing Restorer" for v
    using stream_step.restore_ends [OF that, of P H]
    by (intro exI [of _ "v\<lparr>w_client := restore_end (w_client v), w_holder := Free\<rparr>"]) auto
  have "\<exists>v. stream_step P H w v \<and> w_holder v = Finishing Restorer \<and> w_pc v = w_pc w" if "w_holder w \<noteq> Finishing Restorer"
  proof -
    from True that consider "w_holder w = Holding Restorer" | s p d where "w_holder w = Waiting Restorer s p d"
      by (cases "w_holder w") auto
    then show ?thesis
    proof cases
      case 1
      obtain s where s: "pc_session (w_pc w) = Some s"
        using world_invD(4) [OF inv] 1 by (auto simp: holder_ok_def)
      show ?thesis
      proof (cases "rt_saved (sc_router (w_client w))")
        case None
        then show ?thesis using stream_step.nothing_to_restore [OF 1 None] by fastforce
      next
        case (Some q)
        obtain e where "sendSubscription_begin P s q 0 toy_write (w_client w) = Inl e"
          using stopped by (cases "sendSubscription_begin P s q 0 toy_write (w_client w)")
            (auto simp: sendSubscription_begin_def attempt_Inr write_begin_Inr)
        from stream_step.restore_refused [OF 1 s Some this] show ?thesis by fastforce
      qed
    next
      case (2 s p d)
      have "session_done s (w_client w)"
        using stopped_state(7) [OF world_invD(1) [OF inv] stopped] by (simp add: session_done_def)
      then show ?thesis
        using stream_step.subscription_answered [OF 2 _ prod.collapse [symmetric], of WaitSessionDone] by fastforce
    qed
  qed
  then show ?thesis
    using fin by (metis converse_rtranclp_into_rtranclp)
qed

lemma stopped_closing: "w_pc w = PClosing \<Longrightarrow> \<exists>w'. stream_steps P H w w' \<and> w_pc w' = PDone"
  by (rule exI [of _ "w\<lparr>w_client := run_finish (w_client w), w_pc := PDone\<rparr>"])
    (simp add: r_into_rtranclp stream_step.run_ends)

lemma to_closing: "stream_step P H w v \<Longrightarrow> w_pc v = PClosing \<Longrightarrow> \<exists>w'. stream_steps P H w w' \<and> w_pc w' = PDone"
  using stopped_closing [of v P H] by (meson converse_rtranclp_into_rtranclp)

lemma stopped_ended:
  assumes inv: "world_inv H w" and stopped: "sc_stopped (w_client w)" and pc: "w_pc w = PEnded s e"
  shows "\<exists>w'. stream_steps P H w w' \<and> w_pc w' = PDone"
proof -
  obtain v where v: "stream_steps P H w v" "holder_user (w_holder v) \<noteq> Some Restorer" "w_pc v = PEnded s e"
    using stopped_restorer_leaves [OF inv stopped, of P] pc by auto
  have "sc_stopped (w_client v)" using steps_evolve_stopped [OF v(1) inv stopped] by simp
  then have "\<exists>w'. stream_steps P H v w' \<and> w_pc w' = PDone"
    using to_closing [OF stream_step.session_joined [OF v(3,2)]] by simp
  then show ?thesis using v(1) by (meson rtranclp_trans)
qed

lemma stopped_returning:
  assumes inv: "world_inv H w" and stopped: "sc_stopped (w_client w)" and pc: "w_pc w = PReturning s e"
  shows "\<exists>w'. stream_steps P H w w' \<and> w_pc w' = PDone"
proof -
  let ?v = "w\<lparr>w_client := end_session s e (w_client w), w_pc := PEnded s e\<rparr>"
  have step: "stream_step P H w ?v" using stream_step.session_ends [OF pc] .
  have "world_inv H ?v" "sc_stopped (w_client ?v)"
    using stream_step_inv [OF inv step] step_evolves_stopped [OF step inv stopped] stopped by (simp_all add: evolves_def)
  then have "\<exists>w'. stream_steps P H ?v w' \<and> w_pc w' = PDone" using stopped_ended by simp
  then show ?thesis using step by (meson converse_rtranclp_into_rtranclp)
qed

lemma stopped_session:
  assumes inv: "world_inv H w" and stopped: "sc_stopped (w_client w)" and pc: "w_pc w = PSession s"
  shows "\<exists>w'. stream_steps P H w w' \<and> w_pc w' = PDone"
proof -
  let ?v = "w\<lparr>w_client := w_client w, w_pc := PReturning s (NetError [])\<rparr>"
  have "read_turn P H s (Inl (NetError [])) 0 toy_write (w_client w) = (w_client w, Some (NetError []))"
    by (simp add: read_turn_def classifyReadError_def)
  then have step: "stream_step P H w ?v" by (rule stream_step.reading_fails [OF pc])
  have "world_inv H ?v" using stream_step_inv [OF inv step] .
  then have "\<exists>w'. stream_steps P H ?v w' \<and> w_pc w' = PDone" using stopped_returning stopped by simp
  then show ?thesis using step by (meson converse_rtranclp_into_rtranclp)
qed

text \<open>A dial attempt under a cancelled context fails with the context's error.\<close>

definition cancelled_dial :: dial_io where
  "cancelled_dial = \<lparr>dio_dialErr = Some (ContextError Canceled), dio_respStatus = None, dio_ctxErrDial = Some Canceled,
     dio_read = Inl (NetError []), dio_ctxErrRead = Some Canceled, dio_now = 0\<rparr>"

lemma stopped_dial:
  assumes "w_pc w = PDial" "sc_ctxErr (w_client w) \<noteq> None"
  shows "\<exists>w'. stream_steps P H w w' \<and> w_pc w' = PDone"
proof -
  have d: "dial P cancelled_dial (w_client w) = (w_client w, Inl (ContextError Canceled))"
    by (simp add: dial_def dial_handshake_def cancelled_dial_def)
  have t: "\<not> terminalError (ContextError Canceled)" by (simp add: terminalError_def)
  show ?thesis
    using to_closing [OF stream_step.dial_fails [OF assms(1) d t]] assms(2) by simp
qed

lemma stopped_retry:
  assumes "w_pc w = PRetry b" "sc_ctxErr (w_client w) \<noteq> None"
  shows "\<exists>w'. stream_steps P H w w' \<and> w_pc w' = PDone"
proof (cases b)
  case True
  then have step: "stream_step P H w (w\<lparr>w_client := count_attempt (w_client w), w_pc := PDial\<rparr>)" (is "stream_step P H w ?v")
    using stream_step.retry_at_once assms(1) by simp
  have "\<exists>w'. stream_steps P H ?v w' \<and> w_pc w' = PDone"
    by (rule stopped_dial) (use assms(2) in \<open>simp_all add: count_attempt_def\<close>)
  then show ?thesis using step by (meson converse_rtranclp_into_rtranclp)
next
  case False
  then show ?thesis using to_closing [OF stream_step.wait_cancelled] assms by simp
qed

lemma stopped_discarded:
  assumes pc: "w_pc w = PDiscarded s e" and ctx: "sc_ctxErr (w_client w) \<noteq> None"
  shows "\<exists>w'. stream_steps P H w w' \<and> w_pc w' = PDone"
proof (cases "gives_up (cc_Reconnect (sc_cfg (w_client w))) e")
  case True
  then show ?thesis using to_closing [OF stream_step.given_up [OF pc]] by simp
next
  case False
  let ?v = "w\<lparr>w_pc := PRetry (errors_Is e ErrManualReconnect),
      w_delay := reset_delay (cc_Reconnect (sc_cfg (w_client w))) 0 (w_delay w)\<rparr>"
  have "stream_step P H w ?v" using stream_step.retry_decided [OF pc False] .
  moreover have "\<exists>w'. stream_steps P H ?v w' \<and> w_pc w' = PDone"
    by (rule stopped_retry) (use ctx in simp_all)
  ultimately show ?thesis by (meson converse_rtranclp_into_rtranclp)
qed

text \<open>C12: Once a client whose dialing succeeded, so that its run loop exists, has stopped, its goroutines can always run to the end: from every
  reachable stopped world there is a continuation in which the run loop has returned and the done
  channel, which Close waits for, is closed. Every step of it is one
  that the closed socket and the cancelled context enable.\<close>

theorem stopped_client_finishes:
  assumes "started w0" "stream_steps P H w0 w" "sc_stopped (w_client w)" "w_pc w \<notin> {PStart, PFailed}"
    and "\<forall>s. w_pc w \<noteq> PFirst s"
  shows "\<exists>w'. stream_steps P H w w' \<and> w_pc w' = PDone \<and> sc_doneClosed (w_client w')"
proof -
  have inv: "world_inv H w" using stream.reached_inv [OF assms(1,2)] .
  have closed: "sc_doneClosed (w_client w')" if "stream_steps P H w w'" "w_pc w' = PDone" for w'
    using world_invD(5) [OF stream.steps_inv [OF that(1) inv]] that(2) by (simp add: closed_ok_def)
  have ctx: "sc_ctxErr (w_client w) \<noteq> None" using stopped_state(7) [OF world_invD(1) [OF inv] assms(3)] .
  then obtain x where x: "sc_ctxErr (w_client w) = Some x" by blast
  have "\<exists>w'. stream_steps P H w w' \<and> w_pc w' = PDone"
  proof (cases "w_pc w")
    case (PSession s)
    then show ?thesis using stopped_session [OF inv assms(3)] by blast
  next
    case (PReturning s e)
    then show ?thesis using stopped_returning [OF inv assms(3)] by blast
  next
    case (PEnded s e)
    then show ?thesis using stopped_ended [OF inv assms(3)] by blast
  next
    case (PLost s e)
    then show ?thesis using to_closing [OF stream_step.loss_cancelled [OF _ x]] by simp
  next
    case (PDiscarded s e)
    then show ?thesis using stopped_discarded ctx by blast
  next
    case (PRetry b)
    then show ?thesis using stopped_retry ctx by blast
  next
    case PDial
    then show ?thesis using stopped_dial ctx by blast
  next
    case (PGate s)
    then show ?thesis using to_closing [OF stream_step.reserve_cancelled] ctx by simp
  next
    case (PInstall s)
    have "install s (w_client w) = (close_session s (w_client w), False)"
      using assms(3) by (simp add: install_def)
    then show ?thesis using to_closing [OF stream_step.install_refused [OF PInstall]] by simp
  next
    case PClosing
    then show ?thesis by (rule stopped_closing)
  next
    case PDone
    then show ?thesis by blast
  qed (use assms in auto)
  then show ?thesis using closed by blast
qed

theorem stopped_client_finishes_witness:
  "\<exists>w. stream_steps toy_proto toy_hex toy_stopped w \<and> w_pc w = PDone \<and> sc_doneClosed (w_client w)"
proof -
  have pc: "w_pc toy_stopped = PSession 0"
    by (simp add: toy_stopped_def toy_delivered_def toy_subscribed_def toy_requested_def toy_gated_def toy_connected_def)
  show ?thesis
    by (rule stopped_client_finishes [OF toy_started toy_run_stopped toy_stopped_stopped]) (simp_all add: pc)
qed

end
