(* ===== verification/Listing_Properties.thy ===== *)
theory Listing_Properties
  imports Listing_Client
begin

text \<open>
  What the Listing client guarantees about the values it returns: raw sizes are exactly the positive
  uint128 numerals, a decoded pair converts into valid frame parameters, a query result is the
  record that was asked for, inputs are rejected before any request, and a request's own query
  parameters replace those of the base URL without touching the others.
\<close>

subsection \<open>Sizes\<close>

lemma TrimLeft_zeros:
  "\<exists>k. s = replicate k zero_char @ TrimLeft s ''0''"
  by (induction s) (auto simp: TrimLeft_def intro: exI [of _ "Suc _"] exI [of _ 0])

lemma TrimLeft_value: "digits_val (TrimLeft s ''0'') = digits_val s"
proof -
  obtain k where "s = replicate k zero_char @ TrimLeft s ''0''" using TrimLeft_zeros by blast
  then show ?thesis by (metis add_0 digits_val_append digits_val_zeros mult_zero_left)
qed

lemma TrimLeft_digits: "list_all is_digit s \<Longrightarrow> list_all is_digit (TrimLeft s ''0'')"
  by (simp add: TrimLeft_def list_all_iff) (meson set_dropWhileD)

lemma TrimLeft_lower:
  assumes "list_all is_digit s" "TrimLeft s ''0'' = c # t"
  shows "10 ^ length t \<le> digits_val s"
proof -
  have "c \<noteq> zero_char"
    using assms(2) by (simp add: TrimLeft_def dropWhile_eq_Cons_conv)
  moreover have "is_digit c" using TrimLeft_digits [OF assms(1)] assms(2) by simp
  ultimately have "1 \<le> digit_val c" using digit_val_eq_0 [of c] by linarith
  then have "1 * 10 ^ length t \<le> digit_val c * 10 ^ length t" by (rule mult_right_mono) simp
  moreover have "digits_val s = digit_val c * 10 ^ length t + digits_val t"
    using TrimLeft_value [of s] assms(2) by simp
  ultimately show ?thesis by linarith
qed

lemma nat_int_less_power: "int n < 2 ^ k \<longleftrightarrow> n < 2 ^ k"
  by (metis of_nat_less_iff of_nat_numeral of_nat_power)

lemma uint128_digits: "2 ^ 128 \<le> (10 :: nat) ^ 39"
  by simp

lemma parseRawSize_Inr:
  "parseRawSize value name = Inr n \<longleftrightarrow>
     list_all is_digit value \<and> n = int (digits_val value) \<and> 0 < digits_val value \<and> digits_val value < 2 ^ 128"
proof (cases "list_all is_digit value")
  case False
  then show ?thesis by (simp add: parseRawSize_def Let_def)
next
  case True
  let ?d = "TrimLeft value ''0''"
  have d: "list_all is_digit ?d" "digits_val ?d = digits_val value"
    using TrimLeft_digits [OF True] TrimLeft_value by simp_all
  show ?thesis
  proof (cases ?d)
    case Nil
    then show ?thesis using d(2) by (simp add: parseRawSize_def Let_def)
  next
    case (Cons c t)
    note low = TrimLeft_lower [OF True Cons]
    have pos: "0 < digits_val value"
      using low by (meson less_le_trans zero_less_numeral zero_less_power)
    have long: "length ?d > 39 \<Longrightarrow> 2 ^ 128 \<le> digits_val value"
    proof -
      assume "length ?d > 39"
      then have "(10 :: nat) ^ 39 \<le> 10 ^ length t" using Cons by (intro power_increasing) simp_all
      with low uint128_digits show ?thesis by linarith
    qed
    have n: "big_SetString ?d = Some (int (digits_val value))"
      using d Cons by (simp add: big_SetString_def)
    have wide: "BitLen (int (digits_val value)) > 128 \<longleftrightarrow> \<not> digits_val value < 2 ^ 128"
      using nat_int_less_power [of "digits_val value" 128] by (simp only: BitLen_gt abs_of_nat not_less [symmetric])
    have "parseRawSize value name = (if length ?d > 39 \<or> \<not> digits_val value < 2 ^ 128
        then Inl (configError name size_message) else Inr (int (digits_val value)))"
      using True Cons n unfolding parseRawSize_def Let_def wide [symmetric] by (simp add: reject_def)
    then show ?thesis
      using True pos long by (metis Inl_Inr_False Inr_inject not_le)
  qed
qed

subsection \<open>Decoded pairs\<close>

lemma required_Inr: "required u flds name = Inr v \<longleftrightarrow> (\<exists>raw. flds name = Some raw \<and> raw \<noteq> JNull \<and> u raw = Inr v)"
  by (auto simp: required_def isNull_def split: option.splits)

lemma unmarshal_uint_less: "unmarshal_uint bits j = Inr n \<Longrightarrow> n < 2 ^ bits"
  by (auto simp: unmarshal_uint_def split: json.splits if_splits)

text \<open>A raw size: a numeral of a positive uint128.\<close>

definition raw_size :: "string \<Rightarrow> bool" where
  "raw_size v \<longleftrightarrow> list_all is_digit v \<and> 0 < digits_val v \<and> digits_val v < 2 ^ 128"

lemma positive_string_Inr:
  "positiveUint128String flds name = Inr v \<Longrightarrow> raw_size v"
  by (auto simp: positiveUint128String_def attempt_Inr parseRawSize_Inr raw_size_def)

text \<open>What holds of every decoded pair.\<close>

definition pair_wf :: "listed_pair \<Rightarrow> bool" where
  "pair_wf p \<longleftrightarrow>
     0 < unat (lp_ChainID p) \<and> unat (lp_ChainID p) \<le> MaxInt64 \<and> unat (lp_PairID p) \<le> MaxInt32 \<and>
     lp_BaseToken p \<noteq> 0 \<and> lp_QuoteToken p \<noteq> 0 \<and> lp_BaseToken p \<noteq> lp_QuoteToken p \<and>
     raw_size (lp_PriceTickSize p) \<and> raw_size (lp_LotSize p) \<and>
     (\<forall>t. lp_Tax p = Some t \<longrightarrow> (tax_Token t = lp_BaseToken p \<or> tax_Token t = lp_QuoteToken p) \<and>
        unat (tax_RatePPM t) < partsPerMillion)"

lemma decodeTax_Inr:
  assumes "decodeTax H flds base quote = Inr (Some t)"
  shows "(tax_Token t = base \<or> tax_Token t = quote) \<and> unat (tax_RatePPM t) < partsPerMillion"
proof -
  from assms obtain token rate where "tax_Token t = token" "tax_RatePPM t = of_nat rate"
      "token = base \<or> token = quote" "rate < partsPerMillion"
    by (auto simp: decodeTax_def attempt_Inr Let_def not_le split: option.splits if_splits)
  then show ?thesis by (simp add: partsPerMillion_def unsigned_of_nat take_bit_nat_eq_self)
qed

lemma decode_fields_wf:
  assumes "decode_fields H flds = Inr p"
  shows "pair_wf p"
proof -
  from assms obtain chainID pairID base quote tick lot t where
      p: "lp_ChainID p = of_nat chainID" "lp_PairID p = of_nat pairID" "lp_BaseToken p = base" "lp_QuoteToken p = quote"
        "lp_PriceTickSize p = tick" "lp_LotSize p = lot" "lp_Tax p = t"
      and n: "0 < chainID" "chainID \<le> MaxInt64" "pairID \<le> MaxInt32"
      and b: "base \<noteq> 0" "quote \<noteq> 0" "base \<noteq> quote"
      and s: "positiveUint128String flds ''price_tick_size'' = Inr tick" "positiveUint128String flds ''lot_size'' = Inr lot"
      and t: "decodeTax H flds base quote = Inr t"
    unfolding decode_fields_def attempt_Inr reject_Inr by fastforce
  have "unat (of_nat chainID :: u64) = chainID" "unat (of_nat pairID :: u32) = pairID"
    using n by (simp_all add: MaxInt64_def MaxInt32_def unsigned_of_nat take_bit_nat_eq_self)
  then show ?thesis
    using p n b positive_string_Inr [OF s(1)] positive_string_Inr [OF s(2)] decodeTax_Inr [of H flds base quote] t
    unfolding pair_wf_def by metis
qed

lemma decodePair_wf: "decodePair H j = Inr p \<Longrightarrow> pair_wf p"
  by (auto simp: decodePair_def attempt_Inr dest: decode_fields_wf split: option.splits)

definition listed_params :: "listed_pair \<Rightarrow> pair_params" where
  "listed_params p = \<lparr>pp_PairID = lp_PairID p, pp_BaseToken = lp_BaseToken p, pp_QuoteToken = lp_QuoteToken p,
     pp_BaseDecimals = lp_BaseDecimals p, pp_QuoteDecimals = lp_QuoteDecimals p,
     pp_PriceTickSize = Some (int (digits_val (lp_PriceTickSize p))), pp_LotSize = Some (int (digits_val (lp_LotSize p)))\<rparr>"

lemma FrameParams_wf:
  assumes "pair_wf p"
  shows "ValidatePair (listed_params p) = (if lp_PairID p = 0 then Inl PairIDZero else Inr ()) \<and>
    FrameParams p = (if lp_PairID p = 0 then Inl (configError ''pair'' (frame_error_text PairIDZero)) else Inr (listed_params p))"
proof -
  have parse: "parseRawSize w nm = Inr (int (digits_val w))" if "raw_size w" for w nm
    using that by (simp add: parseRawSize_Inr raw_size_def)
  have scale: "\<not> bad_scale (Some (int (digits_val w)))" if "raw_size w" for w
    using that nat_int_less_power [of "digits_val w" 128]
    unfolding bad_scale_def option.case BitLen_gt raw_size_def by (simp only: abs_of_nat) (simp add: not_le)
  have s: "raw_size (lp_PriceTickSize p)" "raw_size (lp_LotSize p)" using assms by (simp_all add: pair_wf_def)
  have "ValidatePair (listed_params p) = (if lp_PairID p = 0 then Inl PairIDZero else Inr ())"
    using assms scale [OF s(1)] scale [OF s(2)] by (simp add: ValidatePair_def listed_params_def pair_wf_def reject_def)
  then show ?thesis
    by (simp add: FrameParams_def parse [OF s(1)] parse [OF s(2)] listed_params_def Let_def)
qed

text \<open>C39: Every pair record that decodes, also one the server has not assigned a pair id, has a positive
  int64 chain id, an int32 pair id, two distinct nonzero tokens, a tick size and a lot size that are
  numerals of positive uint128 values, and a tax (if any) on one of the two tokens and below one
  million PPM. FrameParams turns it into the parameters with the same id, tokens and decimals and the
  listed raw sizes unscaled, which ValidatePair accepts, exactly when the pair id is assigned; for an
  unassigned one (zero) it returns the error about the pair id.\<close>

theorem decoded_pair_usable:
  assumes "decodePair H j = Inr p"
  shows "pair_wf p \<and>
    ValidatePair (listed_params p) = (if lp_PairID p = 0 then Inl PairIDZero else Inr ()) \<and>
    FrameParams p = (if lp_PairID p = 0 then Inl (configError ''pair'' (frame_error_text PairIDZero)) else Inr (listed_params p))"
  using decodePair_wf [OF assms] FrameParams_wf by blast

definition sample_hex :: hexlib where
  "sample_hex = \<lparr>IsHexAddress = (\<lambda>_. True), HexToAddress = (\<lambda>s. of_nat (length s))\<rparr>"

definition sample_record :: json where
  "sample_record = JObject [(''chain_id'', JNumber ''1''), (''pair_id'', JNumber ''7''), (''base_token'', JString ''a''),
     (''quote_token'', JString ''bb''), (''base_symbol'', JString ''A''), (''quote_symbol'', JString ''B''),
     (''base_decimals'', JNumber ''8''), (''quote_decimals'', JNumber ''18''), (''price_tick_size'', JString ''0100''),
     (''lot_size'', JString ''25''), (''tax'', JNull), (''active'', JBool True), (''gray'', JBool False)]"

definition sample_listed :: listed_pair where
  "sample_listed = \<lparr>lp_ChainID = 1, lp_PairID = 7, lp_BaseToken = 1, lp_QuoteToken = 2, lp_BaseSymbol = ''A'',
     lp_QuoteSymbol = ''B'', lp_BaseDecimals = 8, lp_QuoteDecimals = 18, lp_PriceTickSize = ''0100'', lp_LotSize = ''25'',
     lp_Active = True, lp_Gray = False, lp_Tax = None\<rparr>"

lemmas decode_defs = decodePair_def decode_fields_def required_def isNull_def addressField_def positiveUint128String_def
  decodeTax_def unmarshal_map_def unmarshal_uint_def unmarshal_string_def unmarshal_bool_def is_digit_def digit_val_def

lemma sample_sizes: "parseRawSize ''0100'' nm = Inr 100" "parseRawSize ''25'' nm = Inr 25"
  by (simp_all add: parseRawSize_Inr is_digit_def digit_val_def)

lemma sample_decodes: "decodePair sample_hex sample_record = Inr sample_listed"
  by (simp add: decode_defs sample_hex_def sample_record_def sample_listed_def sample_sizes MaxInt64_def MaxInt32_def)

theorem decoded_pair_usable_witness:
  "decodePair sample_hex sample_record = Inr sample_listed \<and> raw_size ''0100'' \<and>
   (\<exists>params. FrameParams sample_listed = Inr params \<and> pp_PriceTickSize params = Some 100)"
proof -
  have "lp_PairID sample_listed \<noteq> 0" "digits_val (lp_PriceTickSize sample_listed) = 100" "lp_PriceTickSize sample_listed = ''0100''"
    by (simp_all add: sample_listed_def digit_val_def)
  with decoded_pair_usable [OF sample_decodes] sample_decodes show ?thesis by (simp add: listed_params_def pair_wf_def)
qed

subsection \<open>Queries\<close>

lemma judge_Inr:
  assumes "judge_response res = Inr (env, status)"
  shows "status = hr_StatusCode res \<and> 200 \<le> status \<and> status < 300 \<and> env_Success env = Some True \<and> env_Error env = None \<and>
    \<not> hr_exceeded res \<and> hr_rest res = BodyEOF \<and> (\<exists>j. env_Data env = Some j \<and> j \<noteq> JNull)"
  using assms
  by (cases "env_Error env") (auto simp: judge_response_def decodeEnvelope_def Let_def
      split: if_splits option.splits sum.splits prod.splits body_rest.splits)

text \<open>ListPair returns a pair only for a positive int64 chain id and a positive int32 pair id,
  after one request whose response has a 2xx status, success true, no error, exactly one JSON value
  within the size limit; the pair is well formed and is the one that was asked for. Arguments out of
  range are refused without a request.\<close>

theorem list_pair_exact:
  "(if chainID = 0 \<or> unat chainID > MaxInt64 \<or> pairID = 0 \<or> unat pairID > MaxInt32
    then (\<exists>field message. ListPair H N c cx chainID pairID = Inl (InputError field message))
    else case ListPair H N c cx chainID pairID of
      Inl e \<Rightarrow> True
    | Inr p \<Rightarrow> pair_wf p \<and> lp_ChainID p = chainID \<and> lp_PairID p = pairID \<and>
       (\<exists>u res env j. ParseURL N (lcl_baseURL c) = Inr u \<and>
          Do N (lcl_http c) (build_request N c u ''/pair''
            [(''chain_id'', nat_text (unat chainID)), (''pair_id'', nat_text (unat pairID))]) = Inr res \<and>
          judge_response res = Inr (env, hr_StatusCode res) \<and>
          200 \<le> hr_StatusCode res \<and> hr_StatusCode res < 300 \<and> env_Success env = Some True \<and> env_Error env = None \<and>
          \<not> hr_exceeded res \<and> hr_rest res = BodyEOF \<and>
          env_Data env = Some j \<and> decodePair H j = Inr p))"
proof (cases "chainID = 0 \<or> unat chainID > MaxInt64 \<or> pairID = 0 \<or> unat pairID > MaxInt32")
  case True
  then show ?thesis by (auto simp: ListPair_def validateChainID_def reject_def)
next
  case False
  show ?thesis
  proof (cases "ListPair H N c cx chainID pairID")
    case (Inr p)
    let ?q = "[(''chain_id'', nat_text (unat chainID)), (''pair_id'', nat_text (unat pairID))]"
    from Inr False obtain env status where g: "get N c cx ''/pair'' ?q = Inr (env, status)"
        and p: "decodePair H (the (env_Data env)) = Inr p" "lp_ChainID p = chainID" "lp_PairID p = pairID"
      by (auto simp: ListPair_def validateChainID_def attempt_Inr)
    from g obtain u res where r: "ParseURL N (lcl_baseURL c) = Inr u"
        "Do N (lcl_http c) (build_request N c u ''/pair'' ?q) = Inr res" "judge_response res = Inr (env, status)"
      by (auto simp: get_def attempt_Inr split: option.splits)
    note j = judge_Inr [OF r(3)]
    then obtain data where "env_Data env = Some data" by blast
    then show ?thesis
      using False Inr p r j decodePair_wf [OF p(1)] by auto
  qed (use False in auto)
qed

lemma decode_items_Inr:
  assumes "decode_items H status chainID i items = Inr ps"
  shows "map (decodePair H) items = map Inr ps \<and> (\<forall>p\<in>set ps. pair_wf p \<and> lp_ChainID p = chainID)"
  using assms
proof (induction items arbitrary: i ps)
  case (Cons item items)
  then show ?case by (auto simp: attempt_Inr dest: decodePair_wf)
qed simp

text \<open>ListPairs returns, in the server's order, exactly the decoded records of the response, all
  well formed and of the requested chain; a single record that does not decode or belongs to another
  chain fails the whole call.\<close>

theorem list_pairs_all_or_nothing:
  assumes "ListPairs H N c cx chainID = Inr ps"
  shows "\<exists>env status items. get N c cx ''/pairs'' [(''chain_id'', nat_text (unat chainID))] = Inr (env, status) \<and>
    env_Data env = Some (JArray items) \<and> map (decodePair H) items = map Inr ps \<and>
    (\<forall>p\<in>set ps. pair_wf p \<and> lp_ChainID p = chainID)"
proof -
  from assms obtain env status where g: "get N c cx ''/pairs'' [(''chain_id'', nat_text (unat chainID))] = Inr (env, status)"
      and d: "decodePairs H (the (env_Data env)) status chainID = Inr ps"
    by (auto simp: ListPairs_def attempt_Inr)
  from g obtain res where "judge_response res = Inr (env, status)"
    by (auto simp: get_def attempt_Inr split: option.splits)
  then obtain j where j: "env_Data env = Some j" "j \<noteq> JNull" using judge_Inr by blast
  with d obtain items where "j = JArray items" "decode_items H status chainID 0 items = Inr ps"
    by (auto simp: decodePairs_def attempt_Inr unmarshal_slice_def split: json.splits)
  then show ?thesis using g j decode_items_Inr by blast
qed

definition sample_net :: netlib where
  "sample_net = \<lparr>ParseURL = (\<lambda>s. Inr \<lparr>u_Path = ''/listing'', u_RawPath = [], u_RawQuery = ''chain_id=9&x=1'', u_rest = []\<rparr>),
     EscapedPath = u_Path,
     Do = (\<lambda>h rq. Inr \<lparr>hr_StatusCode = 200, hr_first = Inr (JObject [(''success'', JBool True),
       (''data'', JArray [sample_record])]), hr_rest = BodyEOF, hr_exceeded = False\<rparr>)\<rparr>"

definition sample_listing :: listing_client where
  "sample_listing = \<lparr>lcl_baseURL = [], lcl_http = \<lparr>hc_Timeout = 0, hc_FollowRedirects = False, hc_rest = []\<rparr>,
     lcl_timeout = 1, lcl_apiKey = ''k''\<rparr>"

lemma sample_list_pairs: "ListPairs sample_hex sample_net sample_listing (Some (\<lambda>_. None)) 1 = Inr [sample_listed]"
  by (simp add: ListPairs_def validateChainID_def MaxInt64_def get_def sample_net_def judge_response_def decodeEnvelope_def
      unmarshal_envelope_def decode_field_def zero_envelope_def lower_char_def decodePairs_def unmarshal_slice_def
      sample_decodes sample_listed_def)

theorem list_pairs_all_or_nothing_witness:
  "ListPairs sample_hex sample_net sample_listing (Some (\<lambda>_. None)) 1 = Inr [sample_listed] \<and> pair_wf sample_listed"
  using list_pairs_all_or_nothing [OF sample_list_pairs] sample_list_pairs by auto

subsection \<open>The query string\<close>

definition plain_query :: "query \<Rightarrow> bool" where
  "plain_query q \<longleftrightarrow> (\<forall>(k, v)\<in>set q. QueryUnescape k = Some k \<and> CHR ''='' \<notin> set k \<and> CHR ''&'' \<notin> set k \<and> CHR ''&'' \<notin> set v)"

lemma encode_pair_overridden: "plain_query q \<Longrightarrow> kv \<in> set q \<Longrightarrow> overridden q (encode_pair kv)"
proof -
  assume "plain_query q" "kv \<in> set q"
  moreover have "takeWhile (\<lambda>c. c \<noteq> CHR ''='') (k @ CHR ''='' # v) = k" if "CHR ''='' \<notin> set k" for k v
    using that by (subst takeWhile_append2) auto
  ultimately show ?thesis
    by (cases kv) (force simp: overridden_def encode_pair_def plain_query_def Cut_def)
qed

lemma encode_parts:
  assumes "plain_query q" "q \<noteq> []"
  shows "Split (Encode q) (CHR ''&'') = map encode_pair q"
  unfolding Encode_def
  by (rule Split_Join) (use assms in \<open>auto simp: plain_query_def encode_pair_def\<close>)

lemma Join_Nil: "Join ps sep = [] \<longleftrightarrow> ps = [] \<or> ps = [[]]"
  by (induction ps sep rule: Join.induct) auto

text \<open>The request's own query parameters take precedence over those in the base URL: among the
  components of the merged query string, those naming a requested key are exactly the request's, in
  its order, and all others are the base URL's components verbatim and in their order.\<close>

theorem merge_query_precedence:
  assumes "plain_query q" "q \<noteq> []"
  shows "filter (overridden q) (Split (mergeQuery raw q) (CHR ''&'')) = map encode_pair q \<and>
    filter (\<lambda>part. \<not> overridden q part) (Split (mergeQuery raw q) (CHR ''&'')) =
      (let others = filter (\<lambda>part. \<not> overridden q part) (Split raw (CHR ''&'')) in if others = [[]] then [] else others)"
proof -
  let ?others = "filter (\<lambda>part. \<not> overridden q part) (Split raw (CHR ''&''))"
  have parts: "Split (Encode q) (CHR ''&'') = map encode_pair q" using encode_parts [OF assms] .
  have ne: "Encode q \<noteq> []"
    using assms(2) by (cases q) (auto simp: Encode_def Join_Nil encode_pair_def)
  have ov: "filter (overridden q) (map encode_pair q) = map encode_pair q"
      "filter (\<lambda>part. \<not> overridden q part) (map encode_pair q) = []"
    using encode_pair_overridden [OF assms(1)] by (auto simp: filter_id_conv filter_empty_conv)
  show ?thesis
  proof (cases "Join ?others (CHR ''&'') = []")
    case True
    then show ?thesis
      using ne parts ov by (auto simp: mergeQuery_def Let_def Join_Nil)
  next
    case False
    then have o: "?others \<noteq> []" "?others \<noteq> [[]]" by (simp_all only: Join_Nil) auto
    have "Split (Join ?others (CHR ''&'')) (CHR ''&'') = ?others"
      by (rule Split_Join) (use o(1) Split_no_sep in auto)
    then have "Split (mergeQuery raw q) (CHR ''&'') = ?others @ map encode_pair q"
      using False ne parts by (simp add: mergeQuery_def Let_def Split_Join_append)
    moreover have "filter (overridden q) ?others = []" by (simp add: filter_empty_conv)
    ultimately show ?thesis using o(2) ov by simp
  qed
qed

theorem merge_query_precedence_witness:
  "Split (mergeQuery ''chain%5Fid=9&x=%2B1'' [(''chain_id'', ''1'')]) (CHR ''&'') = [''x=%2B1'', ''chain_id=1''] \<and>
   filter (overridden [(''chain_id'', ''1'')]) (Split (mergeQuery ''chain%5Fid=9&x=%2B1'' [(''chain_id'', ''1'')]) (CHR ''&'')) =
     [''chain_id=1'']"
proof -
  have "plain_query [(''chain_id'', ''1'')]" by (simp add: plain_query_def)
  moreover have "Split (mergeQuery ''chain%5Fid=9&x=%2B1'' [(''chain_id'', ''1'')]) (CHR ''&'') = [''x=%2B1'', ''chain_id=1'']"
    by code_simp
  ultimately show ?thesis
    using merge_query_precedence [of "[(''chain_id'', ''1'')]" "''chain%5Fid=9&x=%2B1''"] by (simp add: encode_pair_def)
qed

end
