(* ===== verification/Public_API.thy ===== *)
theory Public_API
  imports Router_Swap Stream_Behaviour Listing_Properties
begin

text \<open>
  Where the components meet: dialing (\<open>DialMaker\<close>, \<open>DialRouter\<close>, and the listing client they share
  credentials with, \<open>internal/listing.go\<close>) and \<open>Maker.Publish\<close> of \<open>pkg/maker/maker.go\<close>, which
  rounds a quote, builds and signs its frame and writes it to the stream. The wrappers of
  \<open>pkg/maker\<close> and \<open>pkg/router\<close> that only forward to these are the forwarded functions.
\<close>

subsection \<open>internal/listing.go\<close>

definition newListingClient :: "connection_config \<Rightarrow> listing_config \<Rightarrow> listing_error + listing_client option" where
  "newListingClient connection cfg =
    (if lc_BaseURL cfg = [] \<and> lc_HTTPClient cfg = None \<and> lc_Timeout cfg = 0 then Inr None
     else attempt (NewListingClient \<lparr>ls_BaseURL = lc_BaseURL cfg, ls_APIKey = cc_APIKey connection,
       ls_HTTPClient = lc_HTTPClient cfg, ls_Timeout = lc_Timeout cfg\<rparr>) (\<lambda>c. Inr (Some c)))"

datatype sdk_error = StreamFailure stream_error | ListingFailure listing_error

definition with_listing :: "listing_client option \<Rightarrow> (listing_client \<Rightarrow> listing_error + 'a) \<Rightarrow> sdk_error + 'a" where
  "with_listing l f = (case l of None \<Rightarrow> Inl (StreamFailure ErrListingNotConfigured) | Some c \<Rightarrow> wrap_err ListingFailure (f c))"

definition client_ListChains :: "netlib \<Rightarrow> listing_client option \<Rightarrow> ctx option \<Rightarrow> sdk_error + (string \<rightharpoonup> u64)" where
  "client_ListChains N l cx = with_listing l (\<lambda>c. ListChains N c cx)"

definition client_ListPairs :: "hexlib \<Rightarrow> netlib \<Rightarrow> listing_client option \<Rightarrow> ctx option \<Rightarrow> u64 \<Rightarrow> sdk_error + listed_pair list" where
  "client_ListPairs H N l cx chainID = with_listing l (\<lambda>c. ListPairs H N c cx chainID)"

definition client_ListPair :: "hexlib \<Rightarrow> netlib \<Rightarrow> listing_client option \<Rightarrow> ctx option \<Rightarrow> u64 \<Rightarrow> u32 \<Rightarrow> sdk_error + listed_pair" where
  "client_ListPair H N l cx chainID pairID = with_listing l (\<lambda>c. ListPair H N c cx chainID pairID)"

subsection \<open>Dialing\<close>

text \<open>\<open>lifetime\<close> is the lifetime context when the client is made, \<open>later\<close> when a refused install
  asks for its cause.\<close>

definition dial_and_install :: "protolib \<Rightarrow> dial_io \<Rightarrow> ctx_error option \<Rightarrow> stream_client \<Rightarrow> stream_error + stream_client \<times> nat" where
  "dial_and_install P io later c =
    (case dial P io c of
       (c1, Inl e) \<Rightarrow> Inl e
     | (c1, Inr s) \<Rightarrow>
        (case install s c1 of
           (c2, True) \<Rightarrow> Inr (c2, s)
         | (c2, False) \<Rightarrow> Inl (case later of Some e \<Rightarrow> ContextError e | None \<Rightarrow> ErrClosed)))"

definition DialMaker :: "protolib \<Rightarrow> ctx_error option \<Rightarrow> maker_config \<Rightarrow> dial_io \<Rightarrow> ctx_error option \<Rightarrow>
    sdk_error + stream_client \<times> nat \<times> listing_client option" where
  "DialMaker P lifetime cfg0 io later =
     attempt (wrap_err StreamFailure (normalizeMaker cfg0)) (\<lambda>cfg.
     attempt (wrap_err ListingFailure (newListingClient (mc_Connection cfg) (mc_Listing cfg))) (\<lambda>l.
     let c = newClient lifetime (mc_Connection cfg) True (unused_router (mc_Connection cfg)) in
     attempt (wrap_err StreamFailure (dial_and_install P io later c)) (\<lambda>(c', s). Inr (c', s, l))))"

definition DialRouter :: "protolib \<Rightarrow> ctx_error option \<Rightarrow> router_config \<Rightarrow> dial_io \<Rightarrow> ctx_error option \<Rightarrow>
    sdk_error + stream_client \<times> nat \<times> listing_client option" where
  "DialRouter P lifetime cfg0 io later =
     attempt (wrap_err StreamFailure (normalizeRouter cfg0)) (\<lambda>cfg.
     attempt (wrap_err ListingFailure (newListingClient (rtc_Connection cfg) (rtc_Listing cfg))) (\<lambda>l.
     let c = newClient lifetime (rtc_Connection cfg) False (new_router_state cfg) in
     attempt (wrap_err StreamFailure (dial_and_install P io later c)) (\<lambda>(c', s). Inr (c', s, l))))"

subsection \<open>Maker.Publish\<close>

datatype publish_cause = NilContext | StreamCause stream_error | QuoteCause quote_error | FrameCause frame_error

definition maker_publish_failed :: "publish_cause \<Rightarrow> stream_client \<Rightarrow> stream_client \<times> (publish_outcome \<times> publish_cause) option" where
  "maker_publish_failed e c = (c, Some (NotSent, e))"

text \<open>Signing asks the context twice (see \<open>SignFrame\<close>), after the call's own check.\<close>

definition MakerPublish :: "ethlib \<Rightarrow> protolib \<Rightarrow> ctx option \<Rightarrow> publish_params \<Rightarrow> int \<Rightarrow> write_io \<Rightarrow> stream_client \<Rightarrow>
    stream_client \<times> (publish_outcome \<times> publish_cause) option" where
  "MakerPublish L P cx params now io c =
    (case cx of
       None \<Rightarrow> maker_publish_failed NilContext c
     | Some ctx \<Rightarrow>
        (case ctx 0 of
           Some e \<Rightarrow> maker_publish_failed (StreamCause (ContextError e)) c
         | None \<Rightarrow>
            (case quoteSpec params of
               Inl e \<Rightarrow> maker_publish_failed (QuoteCause e) c
             | Inr spec \<Rightarrow>
                (case BuildAndSign L (Some (shift_ctx 1 ctx)) spec (pub_Signer params) of
                   Inl e \<Rightarrow> maker_publish_failed (FrameCause e) c
                 | Inr m \<Rightarrow>
                    (case Publish P (ctx 3) (Some m) now io c of
                       (c', r) \<Rightarrow> (c', map_option (\<lambda>e. (pube_Outcome e, StreamCause (pube_Err e))) r))))))"

subsection \<open>A dialed client is a reachable, connected one\<close>

lemma dial_and_install_steps:
  assumes "dial_and_install P io later (w_client w) = Inr (c, s)" "w_pc w = PStart"
  shows "stream_steps P H w (w\<lparr>w_client := c, w_pc := PSession s\<rparr>)"
proof -
  from assms(1) obtain c1 where d: "dial P io (w_client w) = (c1, Inr s)" and i: "install s c1 = (c, True)"
    by (auto simp: dial_and_install_def split: prod.splits sum.splits bool.splits)
  let ?v = "w\<lparr>w_client := c1, w_pc := PFirst s\<rparr>"
  have "stream_step P H w ?v" using stream_step.first_dial [OF assms(2) d] .
  moreover have "stream_step P H ?v (?v\<lparr>w_client := c, w_pc := PSession s\<rparr>)"
    using stream_step.first_install [of ?v s c True P H] i by simp
  ultimately show ?thesis
    by (auto intro: converse_rtranclp_into_rtranclp)
qed

lemma dial_and_install_connected:
  assumes "dial_and_install P io later c0 = Inr (c, s)" "client_inv H c0" "sc_current c0 = None"
  shows "\<not> sc_stopped c \<and> st_Generation (sc_status c) = st_Generation (sc_status c0) + 1"
proof -
  from assms(1) obtain c1 where d: "dial P io c0 = (c1, Inr s)" and i: "install s c1 = (c, True)"
    by (auto simp: dial_and_install_def split: prod.splits sum.splits bool.splits)
  have "st_Generation (sc_status c1) = st_Generation (sc_status c0)"
    using evolves_dial [of c0 P io] d by (simp add: evolves_def)
  with i show ?thesis
    by (cases rule: install_cases) (auto simp: evolves_def)
qed

text \<open>C13: When DialRouter succeeds, the configuration was accepted and normalized, the connection was
  authenticated, the client is in its first generation and not stopped, its state is a reachable
  state of the concurrent system with the run loop about to read that session, and the listing
  client exists exactly when listing is configured and then carries the connection's API key.\<close>

theorem dial_router_reachable:
  assumes "DialRouter P lifetime cfg0 io later = Inr (c, s, l)"
  shows "\<exists>cfg w. normalizeRouter cfg0 = Inr cfg \<and> started (start_router lifetime cfg) \<and>
    stream_steps P H (start_router lifetime cfg) w \<and> w_client w = c \<and> w_pc w = PSession s \<and>
    \<not> sc_stopped c \<and> st_Generation (Status c) = 1 \<and>
    (l = None \<longleftrightarrow> lc_BaseURL (rtc_Listing cfg) = [] \<and> lc_HTTPClient (rtc_Listing cfg) = None \<and> lc_Timeout (rtc_Listing cfg) = 0) \<and>
    (case l of None \<Rightarrow> True | Some x \<Rightarrow> lcl_apiKey x = cc_APIKey (rtc_Connection cfg) \<and> \<not> hc_FollowRedirects (lcl_http x))"
proof -
  from assms obtain cfg where cfg: "normalizeRouter cfg0 = Inr cfg"
      and l: "newListingClient (rtc_Connection cfg) (rtc_Listing cfg) = Inr l"
      and d: "dial_and_install P io later (w_client (start_router lifetime cfg)) = Inr (c, s)"
    by (auto simp: DialRouter_def attempt_Inr start_router_def Let_def)
  let ?w0 = "start_router lifetime cfg"
  have st: "started ?w0" using normalizeRouter_Inr [OF cfg] by (auto simp: started_def)
  have pc: "w_pc ?w0 = PStart" by (simp add: start_router_def)
  have zero: "sc_current (w_client ?w0) = None" "st_Generation (sc_status (w_client ?w0)) = 0"
    by (simp_all add: start_router_def newClient_def zero_status_def)
  have "\<not> sc_stopped c \<and> st_Generation (Status c) = 1"
    using dial_and_install_connected [OF d world_invD(1) [OF started_inv [OF st]] zero(1)] zero(2)
    by (simp add: Status_def)
  moreover have "l = None \<longleftrightarrow> lc_BaseURL (rtc_Listing cfg) = [] \<and> lc_HTTPClient (rtc_Listing cfg) = None \<and> lc_Timeout (rtc_Listing cfg) = 0"
    "case l of None \<Rightarrow> True | Some x \<Rightarrow> lcl_apiKey x = cc_APIKey (rtc_Connection cfg) \<and> \<not> hc_FollowRedirects (lcl_http x)"
    using l by (auto simp: newListingClient_def NewListingClient_def Let_def attempt_Inr split: if_splits option.splits)
  ultimately show ?thesis
    using cfg st dial_and_install_steps [OF d pc, of H]
    by (intro exI [of _ cfg] exI [of _ "?w0\<lparr>w_client := c, w_pc := PSession s\<rparr>"]) simp
qed

lemma dial_and_install_Inr:
  "dial P io c = (c1, Inr s) \<Longrightarrow> install s c1 = (c2, True) \<Longrightarrow> dial_and_install P io later c = Inr (c2, s)"
  by (simp add: dial_and_install_def)

lemma toy_dial_router: "\<exists>c. DialRouter toy_proto None zero_router toy_dial None = Inr (c, 0, None)"
proof -
  have "install 0 (fst (dial toy_proto toy_dial (w_client toy_start))) =
      (fst (install 0 (fst (dial toy_proto toy_dial (w_client toy_start)))), True)"
    using toy_install_result by (intro pair_of_snd) (simp add: toy_dialed_def)
  from dial_and_install_Inr [OF toy_dial_result this]
  obtain c where "dial_and_install toy_proto toy_dial None (w_client toy_start) = Inr (c, 0)" by blast
  then show ?thesis
    by (simp add: DialRouter_def zero_router_defaults newListingClient_def toy_start_def start_router_def default_router_def Let_def)
qed

theorem dial_router_reachable_witness:
  "\<exists>c w. DialRouter toy_proto None zero_router toy_dial None = Inr (c, 0, None) \<and>
    stream_steps toy_proto toy_hex (start_router None default_router) w \<and> w_client w = c \<and> st_Generation (Status c) = 1"
proof -
  obtain c where c: "DialRouter toy_proto None zero_router toy_dial None = Inr (c, 0, None)" using toy_dial_router ..
  from dial_router_reachable [OF c, of toy_hex] c zero_router_defaults show ?thesis by auto
qed

subsection \<open>Publishing a quote\<close>

text \<open>C7: Maker.Publish succeeds only by handing the current session one message whose frame is
  consistent: its compact words encode the specification that the quote rounds to, and its signature
  verifies for the quote's signer in the quote's domain. Every failure in conversion, signing or
  before the network write is reported as NotSent and leaves the client untouched.\<close>

theorem maker_publish_signed_quote:
  assumes clone: "\<forall>m. CloneFrame L m = m"
  shows "case MakerPublish L P cx params now io c of
     (c', None) \<Rightarrow> (\<exists>spec m f s sess data. quoteSpec params = Inr spec \<and> encodeCompactFrame spec = Inr f \<and>
        describes L spec m \<and> pub_Signer params = LiveSigner s \<and>
        VerifySignature L \<lparr>dom_ChainID = fs_ChainID spec, dom_Protocol = fs_Protocol spec\<rparr>
          \<lparr>sf_Frame = f, sf_Maker = fs_Maker spec, sf_Signature = mf_Signature m\<rparr> (signer_Address s) = Inr () \<and>
        sc_current c = Some sess \<and> marshal_maker P (sc_cfg c) (publish_envelope m now) = Inr data \<and>
        write_message sess data id io c = (c', True, None))
   | (c', Some (outcome, cause)) \<Rightarrow> (case outcome of
        NotSent \<Rightarrow> c' = c
      | Unknown \<Rightarrow> (\<exists>sess. sc_current c = Some sess \<and> sc_current c' \<noteq> Some sess))"
proof (cases "\<exists>ctx spec m. cx = Some ctx \<and> ctx 0 = None \<and> quoteSpec params = Inr spec \<and>
    BuildAndSign L (Some (shift_ctx 1 ctx)) spec (pub_Signer params) = Inr m")
  case False
  then show ?thesis
    by (auto simp: MakerPublish_def maker_publish_failed_def split: option.splits sum.splits)
next
  case True
  then obtain ctx spec m where ok: "cx = Some ctx" "ctx 0 = None" "quoteSpec params = Inr spec"
      "BuildAndSign L (Some (shift_ctx 1 ctx)) spec (pub_Signer params) = Inr m" by blast
  obtain f s where b: "pub_Signer params = LiveSigner s" "encodeCompactFrame spec = Inr f" "describes L spec m"
      "VerifySignature L \<lparr>dom_ChainID = fs_ChainID spec, dom_Protocol = fs_Protocol spec\<rparr>
        \<lparr>sf_Frame = f, sf_Maker = fs_Maker spec, sf_Signature = mf_Signature m\<rparr> (signer_Address s) = Inr ()"
    using BuildAndSign_consistent [OF clone ok(4)] by blast
  obtain c' r where p: "Publish P (ctx 3) (Some m) now io c = (c', r)" by (cases "Publish P (ctx 3) (Some m) now io c")
  have mp: "MakerPublish L P cx params now io c = (c', map_option (\<lambda>e. (pube_Outcome e, StreamCause (pube_Err e))) r)"
    using ok p by (simp add: MakerPublish_def)
  show ?thesis
  proof (cases r)
    case None
    then show ?thesis
      using Publish_outcome [of "Some m" c P now io "ctx 3"] p mp ok(3) b by auto
  next
    case (Some e)
    then show ?thesis
      using Publish_outcome [of "Some m" c P now io "ctx 3"] p mp by (auto split: publish_outcome.splits)
  qed
qed

subsection \<open>A published quote\<close>

text \<open>The sample quote published by a freshly dialed maker: the protobuf library acknowledges every
  connection and marshals everything to one byte.\<close>

definition toy_maker_proto :: protolib where
  "toy_maker_proto = toy_proto\<lparr>UnmarshalMaker := (\<lambda>_. Inr \<lparr>me_Type = MMT_CONNECTION_ACK, me_Timestamp = 0,
     me_Payload = MP_ConnectionAck \<lparr>ca_Success = True, ca_Identity = ''maker'', ca_ServerTime = 0, ca_unknown = []\<rparr>,
     me_unknown = []\<rparr>)\<rparr>"

definition toy_maker_start :: stream_client where
  "toy_maker_start = newClient None default_connection True (unused_router default_connection)"

definition toy_maker :: stream_client where
  "toy_maker = fst (install 0 (fst (dial toy_maker_proto toy_dial toy_maker_start)))"

definition quoted_sample :: frame_spec where
  "quoted_sample = spec_from sample_params [\<lparr>Offset = 1250, QtyLots = 5200\<rparr>]
     [\<lparr>Offset = 1250, QtyLots = 3000\<rparr>, \<lparr>Offset = 1252, QtyLots = 1500\<rparr>]"

lemma quoted_sample: "quoteSpec sample_params = Inr quoted_sample"
  unfolding quoteSpec_Inr quoted_sample_def using sample_quoted by blast

lemma signed_sample:
  "\<exists>w. BuildAndSign toy_lib (Some never_done) quoted_sample (LiveSigner toy_signer) =
     Inr (w\<lparr>mf_Signature := replicate 64 9 @ [28]\<rparr>) \<and> \<not> hasUnknownFields (reflect_market_frame w)"
proof -
  obtain f where f: "encodeCompactFrame quoted_sample = Inr f" "valid_spec quoted_sample"
    using quoteSpec_valid [OF sample_quoted] encodeCompactFrame_ok by (auto simp: quoted_sample_def)
  have q: "fs_ChainID quoted_sample = 1" "fs_Protocol quoted_sample = 0xC3" "fs_Maker quoted_sample = 0xD4"
      "fs_Pair quoted_sample = sample_pair" "fs_BaseTick quoted_sample = 1250"
      "fs_Bids quoted_sample = [\<lparr>Offset = 0, QtyLots = 5200\<rparr>]"
      "fs_Asks quoted_sample = [\<lparr>Offset = 0, QtyLots = 3000\<rparr>, \<lparr>Offset = 2, QtyLots = 1500\<rparr>]"
    by (simp_all add: quoted_sample_def spec_from_def base_tick_def sample_params_def Let_def)
  have v: "ValidatePair sample_pair = Inr ()"
    by (simp add: ValidatePair_def sample_pair_def bad_scale_def not_less BitLen_le)
  have t: "nat_text 12500000 = ''12500000''" "nat_text 12520000 = ''12520000''"
      "nat_text 5200000000000000000 = ''5200000000000000000''" "nat_text 3000000000000000000 = ''3000000000000000000''"
      "nat_text 1500000000000000000 = ''1500000000000000000''"
    by (simp_all add: nat_text.simps digit_char_numeral)
  have short: "list_all short_text (map (\<lambda>l. level_text sample_pair (level_tick 1250 True l) l) (fs_Bids quoted_sample))"
      "list_all short_text (map (\<lambda>l. level_text sample_pair (level_tick 1250 False l) l) (fs_Asks quoted_sample))"
    by (simp_all add: q level_text_def level_tick_def short_text_def GetPrice_def GetAmount_def
        decimal_def big_String_def sample_pair_def priceScale_def t TrimRight_def)
  define d where "d = \<lparr>dom_ChainID = 1, dom_Protocol = 0xC3\<rparr>"
  define w where "w = wire_frame toy_lib quoted_sample f
    (map (\<lambda>l. level_text sample_pair (level_tick 1250 True l) l) (fs_Bids quoted_sample))
    (map (\<lambda>l. level_text sample_pair (level_tick 1250 False l) l) (fs_Asks quoted_sample))"
  have p: "Prepare toy_lib quoted_sample = Inr \<lparr>pf_payload = \<lparr>pay_Domain = d, pay_Maker = 0xD4, pay_Frame = f,
      pay_Digest = digest toy_lib d 0xD4 f\<rparr>, pf_wire = Some w\<rparr>"
    unfolding Prepare_Inr PrepareSigningPayload_Inr using f(1) short
    by (simp add: q v humanLevels_iff d_def w_def Let_def)
  have "signable d 0xD4 f"
    using f(1) by (auto simp: signable_def encodeCompactFrame_iff d_def)
  then have "SignFrame toy_lib (Some never_done) d 0xD4 f (LiveSigner toy_signer) =
      Inr \<lparr>sf_Frame = f, sf_Maker = 0xD4, sf_Signature = replicate 64 9 @ [28]\<rparr>"
    using toy_normalize toy_recovers by (simp add: SignFrame_Inr never_done_def toy_signer_def)
  with p have "BuildAndSign toy_lib (Some never_done) quoted_sample (LiveSigner toy_signer) =
      Inr (w\<lparr>mf_Signature := replicate 64 9 @ [28]\<rparr>)"
    by (simp add: BuildAndSign_def toy_lib_def)
  moreover have "\<not> hasUnknownFields (reflect_market_frame w)"
    by (simp add: w_def q wire_frame_def reflect_defs message_field_def list_field_def level_text_def)
  ultimately show ?thesis by blast
qed

lemma toy_maker_client:
  "sc_current toy_maker = Some 0 \<and> \<not> sc_stopped toy_maker \<and> cc_MaxWriteMessageBytes (sc_cfg toy_maker) = 524288"
  by code_simp

lemma toy_maker_write: "snd (write_message 0 [4] id toy_write toy_maker) = (True, None)"
  by code_simp

lemma toy_maker_publish: "\<exists>c. MakerPublish toy_lib toy_maker_proto (Some never_done) sample_params 0 toy_write toy_maker = (c, None)"
proof -
  obtain w where w: "BuildAndSign toy_lib (Some never_done) quoted_sample (LiveSigner toy_signer) =
      Inr (w\<lparr>mf_Signature := replicate 64 9 @ [28]\<rparr>)" "\<not> hasUnknownFields (reflect_market_frame w)"
    using signed_sample by blast
  have s: "shift_ctx 1 never_done = never_done" "pub_Signer sample_params = LiveSigner toy_signer"
    by (simp_all add: shift_ctx_def never_done_def fun_eq_iff sample_params_def)
  have "marshal_maker toy_maker_proto (sc_cfg toy_maker)
      (publish_envelope (w\<lparr>mf_Signature := replicate 64 9 @ [28]\<rparr>) 0) = Inr [4]"
    using w(2) toy_maker_client
    by (simp add: marshal_def publish_envelope_def reflect_maker_def reflect_market_frame_def toy_maker_proto_def toy_proto_def)
  then have "snd (Publish toy_maker_proto None (Some (w\<lparr>mf_Signature := replicate 64 9 @ [28]\<rparr>)) 0 toy_write toy_maker) = None"
    using toy_maker_client pair_of_snd [OF toy_maker_write]
    by (cases "write_message 0 [4] id toy_write toy_maker") (simp add: Publish_def nth_append)
  then show ?thesis
    using w(1) quoted_sample s by (cases "Publish toy_maker_proto None (Some (w\<lparr>mf_Signature := replicate 64 9 @ [28]\<rparr>)) 0 toy_write toy_maker")
      (simp add: MakerPublish_def never_done_def)
qed

theorem maker_publish_signed_quote_witness:
  "\<exists>c spec f m. MakerPublish toy_lib toy_maker_proto (Some never_done) sample_params 0 toy_write toy_maker = (c, None) \<and>
     quoteSpec sample_params = Inr spec \<and> encodeCompactFrame spec = Inr f \<and> describes toy_lib spec m"
proof -
  obtain c where c: "MakerPublish toy_lib toy_maker_proto (Some never_done) sample_params 0 toy_write toy_maker = (c, None)"
    using toy_maker_publish ..
  have "\<forall>m. CloneFrame toy_lib m = m" by (simp add: toy_lib_def)
  from maker_publish_signed_quote [OF this, where P = toy_maker_proto and cx = "Some never_done" and
      params = sample_params and now = 0 and io = toy_write and c = toy_maker] c
  show ?thesis by auto
qed

end
