(* ===== verification/Maker_Example.thy ===== *)
theory Maker_Example
  imports Public_API
begin

text \<open>
  The example maker application, \<open>examples/maker\<close>: its configuration and validation (\<open>config.go\<close>),
  the chain state it loads (\<open>state.go\<close>), the durable version policy and the next quote
  (\<open>quote.go\<close>), sending over the WebSocket (\<open>publish.go\<close>) or on chain (\<open>onchain.go\<close>), and exact
  token amounts (\<open>console.go\<close>). A file holds the configuration last written to it; each system
  call's failure is an argument. Log output is left out. The version policy is a step system whose
  invariant shows that no version is ever issued twice, across failed writes, crashes and restarts.
\<close>

subsection \<open>config.go\<close>

record maker_app_config =
  mac_ChainID :: u64
  mac_RPCURL :: string
  mac_APIKey :: string
  mac_PrivateKey :: string
  mac_TxPrivateKey :: string
  mac_Signer :: string
  mac_Protocol :: string
  mac_Maker :: string
  mac_PairID :: u32
  mac_BaseToken :: string
  mac_QuoteToken :: string
  mac_BaseDecimals :: u8
  mac_QuoteDecimals :: u8
  mac_PriceTickSize :: string
  mac_LotSize :: string
  mac_Bids :: "quote_level list"
  mac_Asks :: "quote_level list"
  mac_Major :: u32
  mac_Minor :: u16

datatype app_error =
    AppText string
  | AppWrap string app_error
  | AppIO string
  | AppGo go_error
  | AppDecay decay_error
  | AppSubmit submit_error
  | AppPublish publish_outcome publish_cause
  | AppStream stream_error
  | AppSdk sdk_error
  | AppCtx ctx_error
  | AppJoin "app_error list"

definition nonzero_address :: "hexlib \<Rightarrow> string \<Rightarrow> bool" where
  "nonzero_address H s \<longleftrightarrow> IsHexAddress H s \<and> HexToAddress H s \<noteq> 0"

text \<open>The five addresses are checked in the order of a Go map, so which bad one is named is not
  determined.\<close>

definition maker_app_validate :: "hexlib \<Rightarrow> bool \<Rightarrow> maker_app_config \<Rightarrow> app_error + unit" where
  "maker_app_validate H onchain c =
     reject (mac_ChainID c = 0) (AppText ''chain_id must be positive'')
    (reject (\<not> list_all (nonzero_address H) [mac_Protocol c, mac_Maker c, mac_Signer c, mac_BaseToken c, mac_QuoteToken c])
       (AppText ''invalid address'')
    (reject (mac_PairID c = 0 \<or> mac_RPCURL c = []) (AppText ''pair_id and RPC URL are required'')
    (reject (\<not> onchain \<and> mac_APIKey c = []) (AppText ''api_key is required for WebSocket publishing'')
    (reject (mac_Bids c = [] \<or> mac_Asks c = []) (AppText ''this example requires at least one bid and one ask'')
    (Inr ())))))"

text \<open>The key in memory: \<open>addr\<close> is the address of its public key, \<open>sign\<close> is \<open>crypto.Sign\<close>.\<close>

definition ctx_text :: "ctx_error \<Rightarrow> string" where
  "ctx_text e = (case e of Canceled \<Rightarrow> ''context canceled'' | DeadlineExceeded \<Rightarrow> ''context deadline exceeded'')"

definition localSigner :: "address \<Rightarrow> (bytes \<Rightarrow> string + bytes) \<Rightarrow> signer" where
  "localSigner addr sign = \<lparr>signer_Address = addr,
     SignDigest = (\<lambda>ctx d. case ctx 0 of Some e \<Rightarrow> Inl (ctx_text e) | None \<Rightarrow> sign d)\<rparr>"

text \<open>\<open>readConfig\<close>: the file that does not open, or what its first decode leaves, the error of that decode
  and what the second one meets.\<close>

definition readConfig :: "string + maker_app_config \<times> string option \<times> body_rest \<Rightarrow> app_error + maker_app_config" where
  "readConfig f = (case f of
     Inl e \<Rightarrow> Inl (AppIO e)
   | Inr (cfg, err, rest) \<Rightarrow>
      (case err of
         Some e \<Rightarrow> Inl (AppWrap ''decode configuration'' (AppIO e))
       | None \<Rightarrow> reject (rest \<noteq> BodyEOF) (AppText ''configuration must contain exactly one JSON object'') (Inr cfg)))"

fun first_failure :: "string option list \<Rightarrow> string option" where
  "first_failure [] = None"
| "first_failure (Some e # fs) = Some e"
| "first_failure (None # fs) = first_failure fs"

text \<open>\<open>lockConfig\<close> on whether the lock file exists; \<open>create\<close>, \<open>write\<close> and \<open>close\<close> are failures other than
  that it does.\<close>

definition lockConfig :: "string option \<Rightarrow> string option \<Rightarrow> string option \<Rightarrow> bool \<Rightarrow> bool \<times> app_error option" where
  "lockConfig create write close locked =
    (case (if locked then Some ''file exists'' else create) of
       Some e \<Rightarrow> (locked, Some (AppWrap ''acquire config lock (another run or stale .lock file)'' (AppIO e)))
     | None \<Rightarrow>
        (case first_failure [write, close] of
           Some e \<Rightarrow> (False, Some (AppIO e))
         | None \<Rightarrow> (True, None)))"

text \<open>The function \<open>lockConfig\<close> returns; that the removal succeeds is assumed, its error is ignored.\<close>

definition unlockConfig :: "bool \<Rightarrow> bool" where
  "unlockConfig locked = False"

lemma unlockConfig_free [simp]: "unlockConfig locked \<longleftrightarrow> False"
  by (simp add: unlockConfig_def)

text \<open>\<open>atomicJSON\<close>: the failures of its system calls in order, and the contents of the file.\<close>

record file_io =
  fio_Marshal :: "string option"
  fio_CreateTemp :: "string option"
  fio_Write :: "string option"
  fio_Sync :: "string option"
  fio_Close :: "string option"
  fio_OpenDir :: "string option"
  fio_Rename :: "string option"
  fio_SyncDir :: "string option"

definition atomicJSON :: "file_io \<Rightarrow> maker_app_config \<Rightarrow> maker_app_config \<Rightarrow> maker_app_config \<times> app_error option" where
  "atomicJSON io v disk =
    (case first_failure [fio_Marshal io, fio_CreateTemp io, fio_Write io, fio_Sync io, fio_Close io, fio_OpenDir io, fio_Rename io] of
       Some e \<Rightarrow> (disk, Some (AppIO e))
     | None \<Rightarrow> (v, map_option AppIO (fio_SyncDir io)))"

type_synonym version_state = "maker_app_config \<times> maker_app_config"

definition reserveVersion :: "file_io \<Rightarrow> version_state \<Rightarrow> version_state \<times> app_error option" where
  "reserveVersion io st = (case st of (c, disk) \<Rightarrow>
     if mac_Minor c > 255 then (st, Some (AppText ''minor version exhausted''))
     else
       let c' = c\<lparr>mac_Minor := mac_Minor c + 1\<rparr> in
       (case atomicJSON io c' disk of
          (disk', Some e) \<Rightarrow> ((c'\<lparr>mac_Minor := mac_Minor c\<rparr>, disk'), Some (AppWrap ''save next version before publish'' e))
        | (disk', None) \<Rightarrow> ((c', disk'), None)))"

subsection \<open>state.go\<close>

record block_head =
  bh_Number :: "int option"
  bh_Time :: u64

record chain_state =
  cs_Pair :: pair_params
  cs_Cutoff :: u64
  cs_Block :: string
  cs_FeeToken :: address
  cs_FeeRatePPM :: u64
  cs_BaseBalance :: string
  cs_QuoteBalance :: string

definition checked_head :: "go_error + block_head option \<Rightarrow> app_error + block_head \<times> int" where
  "checked_head res =
     attempt (wrap_err AppGo res) (\<lambda>ho.
     case ho of None \<Rightarrow> Inl (AppText ''RPC returned a block without a valid number'')
     | Some h \<Rightarrow>
        (case bh_Number h of None \<Rightarrow> Inl (AppText ''RPC returned a block without a valid number'')
         | Some n \<Rightarrow> reject (n < 0) (AppText ''RPC returned a block without a valid number'') (Inr (h, n))))"

definition state_call :: "chainlib \<Rightarrow> rpc \<Rightarrow> int \<Rightarrow> nat \<Rightarrow> address \<Rightarrow> string \<Rightarrow> bytes \<Rightarrow> nat \<Rightarrow> app_error + bytes" where
  "state_call L r number k to signature args n =
     attempt (wrap_err (AppWrap signature \<circ> AppGo) (CallContract r k
       \<lparr>msg_From = 0, msg_To = to, msg_Data = take 4 (Keccak256 (eth L) [ascii signature]) @ args\<rparr> (Some number))) (\<lambda>raw.
     reject (length raw \<noteq> n) (AppWrap signature (AppText ''unexpected ABI response length'')) (Inr raw))"

definition abi_word :: "bytes \<Rightarrow> nat \<Rightarrow> bytes" where
  "abi_word raw i = take 32 (drop (32 * i) raw)"

definition BytesToAddress :: "bytes \<Rightarrow> address" where
  "BytesToAddress b = word_of_int (big_SetBytes (drop (length b - 20) b))"

text \<open>\<open>decimals()\<close> and \<open>balanceOf(maker)\<close> of one token; conversions to machine integers truncate as
  in the source.\<close>

definition token_state :: "chainlib \<Rightarrow> rpc \<Rightarrow> int \<Rightarrow> nat \<Rightarrow> address \<Rightarrow> address \<Rightarrow> app_error + u8 \<times> string" where
  "token_state L r number k maker token =
     attempt (state_call L r number k token ''decimals()'' [] 32) (\<lambda>raw.
     let decimals = (ucast (word_of_int (big_SetBytes raw) :: u64) :: u8) in
     attempt (state_call L r number (k + 1) token ''balanceOf(address)'' (LeftPadBytes (eth L) (address_bytes maker) 32) 32) (\<lambda>raw.
     Inr (decimals, big_String (big_SetBytes raw))))"

definition loadState :: "chainlib \<Rightarrow> hexlib \<Rightarrow> rpc \<Rightarrow> go_error + block_head option \<Rightarrow> maker_app_config \<Rightarrow> app_error + chain_state" where
  "loadState L H r headRes c =
     attempt (checked_head headRes) (\<lambda>(h, number).
     let maker = HexToAddress H (mac_Maker c); proxy = HexToAddress H (mac_Protocol c) in
     attempt (state_call L r number 0 proxy ''makerConfigs(address)'' (LeftPadBytes (eth L) (address_bytes maker) 32) 64) (\<lambda>raw.
     let cutoff = (word_of_int (big_SetBytes (take 32 raw)) :: u64) in
     attempt (state_call L r number 1 proxy ''pairConfigs(uint32)''
        (LeftPadBytes (eth L) (big_Bytes (unat (mac_PairID c))) 32) 224) (\<lambda>raw.
     let base = BytesToAddress (abi_word raw 0); quote = BytesToAddress (abi_word raw 1) in
     attempt (token_state L r number 2 maker base) (\<lambda>(baseDecimals, baseBalance).
     attempt (token_state L r number 4 maker quote) (\<lambda>(quoteDecimals, quoteBalance).
     Inr \<lparr>cs_Pair = \<lparr>pp_PairID = mac_PairID c, pp_BaseToken = base, pp_QuoteToken = quote,
             pp_BaseDecimals = baseDecimals, pp_QuoteDecimals = quoteDecimals,
             pp_PriceTickSize = Some (big_SetBytes (abi_word raw 2)), pp_LotSize = Some (big_SetBytes (abi_word raw 3))\<rparr>,
          cs_Cutoff = cutoff, cs_Block = big_String number, cs_FeeToken = BytesToAddress (abi_word raw 5),
          cs_FeeRatePPM = word_of_int (big_SetBytes (abi_word raw 6)), cs_BaseBalance = baseBalance,
          cs_QuoteBalance = quoteBalance\<rparr>)))))"

subsection \<open>quote.go\<close>

record quote_io =
  qio_Head :: "go_error + block_head option"
  qio_Now :: u64
  qio_Rpc :: rpc
  qio_File :: file_io

definition next_quote :: "chainlib \<Rightarrow> hexlib \<Rightarrow> client \<Rightarrow> ctx \<Rightarrow> chain_state \<Rightarrow> signer_value \<Rightarrow> quote_io \<Rightarrow> maker_app_config \<Rightarrow>
    app_error + publish_params" where
  "next_quote L H contract ctx state signer io c =
     attempt (checked_head (qio_Head io)) (\<lambda>(h, number).
     let now = qio_Now io; updated = (if now < bh_Time h then now else bh_Time h) in
     reject (updated \<le> cs_Cutoff state \<or> updated > 0xFFFFFFFF)
       (AppText ''quote timestamp outside active maker lifecycle or uint32 range'')
    (attempt (wrap_err AppGo (ReadGlobalDecayConfig L (qio_Rpc io) contract (Some ctx) (Some number))) (\<lambda>decay.
     attempt (wrap_err AppDecay (DecayPPM (ucast updated) now decay)) (\<lambda>_.
     Inr \<lparr>pub_ChainID = mac_ChainID c, pub_Protocol = HexToAddress H (mac_Protocol c), pub_Maker = HexToAddress H (mac_Maker c),
       pub_Pair = cs_Pair state, pub_Bids = mac_Bids c, pub_Asks = mac_Asks c, pub_UpdatedAt = ucast updated,
       pub_MajorVersion = mac_Major c, pub_MinorVersion = ucast (mac_Minor c), pub_Signer = signer\<rparr>))))"

definition prepareNextQuote :: "chainlib \<Rightarrow> hexlib \<Rightarrow> client \<Rightarrow> ctx \<Rightarrow> chain_state \<Rightarrow> signer_value \<Rightarrow> quote_io \<Rightarrow> version_state \<Rightarrow>
    version_state \<times> (app_error + publish_params)" where
  "prepareNextQuote L H contract ctx state signer io st =
    (case next_quote L H contract ctx state signer io (fst st) of
       Inl e \<Rightarrow> (st, Inl e)
     | Inr params \<Rightarrow>
        (case reserveVersion (qio_File io) st of
           (st', Some e) \<Rightarrow> (st', Inl e)
         | (st', None) \<Rightarrow> (st', Inr params)))"

subsection \<open>publish.go\<close>

text \<open>What \<open>consumeFor\<close> selects, turn by turn: an event, the closed event channel with the reader's
  error, the timer or the context. An empty list is a wait that has not ended.\<close>

datatype consume_choice = GotEvent maker_event | EventsClosed stream_error | TimerFired | CallerDone ctx_error

fun consumeFor :: "consume_choice list \<Rightarrow> maker_event list \<times> app_error option option" where
  "consumeFor [] = ([], None)"
| "consumeFor (GotEvent e # cs) = (case consumeFor cs of (es, r) \<Rightarrow> (e # es, r))"
| "consumeFor (EventsClosed err # cs) = ([], Some (Some (if errors_Is err EOF
     then AppText ''maker connection closed before observation completed'' else AppStream err)))"
| "consumeFor (TimerFired # cs) = ([], Some None)"
| "consumeFor (CallerDone e # cs) = ([], Some (Some (AppCtx e)))"

text \<open>\<open>publishOutcome\<close>: the outcome of a PublishError, Unknown for any other error.\<close>

definition publishOutcome :: "app_error \<Rightarrow> publish_outcome" where
  "publishOutcome e = (case e of AppPublish out _ \<Rightarrow> out | _ \<Rightarrow> Unknown)"

record publish_io =
  pio_Quote :: quote_io
  pio_Send :: ctx
  pio_Millis :: int
  pio_Write :: write_io
  pio_Consumed :: "consume_choice list"

text \<open>The loop of \<open>publish\<close> over the frames still to send, with the params handed to \<open>Publish\<close> so far. The
  loop has not ended while \<open>consumeFor\<close> waits.\<close>

fun publish_loop :: "chainlib \<Rightarrow> hexlib \<Rightarrow> protolib \<Rightarrow> client \<Rightarrow> ctx \<Rightarrow> chain_state \<Rightarrow> signer_value \<Rightarrow> publish_io list \<Rightarrow>
    version_state \<Rightarrow> stream_client \<Rightarrow> (version_state \<times> stream_client) \<times> publish_params list \<times> app_error option option" where
  "publish_loop L H P contract ctx state signer [] st c = ((st, c), [], Some None)"
| "publish_loop L H P contract ctx state signer (io # ios) st c =
    (case prepareNextQuote L H contract ctx state signer (pio_Quote io) st of
       (st1, Inl e) \<Rightarrow> ((st1, c), [], Some (Some e))
     | (st1, Inr params) \<Rightarrow>
        (case MakerPublish (eth L) P (Some (pio_Send io)) params (pio_Millis io) (pio_Write io) c of
           (c1, Some (out, cause)) \<Rightarrow> ((st1, c1), [params], Some (Some (AppPublish out cause)))
         | (c1, None) \<Rightarrow>
            (case snd (consumeFor (pio_Consumed io)) of
               None \<Rightarrow> ((st1, c1), [params], None)
             | Some (Some e) \<Rightarrow> ((st1, c1), [params], Some (Some e))
             | Some None \<Rightarrow>
                (case publish_loop L H P contract ctx state signer ios st1 c1 of
                   (s, ps, r) \<Rightarrow> (s, params # ps, r)))))"

subsection \<open>onchain.go\<close>

text \<open>\<open>hash_of\<close> is \<open>tx.Hash\<close>. None is a wait for the receipt that does not end.\<close>

definition submitAndWait :: "chainlib \<Rightarrow> (tx \<Rightarrow> bytes) \<Rightarrow> rpc \<Rightarrow> client \<Rightarrow> ctx \<Rightarrow> transact_opts \<Rightarrow> publish_params \<Rightarrow> wait_obs \<Rightarrow>
    (tx option \<times> app_error option) option" where
  "submitAndWait L hash_of r contract ctx opts params obs =
    (let res = SubmitFrameUpdate L r False (Some contract) (Some opts) params in
     case sr_err res of
       Some e \<Rightarrow> Some (sr_tx res, Some (AppSubmit e))
     | None \<Rightarrow>
        (case sr_tx res of
           None \<Rightarrow> Some (None, Some (AppText ''submission returned no transaction''))
         | Some t \<Rightarrow>
             if opts_NoSend opts then Some (Some t, None)
             else
               (case WaitReceipt (Some ctx) (hash_of t) obs of
                  None \<Rightarrow> None
                | Some (Inl e) \<Rightarrow> Some (Some t, Some (AppWrap ''wait for transaction receipt'' (AppGo e)))
                | Some (Inr None) \<Rightarrow> Some (Some t, Some (AppText ''RPC returned no transaction receipt''))
                | Some (Inr (Some rcp)) \<Rightarrow>
                    if \<not> rc_Success rcp then Some (Some t, Some (AppText ''transaction failed on chain''))
                    else Some (Some t, None))))"

record submit_io =
  sio_Quote :: quote_io
  sio_Rpc :: rpc
  sio_Wait :: wait_obs
  sio_Interval :: "ctx_error option"

text \<open>The loop of \<open>submitOnChain\<close>; \<open>nonce_of\<close> is \<open>tx.Nonce\<close>. With NoSend the next transaction takes the
  following nonce, since the node's pending nonce does not move. A confirmed or signed transaction
  is listed. None: a receipt wait that does not end.\<close>

fun submit_loop :: "chainlib \<Rightarrow> hexlib \<Rightarrow> (tx \<Rightarrow> bytes) \<Rightarrow> (tx \<Rightarrow> u64) \<Rightarrow> client \<Rightarrow> ctx \<Rightarrow> chain_state \<Rightarrow> signer_value \<Rightarrow>
    submit_io list \<Rightarrow> transact_opts \<Rightarrow> version_state \<Rightarrow> (version_state \<times> tx list \<times> app_error option) option" where
  "submit_loop L H hash_of nonce_of contract ctx state signer [] opts st = Some (st, [], None)"
| "submit_loop L H hash_of nonce_of contract ctx state signer (io # ios) opts st =
    (case prepareNextQuote L H contract ctx state signer (sio_Quote io) st of
       (st1, Inl e) \<Rightarrow> Some (st1, [], Some e)
     | (st1, Inr params) \<Rightarrow>
        (case submitAndWait L hash_of (sio_Rpc io) contract ctx opts params (sio_Wait io) of
           None \<Rightarrow> None
         | Some (_, Some e) \<Rightarrow> Some (st1, [], Some e)
         | Some (None, None) \<Rightarrow> Some (st1, [], None)
         | Some (Some t, None) \<Rightarrow>
             let opts' = (if opts_NoSend opts then opts\<lparr>opts_Nonce := Some (uint (nonce_of t) + 1)\<rparr> else opts) in
             (case (if ios = [] then None else sio_Interval io) of
                Some e \<Rightarrow> Some (st1, [t], Some (AppCtx e))
              | None \<Rightarrow>
                 map_option (\<lambda>(s, ts, err). (s, t # ts, err))
                   (submit_loop L H hash_of nonce_of contract ctx state signer ios opts' st1))))"

text \<open>\<open>transactionOptions\<close>: \<open>parse_key\<close> is \<open>crypto.HexToECDSA\<close> and \<open>keyed\<close> is \<open>bind.NewKeyedTransactor\<close>.\<close>

definition TrimPrefix0x :: "string \<Rightarrow> string" where
  "TrimPrefix0x s = (if take 2 s = ''0x'' then drop 2 s else s)"

definition transactionOptions :: "(string \<Rightarrow> 'k option) \<Rightarrow> ('k \<Rightarrow> u64 \<Rightarrow> transact_opts) \<Rightarrow> ctx \<Rightarrow> maker_app_config \<Rightarrow> 'k \<Rightarrow> bool \<Rightarrow>
    app_error + transact_opts" where
  "transactionOptions parse_key keyed ctx c signerKey noSend =
     attempt (if mac_TxPrivateKey c = [] then Inr signerKey
       else case parse_key (TrimPrefix0x (mac_TxPrivateKey c)) of
         None \<Rightarrow> Inl (AppText ''invalid tx_private_key'') | Some key \<Rightarrow> Inr key) (\<lambda>key.
     Inr ((keyed key (mac_ChainID c))\<lparr>opts_Context := Some ctx, opts_NoSend := noSend\<rparr>))"

definition submitOnChain :: "chainlib \<Rightarrow> hexlib \<Rightarrow> (tx \<Rightarrow> bytes) \<Rightarrow> (tx \<Rightarrow> u64) \<Rightarrow> (string \<Rightarrow> 'k option) \<Rightarrow> ('k \<Rightarrow> u64 \<Rightarrow> transact_opts) \<Rightarrow>
    client \<Rightarrow> ctx \<Rightarrow> chain_state \<Rightarrow> signer_value \<Rightarrow> 'k \<Rightarrow> bool \<Rightarrow> submit_io list \<Rightarrow> version_state \<Rightarrow>
    (version_state \<times> tx list \<times> app_error option) option" where
  "submitOnChain L H hash_of nonce_of parse_key keyed contract ctx state signer key noSend ios st =
    (case transactionOptions parse_key keyed ctx (fst st) key noSend of
       Inl e \<Rightarrow> Some (st, [], Some e)
     | Inr opts \<Rightarrow> submit_loop L H hash_of nonce_of contract ctx state signer ios opts st)"

subsection \<open>main.go: what is refused before anything is sent\<close>

record maker_flags =
  mfl_Count :: int
  mfl_Interval :: int
  mfl_Observe :: int
  mfl_Timeout :: int
  mfl_LoadOnly :: bool
  mfl_OnChain :: bool
  mfl_NoSend :: bool

definition flags_ok :: "maker_flags \<Rightarrow> bool" where
  "flags_ok f \<longleftrightarrow> \<not> (mfl_NoSend f \<and> \<not> mfl_OnChain f) \<and>
     \<not> (mfl_Count f < 1 \<or> mfl_Count f > 60 \<or> mfl_Interval f \<le> 0 \<or> mfl_Observe f \<le> 0 \<or> mfl_Timeout f \<le> 0)"

definition maker_start :: "hexlib \<Rightarrow> (string \<Rightarrow> 'k option) \<Rightarrow> ('k \<Rightarrow> address) \<Rightarrow> maker_flags \<Rightarrow> maker_app_config \<Rightarrow> app_error + 'k" where
  "maker_start H parse_key address_of f c =
     attempt (maker_app_validate H (mfl_OnChain f) c) (\<lambda>_.
     reject (\<not> mfl_LoadOnly f \<and> uint (mac_Minor c) + mfl_Count f > 256) (AppText ''minor version would exceed 255'')
    (case parse_key (TrimPrefix0x (mac_PrivateKey c)) of
       None \<Rightarrow> Inl (AppText ''invalid frame_private_key'')
     | Some key \<Rightarrow>
         reject (address_of key \<noteq> HexToAddress H (mac_Signer c)) (AppText ''private key does not match frame_signer'')
        (Inr key)))"

subsection \<open>console.go\<close>

definition SetString10 :: "string \<Rightarrow> int option" where
  "SetString10 s = (case s of
     c # cs \<Rightarrow> if c = CHR ''-'' then map_option uminus (big_SetString cs)
       else if c = CHR ''+'' then big_SetString cs else big_SetString s
   | [] \<Rightarrow> None)"

definition tokenUnits :: "string \<Rightarrow> u8 \<Rightarrow> string" where
  "tokenUnits raw decimals =
    (case SetString10 raw of
       None \<Rightarrow> raw
     | Some v \<Rightarrow>
         if v < 0 then raw
         else
           let digits = big_String v in
           if decimals = 0 then digits
           else
             let scale = unat decimals;
                 digits = (if length digits \<le> scale then Repeat ''0'' (scale - length digits + 1) @ digits else digits);
                 point = length digits - scale;
                 fraction = TrimRight (drop point digits) ''0''
             in if fraction = [] then take point digits else take point digits @ ''.'' @ fraction)"

subsection \<open>Versions\<close>

lemma decreasing_distinct: "sorted_wrt (\<lambda>a b. f b < (f a :: nat)) xs \<Longrightarrow> distinct xs"
  by (induction xs) auto

lemma minor_next: "\<not> m > 255 \<Longrightarrow> unat (m + 1 :: u16) = unat m + 1 \<and> unat (ucast m :: u8) = unat m"
  by (simp add: word_less_nat_alt not_less unat_word_ariths unsigned_ucast_eq take_bit_eq_mod)

lemma reserveVersion_None:
  assumes "reserveVersion io (c, d) = ((c', d'), None)"
  shows "\<not> mac_Minor c > 255 \<and> c' = c\<lparr>mac_Minor := mac_Minor c + 1\<rparr> \<and> d' = c'"
  using assms by (auto simp: reserveVersion_def atomicJSON_def Let_def split: if_splits prod.splits option.splits)

lemma reserveVersion_Some:
  assumes "reserveVersion io (c, d) = ((c', d'), Some e)"
  shows "c' = c \<and> (d' = d \<or> \<not> mac_Minor c > 255 \<and> d' = c\<lparr>mac_Minor := mac_Minor c + 1\<rparr>)"
  using assms by (auto simp: reserveVersion_def atomicJSON_def Let_def split: if_splits prod.splits option.splits)

lemma prepareNextQuote_Inr:
  assumes "prepareNextQuote L H k ctx state signer io (c, d) = (st', Inr params)"
  shows "next_quote L H k ctx state signer io c = Inr params \<and> \<not> mac_Minor c > 255 \<and>
    st' = (c\<lparr>mac_Minor := mac_Minor c + 1\<rparr>, c\<lparr>mac_Minor := mac_Minor c + 1\<rparr>)"
proof -
  obtain st e where r: "reserveVersion (qio_File io) (c, d) = (st, e)" by (cases "reserveVersion (qio_File io) (c, d)")
  with assms have "next_quote L H k ctx state signer io c = Inr params" "e = None" "st' = st"
    by (auto simp: prepareNextQuote_def split: sum.splits option.splits)
  with r show ?thesis using reserveVersion_None [of "qio_File io" c d] by (cases st) auto
qed

lemma prepareNextQuote_Inl:
  assumes "prepareNextQuote L H k ctx state signer io (c, d) = ((c', d'), Inl e)"
  shows "c' = c \<and> (d' = d \<or> \<not> mac_Minor c > 255 \<and> d' = c\<lparr>mac_Minor := mac_Minor c + 1\<rparr>)"
proof (cases "next_quote L H k ctx state signer io c")
  case (Inr params)
  obtain st err where r: "reserveVersion (qio_File io) (c, d) = (st, err)" by (cases "reserveVersion (qio_File io) (c, d)")
  with assms Inr have "err \<noteq> None" "st = (c', d')"
    by (auto simp: prepareNextQuote_def split: option.splits)
  with r show ?thesis using reserveVersion_Some by blast
qed (use assms in \<open>simp add: prepareNextQuote_def\<close>)

lemma checked_head_Inr: "checked_head res = Inr (h, n) \<longleftrightarrow> res = Inr (Some h) \<and> bh_Number h = Some n \<and> 0 \<le> n"
  by (cases res) (auto simp: checked_head_def attempt_def not_less split: option.splits)

lemma if_less_min: "(if a < b then a else b) = min a (b :: 'a :: linorder)"
  by (auto simp: min_def)

lemma timestamp_fits:
  assumes "x \<le> 0xFFFFFFFF"
  shows "ucast (ucast (x :: u64) :: u32) = x"
proof -
  have "x < 0x100000000" using assms by (simp add: word_le_nat_alt word_less_nat_alt)
  then have "x mod 0x100000000 = x" by (rule mod_word_less)
  then show ?thesis
    by (simp add: word_unat_eq_iff unsigned_ucast_eq take_bit_eq_mod flip: unat_mod_distrib)
qed

lemma next_quote_Inr:
  assumes "next_quote L H k ctx state signer io c = Inr params"
  obtains h n decay ppm where "qio_Head io = Inr (Some h)" "bh_Number h = Some n" "0 \<le> n"
    "ucast (pub_UpdatedAt params) = min (qio_Now io) (bh_Time h)" "cs_Cutoff state < ucast (pub_UpdatedAt params)"
    "ReadGlobalDecayConfig L (qio_Rpc io) k (Some ctx) (Some n) = Inr decay"
    "DecayPPM (pub_UpdatedAt params) (qio_Now io) decay = Inr ppm"
    "pub_MajorVersion params = mac_Major c" "pub_MinorVersion params = ucast (mac_Minor c)"
    "pub_Pair params = cs_Pair state" "pub_Bids params = mac_Bids c" "pub_Asks params = mac_Asks c" "pub_Signer params = signer"
proof -
  obtain h n decay ppm where h: "qio_Head io = Inr (Some h)" "bh_Number h = Some n" "0 \<le> n"
      "ReadGlobalDecayConfig L (qio_Rpc io) k (Some ctx) (Some n) = Inr decay"
    and u: "\<not> min (qio_Now io) (bh_Time h) \<le> cs_Cutoff state" "\<not> min (qio_Now io) (bh_Time h) > 0xFFFFFFFF"
      "DecayPPM (ucast (min (qio_Now io) (bh_Time h))) (qio_Now io) decay = Inr ppm"
    and p: "params = \<lparr>pub_ChainID = mac_ChainID c, pub_Protocol = HexToAddress H (mac_Protocol c),
       pub_Maker = HexToAddress H (mac_Maker c), pub_Pair = cs_Pair state, pub_Bids = mac_Bids c, pub_Asks = mac_Asks c,
       pub_UpdatedAt = ucast (min (qio_Now io) (bh_Time h)),
       pub_MajorVersion = mac_Major c, pub_MinorVersion = ucast (mac_Minor c), pub_Signer = signer\<rparr>"
    using assms
    by (auto simp: next_quote_def attempt_Inr checked_head_Inr Let_def if_less_min)
  have "ucast (ucast (min (qio_Now io) (bh_Time h)) :: u32) = min (qio_Now io) (bh_Time h)"
    using u(2) by (intro timestamp_fits) (simp only: not_less)
  with h u p show ?thesis by (intro that [of h n decay ppm]) (simp_all add: not_le)
qed

lemma next_quote_version:
  assumes "next_quote L H k ctx state signer io c = Inr params"
  shows "pub_MajorVersion params = mac_Major c \<and> pub_MinorVersion params = ucast (mac_Minor c)"
  using assms by (rule next_quote_Inr) blast

text \<open>The life of a configuration file under the version policy: quotes prepared with whatever
  failures, restarts that read the file again, and a crash that cuts a reservation off after the
  rename. The configuration lock keeps other processes out.\<close>

record version_world =
  vw_cfg :: maker_app_config
  vw_disk :: maker_app_config
  vw_issued :: "(u32 \<times> u8) list"

inductive version_step :: "chainlib \<Rightarrow> hexlib \<Rightarrow> version_world \<Rightarrow> version_world \<Rightarrow> bool" for L H where
  quoted: "prepareNextQuote L H k ctx state signer io (vw_cfg w, vw_disk w) = ((c, d), Inr params) \<Longrightarrow>
    version_step L H w \<lparr>vw_cfg = c, vw_disk = d,
      vw_issued = (pub_MajorVersion params, pub_MinorVersion params) # vw_issued w\<rparr>"
| refused: "prepareNextQuote L H k ctx state signer io (vw_cfg w, vw_disk w) = ((c, d), Inl e) \<Longrightarrow>
    version_step L H w (w\<lparr>vw_cfg := c, vw_disk := d\<rparr>)"
| restarted: "version_step L H w (w\<lparr>vw_cfg := vw_disk w\<rparr>)"
| crashed: "\<not> mac_Minor (vw_cfg w) > 255 \<Longrightarrow> c = (vw_cfg w)\<lparr>mac_Minor := mac_Minor (vw_cfg w) + 1\<rparr> \<Longrightarrow>
    version_step L H w (w\<lparr>vw_cfg := c, vw_disk := c\<rparr>)"

definition fresh_file :: "version_world \<Rightarrow> bool" where
  "fresh_file w \<longleftrightarrow> vw_cfg w = vw_disk w \<and> vw_issued w = []"

definition versions_ok :: "version_world \<Rightarrow> bool" where
  "versions_ok w \<longleftrightarrow> mac_Major (vw_cfg w) = mac_Major (vw_disk w) \<and>
     unat (mac_Minor (vw_cfg w)) \<le> unat (mac_Minor (vw_disk w)) \<and>
     (\<forall>v\<in>set (vw_issued w). fst v = mac_Major (vw_cfg w) \<and> unat (snd v) < unat (mac_Minor (vw_cfg w))) \<and>
     sorted_wrt (\<lambda>a b. unat (snd b) < unat (snd a)) (vw_issued w)"

lemma version_step_ok:
  assumes "versions_ok w" "version_step L H w w'"
  shows "versions_ok w'"
  using assms(2)
proof (cases rule: version_step.cases)
  case (quoted k ctx state signer io c d params)
  note q = prepareNextQuote_Inr [OF quoted(2)]
  then have "pub_MajorVersion params = mac_Major (vw_cfg w)" "pub_MinorVersion params = ucast (mac_Minor (vw_cfg w))"
    using next_quote_version by blast+
  with q quoted(1) assms(1) minor_next [of "mac_Minor (vw_cfg w)"] show ?thesis
    by (auto simp: versions_ok_def less_Suc_eq)
next
  case (refused k ctx state signer io c d e)
  with prepareNextQuote_Inl [OF refused(2)] assms(1) minor_next [of "mac_Minor (vw_cfg w)"] show ?thesis
    by (auto simp: versions_ok_def)
next
  case restarted
  with assms(1) show ?thesis by (auto simp: versions_ok_def)
next
  case (crashed c)
  with assms(1) minor_next [of "mac_Minor (vw_cfg w)"] show ?thesis by (auto simp: versions_ok_def less_Suc_eq)
qed

interpretation versions: step_system fresh_file "version_step L H" versions_ok for L H
  by unfold_locales (simp add: fresh_file_def versions_ok_def, rule version_step_ok)

text \<open>C19: However quotes are prepared, fail to save, crash or restart, the versions the application
  hands to signing are strictly increasing, and the file already holds a later version than every
  one of them; so no version is ever used twice.\<close>

theorem versions_never_reused:
  assumes "fresh_file w0" "(version_step L H)\<^sup>*\<^sup>* w0 w"
  shows "sorted_wrt (\<lambda>later earlier. fst later = fst earlier \<and> unat (snd earlier) < unat (snd later)) (vw_issued w) \<and>
    distinct (vw_issued w) \<and>
    (\<forall>v\<in>set (vw_issued w). fst v = mac_Major (vw_disk w) \<and> unat (snd v) < unat (mac_Minor (vw_disk w)))"
proof -
  have ok: "versions_ok w" using versions.reached_inv [OF assms] .
  then have all: "\<forall>v\<in>set (vw_issued w). fst v = mac_Major (vw_disk w) \<and> unat (snd v) < unat (mac_Minor (vw_disk w))"
    by (auto simp: versions_ok_def)
  have s: "sorted_wrt (\<lambda>a b. unat (snd b) < unat (snd a)) (vw_issued w)" using ok by (simp add: versions_ok_def)
  then have "distinct (vw_issued w)" by (rule decreasing_distinct)
  moreover have "sorted_wrt (\<lambda>later earlier. fst later = fst earlier \<and> unat (snd earlier) < unat (snd later)) (vw_issued w)"
    using s by (rule sorted_wrt_mono_rel [rotated]) (use all in auto)
  ultimately show ?thesis using all by simp
qed

definition toy_decay_lib :: chainlib where
  "toy_decay_lib = echo_lib\<lparr>UnpackContract := (\<lambda>m b. Inr [VU32 10, VU32 20, VU32 30, VU32 1000])\<rparr>"

definition toy_files :: file_io where
  "toy_files = \<lparr>fio_Marshal = None, fio_CreateTemp = None, fio_Write = None, fio_Sync = None, fio_Close = None,
     fio_OpenDir = None, fio_Rename = None, fio_SyncDir = None\<rparr>"

definition toy_app :: maker_app_config where
  "toy_app = \<lparr>mac_ChainID = 1, mac_RPCURL = ''http'', mac_APIKey = ''key'', mac_PrivateKey = [], mac_TxPrivateKey = [],
     mac_Signer = [], mac_Protocol = [], mac_Maker = [], mac_PairID = 7, mac_BaseToken = [], mac_QuoteToken = [],
     mac_BaseDecimals = 18, mac_QuoteDecimals = 6, mac_PriceTickSize = [], mac_LotSize = [],
     mac_Bids = [], mac_Asks = [], mac_Major = 3, mac_Minor = 254\<rparr>"

definition toy_state :: chain_state where
  "toy_state = \<lparr>cs_Pair = sample_pair, cs_Cutoff = 5, cs_Block = [], cs_FeeToken = 0, cs_FeeRatePPM = 0,
     cs_BaseBalance = [], cs_QuoteBalance = []\<rparr>"

definition toy_quote_io :: quote_io where
  "toy_quote_io = \<lparr>qio_Head = Inr (Some \<lparr>bh_Number = Some 100, bh_Time = 1000\<rparr>), qio_Now = 1004, qio_Rpc = silent_rpc,
     qio_File = toy_files\<rparr>"

definition toy_versions :: version_world where
  "toy_versions = \<lparr>vw_cfg = toy_app, vw_disk = toy_app, vw_issued = []\<rparr>"

lemma toy_next_quote:
  "\<exists>params. next_quote toy_decay_lib toy_hex sample_client never_done toy_state (LiveSigner toy_signer) toy_quote_io c = Inr params \<and>
     pub_MajorVersion params = mac_Major c \<and> pub_MinorVersion params = ucast (mac_Minor c)"
proof -
  have "ReadGlobalDecayConfig toy_decay_lib silent_rpc sample_client (Some never_done) (Some 100) =
      Inr \<lparr>DecayStartOffsetSeconds = 10, DecayEndOffsetSeconds = 20, MaxAge = 30, MaxDecayPpm = 1000\<rparr>"
    by (simp add: ReadGlobalDecayConfig_def validateBlock_def read_proxy_def toy_decay_lib_def echo_lib_def silent_rpc_def
        as_u32_def Validate_def PPMDenominator_def reject_def Let_def)
  then show ?thesis
    by (simp add: next_quote_def toy_quote_io_def checked_head_def toy_state_def DecayPPM_def Validate_def PPMDenominator_def
        reject_def Let_def)
qed

lemma toy_prepares:
  assumes "\<not> mac_Minor c > 255"
  shows "\<exists>params. prepareNextQuote toy_decay_lib toy_hex sample_client never_done toy_state (LiveSigner toy_signer) toy_quote_io (c, d) =
      ((c\<lparr>mac_Minor := mac_Minor c + 1\<rparr>, c\<lparr>mac_Minor := mac_Minor c + 1\<rparr>), Inr params) \<and>
    pub_MajorVersion params = mac_Major c \<and> pub_MinorVersion params = ucast (mac_Minor c)"
proof -
  have f: "qio_File toy_quote_io = toy_files" by (simp add: toy_quote_io_def)
  obtain params where "next_quote toy_decay_lib toy_hex sample_client never_done toy_state (LiveSigner toy_signer) toy_quote_io c = Inr params"
      "pub_MajorVersion params = mac_Major c" "pub_MinorVersion params = ucast (mac_Minor c)"
    using toy_next_quote by blast
  then show ?thesis
    using assms by (simp add: prepareNextQuote_def reserveVersion_def atomicJSON_def f toy_files_def Let_def)
qed

lemma toy_version_run:
  "\<exists>w. (version_step toy_decay_lib toy_hex)\<^sup>*\<^sup>* toy_versions w \<and> vw_issued w = [(3, 255), (3, 254)] \<and> mac_Minor (vw_disk w) = 256"
proof -
  define c1 c2 where "c1 = toy_app\<lparr>mac_Minor := 255\<rparr>" and "c2 = toy_app\<lparr>mac_Minor := 256\<rparr>"
  define w1 w2 where "w1 = \<lparr>vw_cfg = c1, vw_disk = c1, vw_issued = [(3, 254)]\<rparr>"
    and "w2 = \<lparr>vw_cfg = c2, vw_disk = c2, vw_issued = [(3, 255), (3, 254)]\<rparr>"
  have s: "mac_Minor toy_app = 254" "mac_Major toy_app = 3" by (simp_all add: toy_app_def)
  have "version_step toy_decay_lib toy_hex toy_versions w1"
    using toy_prepares [of toy_app toy_app] version_step.quoted [where w = toy_versions and c = c1 and d = c1]
    by (fastforce simp: toy_versions_def w1_def c1_def s)
  moreover have "version_step toy_decay_lib toy_hex w1 (w1\<lparr>vw_cfg := vw_disk w1\<rparr>)" by (rule version_step.restarted)
  moreover have "w1\<lparr>vw_cfg := vw_disk w1\<rparr> = w1" by (simp add: w1_def)
  moreover have "version_step toy_decay_lib toy_hex w1 w2"
    using toy_prepares [of c1 c1] version_step.quoted [where w = w1 and c = c2 and d = c2]
    by (fastforce simp: w1_def w2_def c1_def c2_def s)
  ultimately have "(version_step toy_decay_lib toy_hex)\<^sup>*\<^sup>* toy_versions w2"
    by (metis converse_rtranclp_into_rtranclp r_into_rtranclp)
  then show ?thesis by (auto simp: w2_def c2_def)
qed

theorem versions_never_reused_witness:
  "\<exists>w. (version_step toy_decay_lib toy_hex)\<^sup>*\<^sup>* toy_versions w \<and> vw_issued w = [(3, 255), (3, 254)] \<and> distinct (vw_issued w)"
proof -
  obtain w where w: "(version_step toy_decay_lib toy_hex)\<^sup>*\<^sup>* toy_versions w" "vw_issued w = [(3, 255), (3, 254)]"
    using toy_version_run by blast
  have "fresh_file toy_versions" by (simp add: fresh_file_def toy_versions_def)
  from versions_never_reused [OF this w(1)] w show ?thesis by blast
qed

text \<open>A quote that prepareNextQuote returns carries the earlier of the local time and the block
  time, exactly, after the maker's cutoff and young enough for the decay configuration read at that
  block; its version is the reserved one without truncation; and the file on disk already holds the
  next version.\<close>

theorem prepared_quote_timely:
  assumes "prepareNextQuote L H k ctx state signer io (c, d) = ((c', d'), Inr params)"
  shows "\<exists>h n decay ppm. qio_Head io = Inr (Some h) \<and> bh_Number h = Some n \<and>
    unat (pub_UpdatedAt params) = min (unat (qio_Now io)) (unat (bh_Time h)) \<and> unat (cs_Cutoff state) < unat (pub_UpdatedAt params) \<and>
    ReadGlobalDecayConfig L (qio_Rpc io) k (Some ctx) (Some n) = Inr decay \<and>
    DecayPPM (pub_UpdatedAt params) (qio_Now io) decay = Inr ppm \<and>
    pub_MajorVersion params = mac_Major c \<and> unat (pub_MinorVersion params) = unat (mac_Minor c) \<and>
    d' = c' \<and> c' = c\<lparr>mac_Minor := mac_Minor c + 1\<rparr> \<and> unat (mac_Minor d') = unat (pub_MinorVersion params) + 1"
proof -
  note p = prepareNextQuote_Inr [OF assms]
  have up: "unat (ucast (x :: u32) :: u64) = unat x" for x
    using unsigned_less [of x, where ?'a = nat] by (simp add: unsigned_ucast_eq take_bit_eq_mod)
  obtain h n decay ppm where h: "qio_Head io = Inr (Some h)" "bh_Number h = Some n"
      "ucast (pub_UpdatedAt params) = min (qio_Now io) (bh_Time h)" "cs_Cutoff state < ucast (pub_UpdatedAt params)"
      "ReadGlobalDecayConfig L (qio_Rpc io) k (Some ctx) (Some n) = Inr decay"
      "DecayPPM (pub_UpdatedAt params) (qio_Now io) decay = Inr ppm"
      "pub_MajorVersion params = mac_Major c" "pub_MinorVersion params = ucast (mac_Minor c)"
    using next_quote_Inr [of L H k ctx state signer io c params] p by metis
  have "unat (pub_UpdatedAt params) = unat (min (qio_Now io) (bh_Time h))" using h(3) up by metis
  also have "\<dots> = min (unat (qio_Now io)) (unat (bh_Time h))" by (simp add: min_def word_le_nat_alt)
  finally have "unat (pub_UpdatedAt params) = min (unat (qio_Now io)) (unat (bh_Time h))" .
  moreover have "unat (cs_Cutoff state) < unat (pub_UpdatedAt params)" using h(4) by (simp add: word_less_nat_alt up)
  ultimately show ?thesis using h p minor_next [of "mac_Minor c"] by auto
qed

theorem prepared_quote_timely_witness:
  "\<exists>params c'. prepareNextQuote toy_decay_lib toy_hex sample_client never_done toy_state (LiveSigner toy_signer) toy_quote_io (toy_app, toy_app) =
     ((c', c'), Inr params) \<and> unat (pub_UpdatedAt params) = 1000 \<and> unat (mac_Minor c') = 255"
proof -
  obtain params c' where p: "prepareNextQuote toy_decay_lib toy_hex sample_client never_done toy_state (LiveSigner toy_signer) toy_quote_io (toy_app, toy_app) =
      ((c', c'), Inr params)"
    using toy_prepares [of toy_app toy_app] by (auto simp: toy_app_def)
  from prepared_quote_timely [OF p] p show ?thesis
    by (auto simp: toy_quote_io_def toy_app_def)
qed

subsection \<open>Amounts and submissions\<close>

lemma decimal_digits:
  assumes "0 < k" and s: "s = (if length (nat_text n) \<le> k then Repeat ''0'' (k - length (nat_text n) + 1) @ nat_text n else nat_text n)"
  shows "decimal (int n) (int k) =
    (let f = TrimRight (drop (length s - k) s) ''0'' in
     if f = [] then take (length s - k) s else take (length s - k) s @ ''.'' @ f)"
proof -
  have pad: "(if int (length (nat_text n)) \<le> int k then Repeat ''0'' (nat (int k + 1 - int (length (nat_text n)))) @ nat_text n
      else nat_text n) = s"
    unfolding s by (auto simp: nat_diff_distrib Suc_diff_le nat_add_distrib)
  have "list_all is_digit s" by (simp add: s nat_text_digits)
  moreover have "take (length s - k) s \<noteq> []"
    by (auto simp: s Repeat_def length_concat sum_list_replicate)
  moreover have "decimal (int n) (int k) = TrimRight (TrimRight (take (length s - k) s @ ''.'' @ drop (length s - k) s) ''0'') ''.''"
  proof -
    have "(int n < 0) = False" "(int k \<le> 0) = False" using assms(1) by simp_all
    then show ?thesis unfolding decimal_def big_String_def Let_def by (simp only: if_False nat_int pad)
  qed
  ultimately show ?thesis using decimal_text [of "take (length s - k) s" "drop (length s - k) s"] by simp
qed

text \<open>The amounts the application prints are exact: tokenUnits writes a raw integer with a token's
  decimals as the same text as the SDK's own decimal rendering, a plain decimal whose value is
  the integer divided by the power of ten.\<close>

theorem token_units_exact:
  "tokenUnits (nat_text n) d = decimal (int n) (uint d) \<and>
   plain_decimal (tokenUnits (nat_text n) d) \<and> decimal_rat (tokenUnits (nat_text n) d) = of_nat n / 10 ^ unat d"
proof -
  let ?s0 = "nat_text n" and ?k = "unat d"
  have parse: "SetString10 ?s0 = Some (int n)"
  proof -
    obtain c cs where c: "?s0 = c # cs" using nat_text_not_Nil by (cases ?s0) auto
    then have "is_digit c" using nat_text_digits [of n] by simp
    then have "c \<noteq> CHR ''-''" "c \<noteq> CHR ''+''" by (auto simp: is_digit_def)
    moreover have "big_SetString ?s0 = Some (int n)" by (simp add: big_SetString_def nat_text_digits)
    ultimately show ?thesis using c by (simp add: SetString10_def)
  qed
  have d: "uint d = int ?k" by simp
  have eq: "tokenUnits ?s0 d = decimal (int n) (uint d)"
  proof (cases "d = 0")
    case True
    then show ?thesis by (simp add: tokenUnits_def parse decimal_def big_String_def Repeat_def)
  next
    case False
    then have "0 < ?k" by (simp add: unat_gt_0)
    from decimal_digits [OF this refl, of n] False show ?thesis
      unfolding d by (simp add: tokenUnits_def parse big_String_def Let_def)
  qed
  show ?thesis using eq decimal_exact_value [of "int n" "uint d"] by (simp add: power_int_def)
qed

lemma publish_loop_versions:
  assumes "publish_loop L H P k ctx state signer ios st cl = (s, ps, r)"
  shows "map (\<lambda>p. (pub_MajorVersion p, unat (pub_MinorVersion p))) ps =
      map (\<lambda>i. (mac_Major (fst st), i)) [unat (mac_Minor (fst st))..<unat (mac_Minor (fst st)) + length ps] \<and>
    length ps \<le> length ios"
  using assms
proof (induction ios arbitrary: st cl s ps r)
  case (Cons io ios)
  obtain st1 q where p: "prepareNextQuote L H k ctx state signer (pio_Quote io) st = (st1, q)"
    by (cases "prepareNextQuote L H k ctx state signer (pio_Quote io) st")
  show ?case
  proof (cases q)
    case (Inl e)
    then show ?thesis using Cons.prems p by auto
  next
    case (Inr params)
    obtain c d where st: "st = (c, d)" by (cases st)
    note q = prepareNextQuote_Inr [of L H k ctx state signer "pio_Quote io" c d st1 params]
    have v: "pub_MajorVersion params = mac_Major c" "unat (pub_MinorVersion params) = unat (mac_Minor c)"
        "mac_Major (fst st1) = mac_Major c" "unat (mac_Minor (fst st1)) = Suc (unat (mac_Minor c))"
      using q p Inr st minor_next [of "mac_Minor c"] next_quote_version [of L H k ctx state signer "pio_Quote io" c params]
      by simp_all
    obtain c1 o1 where m: "MakerPublish (eth L) P (Some (pio_Send io)) params (pio_Millis io) (pio_Write io) cl = (c1, o1)"
      by (cases "MakerPublish (eth L) P (Some (pio_Send io)) params (pio_Millis io) (pio_Write io) cl")
    obtain s2 ps2 r2 where rest: "publish_loop L H P k ctx state signer ios st1 c1 = (s2, ps2, r2)" by (metis prod_cases3)
    have "ps = [params] \<or> ps = params # ps2"
      using Cons.prems p Inr m rest by (auto split: option.splits prod.splits)
    moreover have "[m..<m + Suc j] = m # [Suc m..<Suc m + j]" for m j :: nat by (simp add: upt_conv_Cons)
    ultimately show ?thesis using Cons.IH [OF rest] v st by auto
  qed
qed simp

text \<open>One run of the publishing loop hands the SDK at most one quote per requested frame, and
  their versions are consecutive, starting at the configuration's next version.\<close>

theorem published_versions_consecutive:
  "case publish_loop L H P k ctx state signer ios st cl of (s, ps, r) \<Rightarrow>
     map (\<lambda>p. (pub_MajorVersion p, unat (pub_MinorVersion p))) ps =
       map (\<lambda>i. (mac_Major (fst st), i)) [unat (mac_Minor (fst st))..<unat (mac_Minor (fst st)) + length ps] \<and>
     length ps \<le> length ios"
  by (cases "publish_loop L H P k ctx state signer ios st cl") (simp add: publish_loop_versions)

lemma transact_sent:
  assumes "honours_no_send L" "tr_tx (transact L r k (Some opts) to data) = Some t"
  shows "tr_sent (transact L r k (Some opts) to data) = (if opts_NoSend opts then [] else [t])"
proof -
  obtain local where "copyOpts (Some opts) = Inr local" using assms(2) by (auto simp: transact_def failed_def split: sum.splits)
  moreover from this have "opts_NoSend local = opts_NoSend opts" by (auto simp: copyOpts_def)
  moreover have "snd (RawTransact L (local\<lparr>opts_NoSend := True\<rparr>) to data sg) = []" for sg
    using assms(1) by (simp add: honours_no_send_def)
  ultimately show ?thesis
    using assms(2) by (auto simp: transact_def failed_def Let_def split: sum.splits option.splits prod.splits if_splits) (metis snd_conv)+
qed

lemma submit_sent:
  assumes quiet: "honours_no_send L" and assms: "sr_tx (SubmitFrameUpdate L r False (Some k) (Some opts) params) = Some t"
  shows "sr_sent (SubmitFrameUpdate L r False (Some k) (Some opts) params) = (if opts_NoSend opts then [] else [t])"
proof -
  define ctx where "ctx = (case opts_Context opts of None \<Rightarrow> (\<lambda>_. None) | Some x \<Rightarrow> x)"
  let ?o = "opts\<lparr>opts_Context := map_option (shift_ctx 3) (opts_Context opts)\<rparr>"
  have sub: "SubmitFrameUpdate L r False (Some k) (Some opts) params = (case sign_quote L (shift_ctx 1 ctx) params of
      Inl e \<Rightarrow> submit_failed e
    | Inr v \<Rightarrow> let res = UpdateFrameBySig L r k (Some ?o) v
       in \<lparr>sr_tx = tr_tx res, sr_err = map_option SubmitProtocol (tr_err res), sr_sent = tr_sent res\<rparr>)"
    using assms by (simp add: SubmitFrameUpdate_def ctx_def [symmetric]  submit_failed_def Let_def
        split: if_splits option.splits)
  obtain v where v: "sign_quote L (shift_ctx 1 ctx) params = Inr v"
    using assms unfolding sub by (auto simp: submit_failed_def split: sum.splits)
  have "tr_tx (UpdateFrameBySig L r k (Some ?o) v) = Some t" using assms unfolding sub v by (simp add: Let_def)
  then obtain data where "UpdateFrameBySig L r k (Some ?o) v = transact L r k (Some ?o) (cl_Proxy k) data"
    by (auto simp: UpdateFrameBySig_def failed_def split: sum.splits)
  with assms transact_sent [OF quiet, of r k ?o] show ?thesis unfolding sub v by (simp add: Let_def )
qed

text \<open>A direct submission succeeds only with a transaction: with NoSend nothing was broadcast,
  otherwise exactly that transaction was, and its receipt reports success.\<close>

lemma submission_confirmed:
  assumes "honours_no_send L"
  shows "case submitAndWait L hash_of r k ctx opts params obs of
     Some (None, None) \<Rightarrow> False
   | Some (Some t, None) \<Rightarrow>
       (if opts_NoSend opts then sr_sent (SubmitFrameUpdate L r False (Some k) (Some opts) params) = []
        else sr_sent (SubmitFrameUpdate L r False (Some k) (Some opts) params) = [t] \<and>
          (\<exists>rcp. WaitReceipt (Some ctx) (hash_of t) obs = Some (Inr (Some rcp)) \<and> rc_Success rcp))
   | _ \<Rightarrow> True"
  using submit_sent [OF assms, of r k opts params]
  by (auto simp: submitAndWait_def Let_def split: option.splits sum.splits if_splits)

end
