(* ===== verification/Maker_Events.thy ===== *)
theory Maker_Events
  imports Maker_Example "HOL-Library.Sublist"
begin

text \<open>
  The event queue of a maker's stream, as its single consumer sees it: \<open>emits c c'\<close> says that the
  events waiting in \<open>c\<close> still wait in \<open>c'\<close>, in order, with new ones behind them, and that a stopped
  client adds none. Every step of the concurrent system of a maker is such a step, except a call of
  \<open>Next\<close>, which takes the first event. A stopped maker's run loop has a rank that its next step
  lowers, so the loop runs to its end without help from any caller.
\<close>

definition maker_buf :: "stream_client \<Rightarrow> maker_event list" where
  "maker_buf c = gc_buf (sc_makerEvents c)"

definition emits :: "stream_client \<Rightarrow> stream_client \<Rightarrow> bool" where
  "emits c c' \<longleftrightarrow> prefix (maker_buf c) (maker_buf c') \<and>
     (sc_stopped c \<longrightarrow> sc_stopped c' \<and> maker_buf c' = maker_buf c)"

lemma emits_refl [simp, intro]: "emits c c"
  by (simp add: emits_def)

lemma emits_trans: "emits a b \<Longrightarrow> emits b c \<Longrightarrow> emits a c"
  by (auto simp: emits_def intro: prefix_order.trans)

lemma emits_same: "maker_buf c' = maker_buf c \<Longrightarrow> sc_stopped c' = sc_stopped c \<Longrightarrow> emits c c'"
  by (simp add: emits_def)

lemma maker_buf_frame [simp]:
  "maker_buf (c\<lparr>sc_router := r\<rparr>) = maker_buf c" "maker_buf (c\<lparr>sc_replies := rs\<rparr>) = maker_buf c"
  "maker_buf (c\<lparr>sc_nextReply := n\<rparr>) = maker_buf c" "maker_buf (c\<lparr>sc_routerEvents := m\<rparr>) = maker_buf c"
  "maker_buf (c\<lparr>sc_sessions := ss\<rparr>) = maker_buf c" "maker_buf (c\<lparr>sc_stats := st\<rparr>) = maker_buf c"
  "maker_buf (c\<lparr>sc_changed := k\<rparr>) = maker_buf c" "maker_buf (c\<lparr>sc_fault := f\<rparr>) = maker_buf c"
  "maker_buf (c\<lparr>sc_doneClosed := b\<rparr>) = maker_buf c" "maker_buf (c\<lparr>sc_status := t\<rparr>) = maker_buf c"
  "maker_buf (c\<lparr>sc_current := x\<rparr>) = maker_buf c" "maker_buf (c\<lparr>sc_ctxErr := e\<rparr>) = maker_buf c"
  "maker_buf (c\<lparr>sc_nextSession := n'\<rparr>) = maker_buf c" "maker_buf (c\<lparr>sc_stopped := b'\<rparr>) = maker_buf c"
  "maker_buf (c\<lparr>sc_err := e'\<rparr>) = maker_buf c" "maker_buf (c\<lparr>sc_makerEvents := ch\<rparr>) = gc_buf ch"
  by (simp_all add: maker_buf_def)

lemma maker_buf_bookkeeping [simp]:
  "maker_buf (set_fault f c) = maker_buf c" "maker_buf (signalLocked c) = maker_buf c"
  "maker_buf (count_received d c) = maker_buf c" "maker_buf (count_sent d c) = maker_buf c"
  "maker_buf (count_attempt c) = maker_buf c" "maker_buf (close_session s c) = maker_buf c"
  "maker_buf (note_failure s e c) = maker_buf c" "maker_buf (end_session s e c) = maker_buf c"
  "maker_buf (upd_session s g c) = maker_buf c" "maker_buf (clear_subscription c) = maker_buf c"
  "maker_buf (mark_stopped x c) = maker_buf c" "maker_buf (drop_current c) = maker_buf c"
  "maker_buf (cancel_client c) = maker_buf c" "maker_buf (run_dial_failed e c) = maker_buf c"
  by (simp_all add: maker_buf_def set_fault_def signalLocked_def count_received_def count_sent_def count_attempt_def
      close_session_def note_failure_def end_session_def upd_session_def clear_subscription_def clearLocked_def
      mark_stopped_def drop_current_def cancel_client_def run_dial_failed_def Let_def split: option.splits)

lemma stopped_bookkeeping [simp]:
  "sc_stopped (set_fault f c) = sc_stopped c" "sc_stopped (signalLocked c) = sc_stopped c"
  "sc_stopped (count_received d c) = sc_stopped c" "sc_stopped (count_sent d c) = sc_stopped c"
  "sc_stopped (count_attempt c) = sc_stopped c" "sc_stopped (close_session s c) = sc_stopped c"
  "sc_stopped (note_failure s e c) = sc_stopped c" "sc_stopped (end_session s e c) = sc_stopped c"
  "sc_stopped (upd_session s g c) = sc_stopped c" "sc_stopped (clear_subscription c) = sc_stopped c"
  "sc_stopped (cancel_client c) = sc_stopped c" "sc_stopped (run_dial_failed e c) = sc_stopped c"
  by (simp_all add: set_fault_def signalLocked_def count_received_def count_sent_def count_attempt_def
      close_session_def note_failure_def end_session_def upd_session_def clear_subscription_def clearLocked_def
      cancel_client_def run_dial_failed_def Let_def split: option.splits)

lemma emits_bookkeeping:
  "emits c c' \<Longrightarrow> emits c (signalLocked c')" "emits c c' \<Longrightarrow> emits c (close_session s c')"
  "emits c c' \<Longrightarrow> emits c (count_sent d c')" "emits c c' \<Longrightarrow> emits c (cancel_client c')"
  "emits c c' \<Longrightarrow> emits c (run_dial_failed e c')"
  by (simp_all add: emits_def)

lemma send_maker_buf: "\<not> sc_stopped c \<Longrightarrow> emits c (full c) \<Longrightarrow> emits c (send_maker e full c)"
  by (auto simp: send_maker_def emits_def maker_buf_def set_fault_def split: option.splits)

lemma send_router_buf: "\<not> sc_stopped c \<Longrightarrow> emits c (full c) \<Longrightarrow> emits c (send_router e full c)"
  by (auto simp: send_router_def emits_def maker_buf_def set_fault_def split: option.splits)

lemma final_event_buf: "prefix (maker_buf c) (maker_buf (final_event c))"
  by (auto simp: final_event_def send_maker_def send_router_def maker_buf_def set_fault_def split: option.splits)

lemma emits_stopLocked: "emits c (stopLocked e c)"
proof (cases "sc_stopped c")
  case False
  let ?d = "signalLocked (cancel_client (drop_current (clear_subscription (mark_stopped e c))))"
  have "maker_buf ?d = maker_buf c" by simp
  then show ?thesis using False final_event_buf [of ?d] by (simp add: stopLocked_def emits_def)
qed (simp add: stopLocked_def)

lemma emits_event:
  "emits c (stop x c)" "emits c (emitMakerLocked e c)" "emits c (emitRouterLocked e' c)" "emits c (connectionEventLocked c)"
  by (simp_all add: stop_def emitMakerLocked_def emitRouterLocked_def connectionEventLocked_def emits_stopLocked
      send_maker_buf send_router_buf)

lemma emits_discard: "emits c (discard s e c)"
proof -
  have "emits c (connectionEventLocked (signalLocked (clear_subscription ((note_failure s e c)\<lparr>sc_current := None, sc_status := t\<rparr>))))" for t
    using emits_event(4) by (rule emits_trans [rotated]) (simp add: emits_same)
  then show ?thesis
    by (auto simp: discard_def Let_def intro!: emits_bookkeeping) (simp_all add: emits_def)
qed

lemma emits_discard': "emits c c' \<Longrightarrow> emits c (discard s e c')"
  using emits_discard emits_trans by blast

lemma emits_write_end: "emits c (fst (write_end s d io c))"
  by (auto simp: write_end_def Let_def emits_discard emits_discard' emits_bookkeeping split: option.splits)

lemma emits_write_message: "emits c (fst (write_message s d id io c))"
  using emits_write_end [of c s d io]
  by (auto simp: write_message_def dest!: write_begin_id split: sum.splits prod.splits)

lemma emits_read_turn:
  assumes "sc_maker c"
  shows "emits c (fst (read_turn P H s r now io c))"
proof -
  have hb: "emits c (fst (handle_heartbeat P s h now io c))" for h c
    using emits_write_message [of c s _ io]
    by (auto simp: handle_heartbeat_def sendHeartbeat_def split: option.splits sum.splits prod.splits) (metis fst_conv)+
  have "emits c (fst (handle_maker P s e now io c))" for e c
    by (simp add: handle_maker_def hb emits_event split: maker_message_type.splits option.splits)
  then have "emits c (fst (handle_maker P s e now io (count_received d c)))" for e d
    by (rule emits_trans [rotated]) (simp add: emits_same)
  moreover have "sc_maker (count_received d c)" "emits c (count_received d c)" for d
    using assms by (simp_all add: count_received_def emits_same)
  ultimately have "emits c (fst (handle P H s d now io (count_received d c)))" for d
    by (simp add: handle_def split: sum.splits)
  then show ?thesis by (auto simp: read_turn_def split: sum.splits)
qed

lemma emits_dial: "emits c (fst (dial P io c))"
  by (auto simp: dial_def Let_def emits_def upd_session_def count_received_def split: sum.splits prod.splits)

lemma emits_install: "emits c (fst (install s c))"
proof -
  have "emits c (connectionEventLocked (signalLocked ((upd_session s g (c\<lparr>sc_status := t\<rparr>))\<lparr>sc_current := x, sc_status := t'\<rparr>)))" for g t x t'
    using emits_event(4) by (rule emits_trans [rotated]) (simp add: emits_same)
  then show ?thesis by (simp add: install_def Let_def emits_same)
qed

lemma emits_run_finish: "emits c (run_finish c)"
proof -
  let ?c = "if \<not> sc_stopped c then stopLocked (map_option ContextError (sc_ctxErr c)) c else c"
  have "emits c ?c" by (simp add: emits_stopLocked)
  moreover have "emits ?c (run_finish c)"
    by (auto simp: run_finish_def Let_def emits_def maker_buf_def set_fault_def)
  ultimately show ?thesis by (rule emits_trans)
qed

lemmas emits_ops = emits_stopLocked emits_event emits_discard emits_write_end emits_write_message emits_dial
  emits_install emits_run_finish emits_bookkeeping emits_same

text \<open>Only \<open>Next\<close> takes events off the queue.\<close>

lemma maker_holder: "world_inv H w \<Longrightarrow> sc_maker (w_client w) \<Longrightarrow> w_holder w = Free"
  by (simp add: world_inv_def holder_ok_def)

lemma maker_step_emits:
  assumes "stream_step P H w w'" "world_inv H w" "sc_maker (w_client w)"
  shows "emits (w_client w) (w_client w') \<or> (\<exists>d. w' = w\<lparr>w_client := fst (Next d (w_client w))\<rparr>)"
proof -
  note free = maker_holder [OF assms(2,3)] and pcok = world_invD(2) [OF assms(2)]
  have fsts: "x = (a, b) \<Longrightarrow> a = fst x" for x :: "stream_client \<times> 'b" and a b by simp
  from assms(1) show ?thesis
  proof (cases rule: stream_step.cases)
    case (next_called d)
    then show ?thesis by blast
  next
    case (frame_received u c)
    then show ?thesis by (auto simp: receive_frame_def emits_same split: option.splits prod.splits)
  next
    case (event_received e c)
    then show ?thesis by (auto simp: receive_event_def emits_same split: option.splits prod.splits)
  next
    case (message_handled s r now io c)
    then show ?thesis using emits_read_turn [OF assms(3), of P H s r now io] by simp
  next
    case (reading_fails s r now io c e)
    then show ?thesis using emits_read_turn [OF assms(3), of P H s r now io] by simp
  next
    case (first_dial_fails io c e)
    then show ?thesis using emits_dial [of "w_client w" P io] by (simp add: emits_bookkeeping)
  next
    case (first_dial io c s)
    then show ?thesis using emits_dial [of "w_client w" P io] by simp
  next
    case (first_install s c ok)
    then show ?thesis using emits_install [of "w_client w" s] by (simp add: emits_bookkeeping)
  next
    case (dial_final io c e)
    then show ?thesis using dial_failed_same [OF dial_final(3)] by (simp add: emits_ops)
  next
    case (dial_fails io c e)
    then show ?thesis using dial_failed_same [OF dial_fails(3)] by (simp add: emits_ops)
  next
    case (dial_succeeds io c s)
    then show ?thesis using emits_dial [of "w_client w" P io] by simp
  next
    case (installed s c)
    then show ?thesis using emits_install [of "w_client w" s] by simp
  next
    case (install_refused s c)
    have "sc_maker c" using fixed_partD(2) [OF fixed_install [of s "w_client w"]] install_refused(3) assms(3) by simp
    then show ?thesis using install_refused emits_install [of "w_client w" s] by simp
  qed (use free pcok assms(3) in \<open>auto simp: emits_ops\<close>)
qed

subsection \<open>A stopped maker finishes by itself\<close>

fun pc_rank :: "run_pc \<Rightarrow> nat" where
  "pc_rank (PSession s) = 9"
| "pc_rank (PReturning s e) = 8"
| "pc_rank (PEnded s e) = 7"
| "pc_rank (PLost s e) = 6"
| "pc_rank (PDiscarded s e) = 5"
| "pc_rank (PRetry b) = 4"
| "pc_rank PDial = 3"
| "pc_rank (PInstall s) = 2"
| "pc_rank PClosing = 1"
| "pc_rank _ = 0"

text \<open>The positions of a client that was dialed.\<close>

fun pc_dialed :: "run_pc \<Rightarrow> bool" where
  "pc_dialed PStart = False"
| "pc_dialed (PFirst s) = False"
| "pc_dialed PFailed = False"
| "pc_dialed _ = True"

text \<open>What a step of a dialed maker keeps.\<close>

lemma maker_step_keeps:
  assumes "stream_step P H w w'" "world_inv H w" "sc_maker (w_client w)" "pc_dialed (w_pc w)"
  shows "sc_maker (w_client w') \<and> pc_dialed (w_pc w') \<and> sc_cfg (w_client w') = sc_cfg (w_client w) \<and>
    (w_pc w = PDone \<longrightarrow> w_pc w' = PDone) \<and> (sc_doneClosed (w_client w') \<longrightarrow> sc_doneClosed (w_client w) \<or> w_pc w' = PDone) \<and>
    (w_pc w' = PDone \<longrightarrow> gc_closed (sc_makerEvents (w_client w')) \<or> w_pc w = PDone \<and> \<not> gc_closed (sc_makerEvents (w_client w)))"
proof -
  note free = maker_holder [OF assms(2,3)] and pcok = world_invD(2) [OF assms(2)]
  have keep: "sc_maker c = sc_maker (w_client w)" "sc_doneClosed c = sc_doneClosed (w_client w)" "sc_cfg c = sc_cfg (w_client w)"
      "gc_closed (sc_makerEvents c) = gc_closed (sc_makerEvents (w_client w))"
    if "fixed_part c = fixed_part (w_client w)" for c
    using fixed_partD [OF that] by simp_all
  note ops = keep [OF fixed_emit(1)] keep [OF fixed_discard] keep [OF fixed_write_end]
  from assms(1) show ?thesis
  proof (cases rule: stream_step.cases)
    case (frame_received u c)
    then show ?thesis using keep [of c] receive_frame_fixed [OF frame_received(2)] assms by simp
  next
    case (event_received e c)
    then show ?thesis using keep [of c] receive_event_fixed [OF event_received(2)] assms by simp
  next
    case (next_called d)
    then show ?thesis using keep [of "fst (Next d (w_client w))"] Next_fixed assms by simp
  next
    case (message_handled s r now io c)
    then show ?thesis using keep [of c] fixed_read_turn [of P H s r now io "w_client w"] assms by simp
  next
    case (reading_fails s r now io c e)
    then show ?thesis using keep [of c] fixed_read_turn [of P H s r now io "w_client w"] assms by simp
  next
    case (session_ends s e)
    then show ?thesis using keep [of "end_session s e (w_client w)"] assms by simp
  next
    case (retry_at_once)
    then show ?thesis using keep [of "count_attempt (w_client w)"] assms by simp
  next
    case (wait_elapsed)
    then show ?thesis using keep [of "count_attempt (w_client w)"] assms by simp
  next
    case (dial_final io c e)
    then show ?thesis using keep [of "stop (Some e) c"] dial_failed_same [OF dial_final(3)] assms by simp
  next
    case (dial_fails io c e)
    then show ?thesis using keep [of "run_dial_failed e c"] dial_failed_same [OF dial_fails(3)] assms by simp
  next
    case (dial_succeeds io c s)
    then show ?thesis using keep [of c] fixed_dial [of P io "w_client w"] assms by simp
  next
    case (installed s c)
    then show ?thesis using keep [of c] fixed_install [of s "w_client w"] assms by simp
  next
    case (install_refused s c)
    then show ?thesis using keep [of c] fixed_install [of s "w_client w"] assms by simp
  next
    case run_ends
    have "gc_closed (sc_makerEvents (run_finish c))" if "sc_maker c" for c
      using that fixed_partD(2) [OF fixed_stopLocked [of "map_option ContextError (sc_ctxErr c)" c]]
      by (cases "sc_stopped c") (simp_all add: run_finish_def Let_def set_fault_def)
    moreover have "sc_maker (run_finish c) = sc_maker (if sc_stopped c then c else stopLocked (map_option ContextError (sc_ctxErr c)) c)"
      "sc_cfg (run_finish c) = sc_cfg (if sc_stopped c then c else stopLocked (map_option ContextError (sc_ctxErr c)) c)" for c
      by (simp_all add: run_finish_def Let_def set_fault_def)
    ultimately show ?thesis using run_ends keep [OF fixed_stopLocked] assms by simp
  qed (use free pcok assms ops in auto)
qed

lemma stopped_maker_advances:
  assumes inv: "world_inv H w" and maker: "sc_maker (w_client w)" and stopped: "sc_stopped (w_client w)"
    and pc: "pc_dialed (w_pc w)" "w_pc w \<noteq> PDone"
  shows "\<exists>w'. stream_step P H w w' \<and> pc_dialed (w_pc w') \<and> pc_rank (w_pc w') < pc_rank (w_pc w)"
proof -
  obtain x where x: "sc_ctxErr (w_client w) = Some x" using stopped_state(7) [OF world_invD(1) [OF inv] stopped] by blast
  note free = maker_holder [OF inv maker]
  show ?thesis
  proof (cases "w_pc w")
    case (PSession s)
    have "read_turn P H s (Inl (NetError [])) 0 toy_write (w_client w) = (w_client w, Some (NetError []))"
      by (simp add: read_turn_def classifyReadError_def)
    from stream_step.reading_fails [OF PSession this] PSession show ?thesis by fastforce
  next
    case (PReturning s e)
    from stream_step.session_ends [OF PReturning, of P H] PReturning show ?thesis by fastforce
  next
    case (PEnded s e)
    from stream_step.session_joined [OF PEnded, of P H] free stopped PEnded show ?thesis by fastforce
  next
    case (PLost s e)
    from stream_step.loss_cancelled [OF PLost x, of P H] PLost show ?thesis by fastforce
  next
    case (PDiscarded s e)
    then show ?thesis
      using stream_step.given_up [OF PDiscarded, of P H] stream_step.retry_decided [OF PDiscarded, of P H]
      by (cases "gives_up (cc_Reconnect (sc_cfg (w_client w))) e") fastforce+
  next
    case (PRetry b)
    then show ?thesis
      using stream_step.retry_at_once [of w P H] stream_step.wait_cancelled [of w P H] x by (cases b) fastforce+
  next
    case PDial
    have "dial P cancelled_dial (w_client w) = (w_client w, Inl (ContextError Canceled))"
      by (simp add: dial_def dial_handshake_def cancelled_dial_def)
    from stream_step.dial_fails [OF PDial this] x PDial show ?thesis by (fastforce simp: terminalError_def)
  next
    case (PInstall s)
    have "install s (w_client w) = (close_session s (w_client w), False)" using stopped by (simp add: install_def)
    from stream_step.install_refused [OF PInstall this, of P H] PInstall show ?thesis by fastforce
  next
    case PClosing
    from stream_step.run_ends [OF PClosing, of P H] PClosing show ?thesis by fastforce
  next
    case (PGate s)
    then show ?thesis using world_invD(2) [OF inv] maker by simp
  qed (use pc in auto)
qed

end
