(* ===== verification/Maker_Publishing.thy ===== *)
theory Maker_Publishing
  imports Maker_Events
begin

text \<open>
  \<open>publish\<close> of \<open>examples/maker/publish.go\<close> as the concurrent program it is: the main goroutine that
  prepares, sends and observes, the reader goroutine that moves the SDK's events into its own
  channel, the channels between them, and below them the SDK's own goroutines (\<open>stream_step\<close>). Any
  step of the three may come next. The environment (RPC, signer, network, timer, context) decides
  what each step meets. Shown: neither goroutine ever blocks for good or uses a channel wrongly,
  every event that the SDK emits is handled once and in order unless the context ends, and from
  every reachable state \<open>publish\<close> can return, having joined both goroutines.
\<close>

subsection \<open>Sending one quote in two sections\<close>

text \<open>\<open>Maker.Publish\<close> up to the unlock before the network write: the session and the bytes to write,
  or the error that NotSent reports. \<open>write_end\<close> is the rest.\<close>

definition publish_begin :: "ethlib \<Rightarrow> protolib \<Rightarrow> ctx \<Rightarrow> publish_params \<Rightarrow> int \<Rightarrow> write_io \<Rightarrow> stream_client \<Rightarrow>
    publish_cause + nat \<times> bytes" where
  "publish_begin L P ctx params now io c =
    (case ctx 0 of
       Some e \<Rightarrow> Inl (StreamCause (ContextError e))
     | None \<Rightarrow>
        attempt (wrap_err QuoteCause (quoteSpec params)) (\<lambda>spec.
        attempt (wrap_err FrameCause (BuildAndSign L (Some (shift_ctx 1 ctx)) spec (pub_Signer params))) (\<lambda>m.
        wrap_err StreamCause
         (case ctx 3 of
            Some e \<Rightarrow> Inl (ContextError e)
          | None \<Rightarrow>
             reject (length (mf_Signature m) \<noteq> 65) (NewError ''frame and 65-byte signature are required'')
            (reject (mf_Signature m ! 64 \<noteq> 27 \<and> mf_Signature m ! 64 \<noteq> 28) (NewError ''wire signature recovery ID must be 27 or 28'')
            (attempt (marshal_maker P (sc_cfg c) (publish_envelope m now)) (\<lambda>data.
             reject (sc_stopped c) ErrClosed
            (case sc_current c of
               None \<Rightarrow> Inl ErrDisconnected
             | Some s \<Rightarrow> attempt (write_begin s data id io c) (\<lambda>_. Inr (s, data))))))))))"

lemma MakerPublish_sections:
  "MakerPublish L P (Some ctx) params now io c =
    (case publish_begin L P ctx params now io c of
       Inl e \<Rightarrow> (c, Some (NotSent, e))
     | Inr (s, data) \<Rightarrow>
        (case write_end s data io c of (c', r) \<Rightarrow> (c', map_option (\<lambda>e. (Unknown, StreamCause e)) r)))"
proof (cases "\<exists>spec m. ctx 0 = None \<and> quoteSpec params = Inr spec \<and>
    BuildAndSign L (Some (shift_ctx 1 ctx)) spec (pub_Signer params) = Inr m")
  case False
  then show ?thesis
    by (auto simp: MakerPublish_def publish_begin_def maker_publish_failed_def attempt_def wrap_err_def split: option.splits sum.splits)
next
  case True
  then obtain spec m where ok: "ctx 0 = None" "quoteSpec params = Inr spec"
      "BuildAndSign L (Some (shift_ctx 1 ctx)) spec (pub_Signer params) = Inr m" by blast
  show ?thesis
  proof (cases "marshal_maker P (sc_cfg c) (publish_envelope m now)")
    case (Inl e)
    with ok show ?thesis
      by (simp add: MakerPublish_def publish_begin_def Publish_def publish_failure_def attempt_def wrap_err_def reject_def
          split: option.splits)
  next
    case (Inr data)
    show ?thesis
    proof (cases "sc_current c")
      case None
      with ok Inr show ?thesis
        by (simp add: MakerPublish_def publish_begin_def Publish_def publish_failure_def attempt_def wrap_err_def reject_def
            split: option.splits)
    next
      case (Some s)
      with ok Inr show ?thesis
        by (cases "write_begin s data id io c"; cases "write_end s data io c"; cases "snd (write_end s data io c)")
          (auto simp: MakerPublish_def publish_begin_def Publish_def publish_failure_def attempt_def wrap_err_def reject_def
            write_message_def dest!: write_begin_id split: option.splits)
    qed
  qed
qed

subsection \<open>Handling an event\<close>

text \<open>What \<open>handle\<close> logs; \<open>explained\<close> is \<open>healthExplained\<close>. Texts are redacted when printed.\<close>

datatype event_log =
    LogRejection frame_ack
  | LogHealthDetails
  | LogConnection client_status
  | LogConnectionError stream_error

definition handle_event :: "maker_event \<Rightarrow> bool \<Rightarrow> bool \<times> event_log list" where
  "handle_event event explained =
    (case mev_Rejection event of
       Some r \<Rightarrow>
         if fa_RejectStep r = ''HEALTH'' \<and> \<not> explained then (True, [LogRejection r, LogHealthDetails])
         else (explained, [LogRejection r])
     | None \<Rightarrow>
         (explained, LogConnection (mev_Status event) #
           (case st_LastError (mev_Status event) of None \<Rightarrow> [] | Some e \<Rightarrow> [LogConnectionError e])))"

fun handle_events :: "maker_event list \<Rightarrow> bool \<Rightarrow> event_log list" where
  "handle_events [] explained = []"
| "handle_events (e # es) explained = (case handle_event e explained of (x, ls) \<Rightarrow> ls @ handle_events es x)"

lemma health_explained_once:
  "length (filter (\<lambda>l. l = LogHealthDetails) (handle_events es explained)) =
    (if \<not> explained \<and> (\<exists>e\<in>set es. \<exists>r. mev_Rejection e = Some r \<and> fa_RejectStep r = ''HEALTH'') then 1 else 0)"
proof (induction es arbitrary: explained)
  case (Cons e es)
  show ?case
  proof (cases "mev_Rejection e")
    case None
    then show ?thesis using Cons by (auto simp: handle_event_def split: option.splits)
  next
    case (Some r)
    then show ?thesis using Cons [of True] Cons [of explained]
      by (cases explained) (simp_all add: handle_event_def del: length_0_conv)
  qed
qed simp

subsection \<open>The two goroutines and their channels\<close>

datatype reader_pc = RNext | RSend maker_event | RErr stream_error | RClosing | RDone

datatype main_pc =
    MLoop
  | MSend publish_params
  | MWrite nat bytes
  | MConsume
  | MReadErr
  | MReturn "app_error option"
  | MClosing "app_error option"
  | MDrain "app_error option"
  | MExit "app_error option"

text \<open>\<open>pw_ctx\<close> is the state of \<open>ctx\<close>, \<open>pw_cancelled\<close> that \<open>readerCancel\<close> ran, \<open>pw_left\<close> the frames still to send.
  The last three fields record the run: frames written, events \<open>Next\<close> returned, events handled.\<close>

record publish_world =
  pw_stream :: stream_world
  pw_ctx :: "ctx_error option"
  pw_cancelled :: bool
  pw_reader :: reader_pc
  pw_eventCh :: "maker_event gochan"
  pw_readerErr :: "stream_error gochan"
  pw_main :: main_pc
  pw_versions :: version_state
  pw_left :: nat
  pw_written :: "bytes list"
  pw_taken :: "maker_event list"
  pw_handled :: "maker_event list"

definition pw_client :: "publish_world \<Rightarrow> stream_client" where
  "pw_client v = w_client (pw_stream v)"

definition set_client :: "stream_client \<Rightarrow> publish_world \<Rightarrow> publish_world" where
  "set_client c v = v\<lparr>pw_stream := (pw_stream v)\<lparr>w_client := c\<rparr>\<rparr>"

text \<open>\<open>readerCtx.Err()\<close>: its parent is \<open>ctx\<close>.\<close>

definition reader_ctx :: "publish_world \<Rightarrow> ctx_error option" where
  "reader_ctx v = (case pw_ctx v of Some e \<Rightarrow> Some e | None \<Rightarrow> if pw_cancelled v then Some Canceled else None)"

text \<open>\<open>errors.Join\<close>\<close>

definition app_Join :: "app_error option list \<Rightarrow> app_error option" where
  "app_Join es = (case List.map_filter id es of [] \<Rightarrow> None | xs \<Rightarrow> Some (AppJoin xs))"

definition publish_config :: "maker_app_config \<Rightarrow> maker_config" where
  "publish_config c = \<lparr>mc_Connection = \<lparr>cc_URL = [], cc_APIKey = mac_APIKey c, cc_HandshakeTimeout = 0, cc_WriteTimeout = 0,
       cc_HeartbeatInterval = 0, cc_ReadIdleTimeout = 0, cc_EventBufferSize = 0, cc_MaxReadMessageBytes = 0,
       cc_MaxWriteMessageBytes = 0,
       cc_Reconnect = \<lparr>rc_Policy = Disabled, rc_InitialDelay = 0, rc_MaxDelay = 0, rc_ResetAfter = 0\<rparr>\<rparr>,
     mc_Listing = \<lparr>lc_BaseURL = [], lc_HTTPClient = None, lc_Timeout = 0\<rparr>\<rparr>"

text \<open>Dialing, the channels and the reader goroutine. The SDK's run loop starts reading the session.\<close>

definition publish_start :: "protolib \<Rightarrow> ctx_error option \<Rightarrow> dial_io \<Rightarrow> ctx_error option \<Rightarrow> version_state \<Rightarrow> nat \<Rightarrow>
    app_error + publish_world" where
  "publish_start P lifetime io later st count =
     attempt (wrap_err AppSdk (DialMaker P lifetime (publish_config (fst st)) io later)) (\<lambda>(c, s, l).
     Inr \<lparr>pw_stream = \<lparr>w_client = c, w_pc = PSession s, w_holder = Free, w_delay = rc_InitialDelay (cc_Reconnect (sc_cfg c))\<rparr>,
       pw_ctx = None, pw_cancelled = False, pw_reader = RNext, pw_eventCh = make_chan 256, pw_readerErr = make_chan 1,
       pw_main = MLoop, pw_versions = st, pw_left = count, pw_written = [], pw_taken = [], pw_handled = []\<rparr>)"

text \<open>\<open>sdk_runs\<close> is any step of the SDK but a call of \<open>Next\<close>: the reader is its only consumer. Sends and
  receives of \<open>select\<close>s are separate rules; \<open>consumeFor\<close> gives what a choice returns.\<close>

inductive publish_step :: "chainlib \<Rightarrow> hexlib \<Rightarrow> protolib \<Rightarrow> client \<Rightarrow> chain_state \<Rightarrow> signer_value \<Rightarrow>
    publish_world \<Rightarrow> publish_world \<Rightarrow> bool" for L H P contract state signer where
  sdk_runs: "stream_step P H (pw_stream v) w \<Longrightarrow> \<forall>d. w \<noteq> (pw_stream v)\<lparr>w_client := fst (Next d (pw_client v))\<rparr> \<Longrightarrow>
    publish_step L H P contract state signer v (v\<lparr>pw_stream := w\<rparr>)"
| ctx_ends: "pw_ctx v = None \<Longrightarrow> publish_step L H P contract state signer v (v\<lparr>pw_ctx := Some e\<rparr>)"
| reader_takes: "pw_reader v = RNext \<Longrightarrow> Next None (pw_client v) = (c, Some (Inr event)) \<Longrightarrow>
    publish_step L H P contract state signer v ((set_client c v)\<lparr>pw_reader := RSend event, pw_taken := pw_taken v @ [event]\<rparr>)"
| reader_fails: "pw_reader v = RNext \<Longrightarrow> Next d (pw_client v) = (c, Some (Inl e)) \<Longrightarrow> d = None \<or> d = reader_ctx v \<Longrightarrow>
    publish_step L H P contract state signer v ((set_client c v)\<lparr>pw_reader := RErr e\<rparr>)"
| reader_sends: "pw_reader v = RSend event \<Longrightarrow> chan_put event (pw_eventCh v) = Some ch \<Longrightarrow>
    publish_step L H P contract state signer v (v\<lparr>pw_eventCh := ch, pw_reader := RNext\<rparr>)"
| reader_cancelled: "pw_reader v = RSend event \<Longrightarrow> reader_ctx v = Some e \<Longrightarrow>
    publish_step L H P contract state signer v (v\<lparr>pw_reader := RErr (ContextError e)\<rparr>)"
| reader_reports: "pw_reader v = RErr e \<Longrightarrow> chan_put e (pw_readerErr v) = Some ch \<Longrightarrow>
    publish_step L H P contract state signer v (v\<lparr>pw_readerErr := ch, pw_reader := RClosing\<rparr>)"
| reader_closes: "pw_reader v = RClosing \<Longrightarrow>
    publish_step L H P contract state signer v (v\<lparr>pw_eventCh := chan_close (pw_eventCh v), pw_reader := RDone\<rparr>)"
| all_sent: "pw_main v = MLoop \<Longrightarrow> pw_left v = 0 \<Longrightarrow>
    publish_step L H P contract state signer v (v\<lparr>pw_main := MReturn None\<rparr>)"
| quote_fails: "pw_main v = MLoop \<Longrightarrow> 0 < pw_left v \<Longrightarrow>
    prepareNextQuote L H contract ctx state signer io (pw_versions v) = (st, Inl e) \<Longrightarrow>
    publish_step L H P contract state signer v (v\<lparr>pw_versions := st, pw_main := MReturn (Some e)\<rparr>)"
| quote_ready: "pw_main v = MLoop \<Longrightarrow> 0 < pw_left v \<Longrightarrow>
    prepareNextQuote L H contract ctx state signer io (pw_versions v) = (st, Inr params) \<Longrightarrow>
    publish_step L H P contract state signer v (v\<lparr>pw_versions := st, pw_main := MSend params\<rparr>)"
| send_refused: "pw_main v = MSend params \<Longrightarrow> publish_begin (eth L) P ctx params now io (pw_client v) = Inl e \<Longrightarrow>
    publish_step L H P contract state signer v (v\<lparr>pw_main := MReturn (Some (AppPublish NotSent e))\<rparr>)"
| send_begins: "pw_main v = MSend params \<Longrightarrow> publish_begin (eth L) P ctx params now io (pw_client v) = Inr (s, data) \<Longrightarrow>
    publish_step L H P contract state signer v (v\<lparr>pw_main := MWrite s data\<rparr>)"
| send_fails: "pw_main v = MWrite s data \<Longrightarrow> write_end s data io (pw_client v) = (c, Some e) \<Longrightarrow>
    publish_step L H P contract state signer v
      ((set_client c v)\<lparr>pw_main := MReturn (Some (AppPublish Unknown (StreamCause e)))\<rparr>)"
| send_done: "pw_main v = MWrite s data \<Longrightarrow> write_end s data io (pw_client v) = (c, None) \<Longrightarrow>
    publish_step L H P contract state signer v
      ((set_client c v)\<lparr>pw_main := MConsume, pw_left := pw_left v - 1, pw_written := pw_written v @ [data]\<rparr>)"
| consume_event: "pw_main v = MConsume \<Longrightarrow> chan_get (pw_eventCh v) = Some (event, ch) \<Longrightarrow>
    publish_step L H P contract state signer v (v\<lparr>pw_eventCh := ch, pw_handled := pw_handled v @ [event]\<rparr>)"
| consume_closed: "pw_main v = MConsume \<Longrightarrow> chan_get (pw_eventCh v) = None \<Longrightarrow> gc_closed (pw_eventCh v) \<Longrightarrow>
    publish_step L H P contract state signer v (v\<lparr>pw_main := MReadErr\<rparr>)"
| consume_timer: "pw_main v = MConsume \<Longrightarrow> publish_step L H P contract state signer v (v\<lparr>pw_main := MLoop\<rparr>)"
| consume_ctx: "pw_main v = MConsume \<Longrightarrow> pw_ctx v = Some e \<Longrightarrow> snd (consumeFor [CallerDone e]) = Some r \<Longrightarrow>
    publish_step L H P contract state signer v (v\<lparr>pw_main := MReturn r\<rparr>)"
| read_err: "pw_main v = MReadErr \<Longrightarrow> chan_get (pw_readerErr v) = Some (e, ch) \<Longrightarrow>
    snd (consumeFor [EventsClosed e]) = Some r \<Longrightarrow>
    publish_step L H P contract state signer v (v\<lparr>pw_readerErr := ch, pw_main := MReturn r\<rparr>)"
| close_called: "pw_main v = MReturn r \<Longrightarrow>
    publish_step L H P contract state signer v ((set_client (stop None (pw_client v)) v)\<lparr>pw_main := MClosing r\<rparr>)"
| close_returns: "pw_main v = MClosing r \<Longrightarrow> sc_doneClosed (pw_client v) \<Longrightarrow>
    publish_step L H P contract state signer v
      (v\<lparr>pw_main := MDrain (app_Join [r, map_option AppStream (Err (pw_client v))])\<rparr>)"
| drain_event: "pw_main v = MDrain r \<Longrightarrow> chan_get (pw_eventCh v) = Some (event, ch) \<Longrightarrow>
    publish_step L H P contract state signer v (v\<lparr>pw_eventCh := ch, pw_handled := pw_handled v @ [event]\<rparr>)"
| drain_ends: "pw_main v = MDrain r \<Longrightarrow> chan_get (pw_eventCh v) = None \<Longrightarrow> gc_closed (pw_eventCh v) \<Longrightarrow>
    publish_step L H P contract state signer v (v\<lparr>pw_main := MExit r, pw_cancelled := True\<rparr>)"

abbreviation publish_steps where
  "publish_steps L H P contract state signer \<equiv> (publish_step L H P contract state signer)\<^sup>*\<^sup>*"

subsection \<open>The invariant\<close>

fun in_hand :: "reader_pc \<Rightarrow> maker_event list" where
  "in_hand (RSend e) = [e]"
| "in_hand _ = []"

fun reader_reported :: "reader_pc \<Rightarrow> bool" where
  "reader_reported RClosing = True"
| "reader_reported RDone = True"
| "reader_reported _ = False"

fun reader_ended :: "reader_pc \<Rightarrow> bool" where
  "reader_ended RNext = False"
| "reader_ended (RSend e) = False"
| "reader_ended _ = True"

fun main_running :: "main_pc \<Rightarrow> bool" where
  "main_running (MReturn r) = False"
| "main_running (MClosing r) = False"
| "main_running (MDrain r) = False"
| "main_running (MExit r) = False"
| "main_running _ = True"

fun main_closing :: "main_pc \<Rightarrow> bool" where
  "main_closing (MClosing r) = True"
| "main_closing (MDrain r) = True"
| "main_closing (MExit r) = True"
| "main_closing _ = False"

fun main_joined :: "main_pc \<Rightarrow> bool" where
  "main_joined (MDrain r) = True"
| "main_joined (MExit r) = True"
| "main_joined _ = False"

fun main_exited :: "main_pc \<Rightarrow> bool" where
  "main_exited (MExit r) = True"
| "main_exited _ = False"

text \<open>The SDK below: a dialed maker, whose done channel tells the end of its run loop.\<close>

definition sdk_ok :: "hexlib \<Rightarrow> publish_world \<Rightarrow> bool" where
  "sdk_ok H v \<longleftrightarrow> world_inv H (pw_stream v) \<and> sc_maker (pw_client v) \<and> pc_dialed (w_pc (pw_stream v)) \<and>
     (sc_doneClosed (pw_client v) \<longrightarrow> w_pc (pw_stream v) = PDone) \<and>
     (w_pc (pw_stream v) = PDone \<longrightarrow> gc_closed (sc_makerEvents (pw_client v)))"

definition channels_ok :: "publish_world \<Rightarrow> bool" where
  "channels_ok v \<longleftrightarrow> gc_cap (pw_eventCh v) = 256 \<and> gc_cap (pw_readerErr v) = 1 \<and>
     (gc_closed (pw_eventCh v) \<longleftrightarrow> pw_reader v = RDone) \<and>
     (\<not> reader_reported (pw_reader v) \<longrightarrow> gc_buf (pw_readerErr v) = []) \<and>
     (reader_reported (pw_reader v) \<and> main_running (pw_main v) \<longrightarrow> length (gc_buf (pw_readerErr v)) = 1) \<and>
     (pw_main v = MReadErr \<longrightarrow> pw_reader v = RDone) \<and> (pw_cancelled v \<longrightarrow> pw_reader v = RDone)"

definition shutdown_ok :: "publish_world \<Rightarrow> bool" where
  "shutdown_ok v \<longleftrightarrow> (main_closing (pw_main v) \<longrightarrow> sc_stopped (pw_client v)) \<and>
     (main_joined (pw_main v) \<longrightarrow> w_pc (pw_stream v) = PDone) \<and>
     (main_exited (pw_main v) \<longrightarrow> pw_reader v = RDone \<and> gc_buf (pw_eventCh v) = [])"

definition events_ok :: "publish_world \<Rightarrow> bool" where
  "events_ok v \<longleftrightarrow> prefix (pw_handled v @ gc_buf (pw_eventCh v) @ in_hand (pw_reader v)) (pw_taken v) \<and>
     (pw_ctx v = None \<or> \<not> reader_ended (pw_reader v) \<longrightarrow>
        pw_handled v @ gc_buf (pw_eventCh v) @ in_hand (pw_reader v) = pw_taken v) \<and>
     (pw_ctx v = None \<and> reader_ended (pw_reader v) \<longrightarrow> maker_buf (pw_client v) = [] \<and> sc_stopped (pw_client v))"

definition publish_inv :: "hexlib \<Rightarrow> publish_world \<Rightarrow> bool" where
  "publish_inv H v \<longleftrightarrow> sdk_ok H v \<and> channels_ok v \<and> shutdown_ok v \<and> events_ok v"

lemmas publish_defs = channels_ok_def shutdown_ok_def events_ok_def

lemma client_of [simp]: "pw_client (set_client c v) = c" "w_pc (pw_stream (set_client c v)) = w_pc (pw_stream v)"
  by (simp_all add: pw_client_def set_client_def)

lemma set_client_fields [simp]:
  "pw_ctx (set_client c v) = pw_ctx v" "pw_cancelled (set_client c v) = pw_cancelled v" "pw_reader (set_client c v) = pw_reader v"
  "pw_eventCh (set_client c v) = pw_eventCh v" "pw_readerErr (set_client c v) = pw_readerErr v" "pw_main (set_client c v) = pw_main v"
  "pw_taken (set_client c v) = pw_taken v" "pw_handled (set_client c v) = pw_handled v" "pw_left (set_client c v) = pw_left v"
  "pw_written (set_client c v) = pw_written v" "pw_versions (set_client c v) = pw_versions v"
  by (simp_all add: set_client_def)

lemma pw_client_frame [simp]:
  "pw_client (v\<lparr>pw_ctx := x\<rparr>) = pw_client v" "pw_client (v\<lparr>pw_cancelled := b\<rparr>) = pw_client v"
  "pw_client (v\<lparr>pw_reader := r\<rparr>) = pw_client v" "pw_client (v\<lparr>pw_eventCh := ch\<rparr>) = pw_client v"
  "pw_client (v\<lparr>pw_readerErr := ce\<rparr>) = pw_client v" "pw_client (v\<lparr>pw_main := m\<rparr>) = pw_client v"
  "pw_client (v\<lparr>pw_versions := st\<rparr>) = pw_client v" "pw_client (v\<lparr>pw_left := n\<rparr>) = pw_client v"
  "pw_client (v\<lparr>pw_written := ws\<rparr>) = pw_client v" "pw_client (v\<lparr>pw_taken := ts\<rparr>) = pw_client v"
  "pw_client (v\<lparr>pw_handled := hs\<rparr>) = pw_client v" "pw_client (v\<lparr>pw_stream := w\<rparr>) = w_client w"
  by (simp_all add: pw_client_def)

lemma sdk_ok_frame: "pw_stream v' = pw_stream v \<Longrightarrow> sdk_ok H v' = sdk_ok H v"
  by (simp add: sdk_ok_def pw_client_def)

lemma sdk_ok_client:
  assumes "sdk_ok H v" "world_inv H ((pw_stream v)\<lparr>w_client := c\<rparr>)" "fixed_part c = fixed_part (pw_client v)"
  shows "sdk_ok H (set_client c v)"
  using assms fixed_partD [OF assms(3)] by (simp add: sdk_ok_def set_client_def)

text \<open>The SDK's own steps and the calls into it.\<close>

lemma sdk_runs_inv:
  assumes inv: "publish_inv H v" and step: "stream_step P H (pw_stream v) w"
    and no_next: "\<forall>d. w \<noteq> (pw_stream v)\<lparr>w_client := fst (Next d (pw_client v))\<rparr>"
  shows "publish_inv H (v\<lparr>pw_stream := w\<rparr>) \<and> emits (pw_client v) (w_client w)"
proof -
  have i: "world_inv H (pw_stream v)" "sc_maker (w_client (pw_stream v))" "pc_dialed (w_pc (pw_stream v))"
    using inv by (simp_all add: publish_inv_def sdk_ok_def pw_client_def)
  note k = maker_step_keeps [OF step i]
  have e: "emits (pw_client v) (w_client w)"
    using maker_step_emits [OF step i(1,2)] no_next by (auto simp: pw_client_def)
  have "sdk_ok H (v\<lparr>pw_stream := w\<rparr>)"
    using inv k stream_step_inv [OF i(1) step] by (auto simp: publish_inv_def sdk_ok_def pw_client_def)
  moreover have "channels_ok (v\<lparr>pw_stream := w\<rparr>)" using inv by (simp add: publish_inv_def channels_ok_def)
  moreover have "shutdown_ok (v\<lparr>pw_stream := w\<rparr>)"
    using inv k e by (auto simp: publish_inv_def shutdown_ok_def emits_def)
  moreover have "events_ok (v\<lparr>pw_stream := w\<rparr>)"
    using inv e by (simp add: publish_inv_def events_ok_def emits_def)
  ultimately show ?thesis using e by (simp add: publish_inv_def)
qed

lemma main_call_inv:
  assumes inv: "publish_inv H v" and w: "world_inv H ((pw_stream v)\<lparr>w_client := c\<rparr>)"
    and c: "fixed_part c = fixed_part (pw_client v)" "emits (pw_client v) c"
  shows "publish_inv H (set_client c v)"
proof -
  have "shutdown_ok (set_client c v)" "events_ok (set_client c v)"
    using inv c(2) by (simp_all add: publish_inv_def shutdown_ok_def events_ok_def emits_def)
  then show ?thesis
    using inv sdk_ok_client [OF _ w c(1)] by (simp add: publish_inv_def channels_ok_def)
qed

text \<open>Steps that leave the SDK alone.\<close>

lemma publish_inv_frame:
  assumes "publish_inv H v" "pw_stream v' = pw_stream v" "channels_ok v'" "shutdown_ok v'" "events_ok v'"
  shows "publish_inv H v'"
  using assms sdk_ok_frame [OF assms(2)] by (simp add: publish_inv_def)

lemma main_moves:
  assumes inv: "publish_inv H v" and m: "main_running m \<longrightarrow> main_running (pw_main v)" "main_closing m \<longrightarrow> main_closing (pw_main v)"
      "main_joined m \<longrightarrow> w_pc (pw_stream v) = PDone" "\<not> main_exited m" "m \<noteq> MReadErr"
  shows "publish_inv H (v\<lparr>pw_main := m\<rparr>)"
  by (rule publish_inv_frame [OF inv]) (use inv m in \<open>simp_all add: publish_inv_def publish_defs\<close>)

lemma publish_inv_versions:
  assumes "publish_inv H v"
  shows "publish_inv H (v\<lparr>pw_versions := st\<rparr>)" "publish_inv H (v\<lparr>pw_left := n\<rparr>)" "publish_inv H (v\<lparr>pw_written := ws\<rparr>)"
  by (rule publish_inv_frame [OF assms]; use assms in \<open>simp add: publish_inv_def publish_defs\<close>)+

lemma event_handled_inv:
  assumes inv: "publish_inv H v" and get: "chan_get (pw_eventCh v) = Some (event, ch)"
  shows "publish_inv H (v\<lparr>pw_eventCh := ch, pw_handled := pw_handled v @ [event]\<rparr>)"
proof -
  have ch: "gc_buf (pw_eventCh v) = event # gc_buf ch" "gc_cap ch = gc_cap (pw_eventCh v)" "gc_closed ch = gc_closed (pw_eventCh v)"
    using get by (auto simp: chan_get_def split: list.splits)
  show ?thesis
    by (rule publish_inv_frame [OF inv]) (use inv ch in \<open>simp_all add: publish_inv_def publish_defs\<close>)
qed

lemma reader_takes_inv:
  assumes inv: "publish_inv H v" and r: "pw_reader v = RNext" and got: "Next None (pw_client v) = (c, Some (Inr event))"
  shows "publish_inv H ((set_client c v)\<lparr>pw_reader := RSend event, pw_taken := pw_taken v @ [event]\<rparr>)"
proof -
  have w: "world_inv H (pw_stream v)" "fixed_part c = fixed_part (pw_client v)"
      "evolves (pw_client v) c" "world_inv H ((pw_stream v)\<lparr>w_client := c\<rparr>)"
    using inv got environment_inv(4) [of H "pw_stream v" None] Next_fixed [of None "pw_client v"]
    by (simp_all add: publish_inv_def sdk_ok_def pw_client_def)
  have "sdk_ok H (set_client c v)" using sdk_ok_client [OF _ w(4,2)] inv by (simp add: publish_inv_def)
  then have "sdk_ok H ((set_client c v)\<lparr>pw_reader := RSend event, pw_taken := pw_taken v @ [event]\<rparr>)"
    by (subst sdk_ok_frame [of _ "set_client c v"]) simp_all
  moreover have "sc_stopped (pw_client v) \<Longrightarrow> sc_stopped c" using w(3) by (simp add: evolves_def)
  ultimately show ?thesis
    using inv r by (simp add: publish_inv_def publish_defs)
qed

lemma Next_failed:
  assumes "Next None c = (c', Some (Inl e))"
  shows "c' = c \<and> maker_buf c = [] \<and> gc_closed (sc_makerEvents c)"
  using assms by (auto simp: Next_def chan_get_def maker_buf_def split: list.splits if_splits)

lemma Next_same: "Next d c = (c', Some (Inl e)) \<Longrightarrow> c' = c"
  by (auto simp: Next_def chan_get_def split: option.splits list.splits if_splits)

lemma reader_fails_inv:
  assumes inv: "publish_inv H v" and r: "pw_reader v = RNext" and got: "Next d (pw_client v) = (c, Some (Inl e))"
    and d: "d = None \<or> d = reader_ctx v"
  shows "publish_inv H ((set_client c v)\<lparr>pw_reader := RErr e\<rparr>)"
proof -
  have same: "set_client c v = v" using Next_same [OF got] by (simp add: set_client_def pw_client_def)
  have ended: "maker_buf (pw_client v) = [] \<and> sc_stopped (pw_client v)" if "pw_ctx v = None"
  proof -
    have "\<not> pw_cancelled v" using inv r by (auto simp: publish_inv_def channels_ok_def)
    with d that have "Next None (pw_client v) = (c, Some (Inl e))" using got by (auto simp: reader_ctx_def)
    from Next_failed [OF this] have "maker_buf (pw_client v) = []" "gc_closed (sc_makerEvents (pw_client v))" by simp_all
    moreover have "client_inv H (pw_client v)"
      using inv by (simp add: publish_inv_def sdk_ok_def world_inv_def pw_client_def)
    ultimately show ?thesis using open_when_running(1) by blast
  qed
  show ?thesis
    unfolding same by (rule publish_inv_frame [OF inv]) (use inv r ended in \<open>simp_all add: publish_inv_def publish_defs\<close>)
qed

lemma reader_moves_inv:
  assumes inv: "publish_inv H v"
  shows "pw_reader v = RSend event \<Longrightarrow> chan_put event (pw_eventCh v) = Some ch \<Longrightarrow>
      publish_inv H (v\<lparr>pw_eventCh := ch, pw_reader := RNext\<rparr>)"
    "pw_reader v = RSend event \<Longrightarrow> reader_ctx v = Some x \<Longrightarrow> publish_inv H (v\<lparr>pw_reader := RErr (ContextError x)\<rparr>)"
    "pw_reader v = RErr e \<Longrightarrow> chan_put e (pw_readerErr v) = Some ch' \<Longrightarrow>
      publish_inv H (v\<lparr>pw_readerErr := ch', pw_reader := RClosing\<rparr>)"
    "pw_reader v = RClosing \<Longrightarrow> publish_inv H (v\<lparr>pw_eventCh := chan_close (pw_eventCh v), pw_reader := RDone\<rparr>)"
proof -
  show "publish_inv H (v\<lparr>pw_eventCh := ch, pw_reader := RNext\<rparr>)"
    if "pw_reader v = RSend event" "chan_put event (pw_eventCh v) = Some ch"
    by (rule publish_inv_frame [OF inv]) (use inv that in \<open>auto simp: publish_inv_def publish_defs\<close>)
  show "publish_inv H (v\<lparr>pw_reader := RErr (ContextError x)\<rparr>)" if r: "pw_reader v = RSend event" "reader_ctx v = Some x"
  proof -
    obtain y where "pw_ctx v = Some y"
      using inv r by (auto simp: publish_inv_def channels_ok_def reader_ctx_def split: option.splits)
    moreover have "prefix (pw_handled v @ gc_buf (pw_eventCh v)) (pw_taken v)"
      by (rule append_prefixD [of _ "[event]"]) (use inv r in \<open>simp add: publish_inv_def events_ok_def\<close>)
    ultimately show ?thesis
      by (intro publish_inv_frame [OF inv]) (use inv r in \<open>simp_all add: publish_inv_def publish_defs\<close>)
  qed
  show "publish_inv H (v\<lparr>pw_readerErr := ch', pw_reader := RClosing\<rparr>)"
    if "pw_reader v = RErr e" "chan_put e (pw_readerErr v) = Some ch'"
    by (rule publish_inv_frame [OF inv]) (use inv that in \<open>auto simp: publish_inv_def publish_defs\<close>)
  show "publish_inv H (v\<lparr>pw_eventCh := chan_close (pw_eventCh v), pw_reader := RDone\<rparr>)" if "pw_reader v = RClosing"
    by (rule publish_inv_frame [OF inv]) (use inv that in \<open>auto simp: publish_inv_def publish_defs\<close>)
qed

lemma main_sends_inv:
  assumes inv: "publish_inv H v" and w: "write_end s data io (pw_client v) = (c, r)"
  shows "publish_inv H (set_client c v)"
proof -
  have "world_inv H (pw_stream v)" using inv by (simp add: publish_inv_def sdk_ok_def)
  from environment_inv(2) [OF this, of s data io] w show ?thesis
    using fixed_write_end [of s data io "pw_client v"] emits_write_end [of "pw_client v" s data io]
    by (intro main_call_inv [OF inv]) (simp_all add: pw_client_def)
qed

lemma close_called_inv:
  assumes inv: "publish_inv H v" and m: "pw_main v = MReturn r"
  shows "publish_inv H ((set_client (stop None (pw_client v)) v)\<lparr>pw_main := MClosing r\<rparr>)"
proof -
  let ?v = "set_client (stop None (pw_client v)) v"
  have "world_inv H (pw_stream v)" using inv by (simp add: publish_inv_def sdk_ok_def)
  from environment_inv(1) [OF this, of None] have i: "publish_inv H ?v"
    by (intro main_call_inv [OF inv]) (simp_all add: emits_ops pw_client_def)
  have "client_inv H (pw_client v)" using inv by (simp add: publish_inv_def sdk_ok_def world_inv_def pw_client_def)
  then have "sc_stopped (pw_client ?v)" by (simp add: stop_def stopLocked_stopped)
  then show ?thesis
    by (intro publish_inv_frame [OF i]) (use i m in \<open>simp_all add: publish_inv_def publish_defs\<close>)
qed

lemma publish_step_inv:
  assumes inv: "publish_inv H v" and step: "publish_step L H P contract state signer v v'"
  shows "publish_inv H v'"
  using step
proof (cases rule: publish_step.cases)
  case (sdk_runs w)
  then show ?thesis using sdk_runs_inv [OF inv] by simp
next
  case (ctx_ends e)
  show ?thesis
    unfolding ctx_ends(1) by (rule publish_inv_frame [OF inv]) (use inv in \<open>simp_all add: publish_inv_def publish_defs\<close>)
next
  case (reader_takes c event)
  then show ?thesis using reader_takes_inv [OF inv] by simp
next
  case (reader_fails d c e)
  then show ?thesis using reader_fails_inv [OF inv] by simp
next
  case (reader_sends event ch)
  then show ?thesis using reader_moves_inv(1) [OF inv] by simp
next
  case (reader_cancelled event e)
  then show ?thesis using reader_moves_inv(2) [OF inv] by simp
next
  case (reader_reports e ch)
  then show ?thesis using reader_moves_inv(3) [OF inv] by simp
next
  case reader_closes
  then show ?thesis using reader_moves_inv(4) [OF inv] by simp
next
  case (quote_fails ctx io st e)
  then show ?thesis using main_moves [OF publish_inv_versions(1) [OF inv, of st], of "MReturn (Some e)"] by simp
next
  case (quote_ready ctx io st params)
  then show ?thesis using main_moves [OF publish_inv_versions(1) [OF inv, of st], of "MSend params"] by simp
next
  case (send_fails s data io c e)
  then show ?thesis using main_moves [OF main_sends_inv [OF inv send_fails(3)], of "MReturn (Some (AppPublish Unknown (StreamCause e)))"] by simp
next
  case (send_done s data io c)
  have "publish_inv H ((set_client c v)\<lparr>pw_main := MConsume\<rparr>)"
    using main_moves [OF main_sends_inv [OF inv send_done(3)], of MConsume] send_done(2) by simp
  from publish_inv_versions(3) [OF publish_inv_versions(2) [OF this, of "pw_left v - 1"]] show ?thesis
    unfolding send_done(1) by simp
next
  case (consume_event event ch)
  then show ?thesis using event_handled_inv [OF inv] by simp
next
  case (drain_event r event ch)
  then show ?thesis using event_handled_inv [OF inv] by simp
next
  case consume_closed
  have "pw_reader v = RDone" using inv consume_closed(4) by (simp add: publish_inv_def channels_ok_def)
  then show ?thesis
    unfolding consume_closed(1) using inv consume_closed(2,3)
    by (intro publish_inv_frame [OF inv]) (simp_all add: publish_inv_def publish_defs)
next
  case (read_err e ch r)
  have "pw_reader v = RDone" "gc_cap ch = gc_cap (pw_readerErr v)"
    using inv read_err(2,3) by (simp_all add: publish_inv_def channels_ok_def)
  then show ?thesis
    unfolding read_err(1) using inv read_err(2)
    by (intro publish_inv_frame [OF inv]) (simp_all add: publish_inv_def publish_defs)
next
  case (close_called r)
  then show ?thesis using close_called_inv [OF inv] by simp
next
  case (close_returns r)
  then have "w_pc (pw_stream v) = PDone" using inv by (simp add: publish_inv_def sdk_ok_def)
  with close_returns main_moves [OF inv, of "MDrain (app_Join [r, map_option AppStream (Err (pw_client v))])"] show ?thesis by simp
next
  case (drain_ends r)
  have "pw_reader v = RDone" using inv drain_ends(4) by (simp add: publish_inv_def channels_ok_def)
  then show ?thesis
    unfolding drain_ends(1) using inv drain_ends(2,3)
    by (intro publish_inv_frame [OF inv]) (simp_all add: publish_inv_def publish_defs)
next
  case all_sent
  then show ?thesis using main_moves [OF inv, of "MReturn None"] by simp
next
  case (send_refused params ctx now io e)
  then show ?thesis using main_moves [OF inv, of "MReturn (Some (AppPublish NotSent e))"] by simp
next
  case (send_begins params ctx now io s data)
  then show ?thesis using main_moves [OF inv, of "MWrite s data"] by simp
next
  case consume_timer
  then show ?thesis using main_moves [OF inv, of MLoop] by simp
next
  case (consume_ctx e r)
  then show ?thesis using main_moves [OF inv, of "MReturn r"] by simp
qed

lemma dial_maker_world:
  assumes "DialMaker P lifetime cfg0 io later = Inr (c, s, l)"
  shows "world_inv H \<lparr>w_client = c, w_pc = PSession s, w_holder = Free, w_delay = rc_InitialDelay (cc_Reconnect (sc_cfg c))\<rparr> \<and>
    sc_maker c \<and> \<not> sc_doneClosed c"
proof -
  from assms obtain cfg where cfg: "normalizeMaker cfg0 = Inr cfg"
      and d: "dial_and_install P io later (w_client (start_maker lifetime (mc_Connection cfg))) = Inr (c, s)"
    by (auto simp: DialMaker_def attempt_Inr start_maker_def Let_def)
  let ?w = "start_maker lifetime (mc_Connection cfg)"
  have "started ?w" using normalizeMaker_Inr [OF cfg] by (auto simp: started_def)
  moreover have "stream_steps P H ?w (?w\<lparr>w_client := c, w_pc := PSession s\<rparr>)"
    by (rule dial_and_install_steps [OF d]) (simp add: start_maker_def)
  ultimately have inv: "world_inv H (?w\<lparr>w_client := c, w_pc := PSession s\<rparr>)" by (rule stream.reached_inv)
  from d obtain c1 where c1: "dial P io (w_client ?w) = (c1, Inr s)" "install s c1 = (c, True)"
    by (auto simp: dial_and_install_def split: prod.splits sum.splits bool.splits)
  have "fixed_part c = fixed_part (w_client ?w)"
    using fixed_dial [of P io "w_client ?w"] fixed_install [of s c1] c1 by simp
  from fixed_partD [OF this]
  have "sc_maker c" "\<not> sc_doneClosed c" "sc_cfg c = mc_Connection cfg" by (simp_all add: start_maker_def newClient_def)
  moreover from this have "?w\<lparr>w_client := c, w_pc := PSession s\<rparr> =
      \<lparr>w_client = c, w_pc = PSession s, w_holder = Free, w_delay = rc_InitialDelay (cc_Reconnect (sc_cfg c))\<rparr>"
    by (simp add: start_maker_def)
  ultimately show ?thesis using inv by simp
qed

definition publish_started :: "protolib \<Rightarrow> publish_world \<Rightarrow> bool" where
  "publish_started P v \<longleftrightarrow> (\<exists>lifetime io later st count. publish_start P lifetime io later st count = Inr v)"

lemma publish_start_Inr:
  assumes "publish_start P lifetime io later st count = Inr v"
  obtains c s l where "DialMaker P lifetime (publish_config (fst st)) io later = Inr (c, s, l)"
    "v = \<lparr>pw_stream = \<lparr>w_client = c, w_pc = PSession s, w_holder = Free, w_delay = rc_InitialDelay (cc_Reconnect (sc_cfg c))\<rparr>,
       pw_ctx = None, pw_cancelled = False, pw_reader = RNext, pw_eventCh = make_chan 256, pw_readerErr = make_chan 1,
       pw_main = MLoop, pw_versions = st, pw_left = count, pw_written = [], pw_taken = [], pw_handled = []\<rparr>"
  using assms by (auto simp: publish_start_def attempt_Inr)

lemma publish_started_inv:
  assumes "publish_started P v"
  shows "publish_inv H v"
proof -
  from assms obtain lifetime io later st count where "publish_start P lifetime io later st count = Inr v"
    by (auto simp: publish_started_def)
  then obtain c s l where d: "DialMaker P lifetime (publish_config (fst st)) io later = Inr (c, s, l)"
    and v: "v = \<lparr>pw_stream = \<lparr>w_client = c, w_pc = PSession s, w_holder = Free, w_delay = rc_InitialDelay (cc_Reconnect (sc_cfg c))\<rparr>,
       pw_ctx = None, pw_cancelled = False, pw_reader = RNext, pw_eventCh = make_chan 256, pw_readerErr = make_chan 1,
       pw_main = MLoop, pw_versions = st, pw_left = count, pw_written = [], pw_taken = [], pw_handled = []\<rparr>"
    by (rule publish_start_Inr)
  show ?thesis
    using dial_maker_world [OF d, of H] by (simp add: v publish_inv_def publish_defs sdk_ok_def pw_client_def)
qed

interpretation publishing: step_system "publish_started P" "publish_step L H P contract state signer" "publish_inv H"
  for L H P contract state signer
  by unfold_locales (rule publish_started_inv, assumption, rule publish_step_inv)

end
