(* ===== verification/Publishing_Properties.thy ===== *)
theory Publishing_Properties
  imports Maker_Publishing
begin

text \<open>
  What the concurrent \<open>publish\<close> of the example maker guarantees: the events it handles, the safe use of
  its channels, that it can always return, and what its result says about the frames written. The
  last part is a complete run: dial, quote, sign, write, observe, close and drain.
\<close>

subsection \<open>Every event is handled, in order\<close>

text \<open>The events the SDK has emitted since the dial: those its consumer took and those still queued.\<close>

definition emitted :: "publish_world \<Rightarrow> maker_event list" where
  "emitted v = pw_taken v @ maker_buf (pw_client v)"

lemma publish_step_emitted:
  assumes inv: "publish_inv H v" and step: "publish_step L H P contract state signer v v'"
  shows "prefix (emitted v) (emitted v')"
  using step
proof (cases rule: publish_step.cases)
  case (sdk_runs w)
  then have "emits (pw_client v) (w_client w)" using sdk_runs_inv [OF inv] by blast
  then show ?thesis using sdk_runs by (simp add: emitted_def emits_def)
next
  case (reader_takes c event)
  have "maker_buf (pw_client v) = event # maker_buf c"
    using reader_takes(3) by (auto simp: Next_def chan_get_def maker_buf_def split: list.splits if_splits)
  then show ?thesis using reader_takes by (simp add: emitted_def)
next
  case (reader_fails d c e)
  then show ?thesis using Next_same [OF reader_fails(3)] by (simp add: emitted_def)
next
  case (send_fails s data io c e)
  then show ?thesis using emits_write_end [of "pw_client v" s data io] by (simp add: emitted_def emits_def)
next
  case (send_done s data io c)
  then show ?thesis using emits_write_end [of "pw_client v" s data io] by (simp add: emitted_def emits_def)
next
  case (close_called r)
  then show ?thesis using emits_event(1) [of "pw_client v" None] by (simp add: emitted_def emits_def)
qed (simp_all add: emitted_def)

lemma publish_steps_emitted:
  assumes "publish_steps L H P contract state signer v v'" "publish_inv H v"
  shows "prefix (emitted v) (emitted v')"
  using publishing.steps_preserve [OF assms, of "\<lambda>x. prefix (emitted v) (emitted x)"] publish_step_emitted
  by (meson prefix_order.order_refl prefix_order.trans)

text \<open>C20: When publish returns, both of its goroutines and the SDK's have ended and the event channel is
  closed and empty. The events it handled are, in order and without repetition, the first ones the SDK
  emitted; unless the context ended, they are all of them, including every event that was emitted
  at any earlier moment of the run.\<close>

theorem published_events_handled:
  assumes "publish_started P v0" "publish_steps L H P contract state signer v0 v" "publish_steps L H P contract state signer v v'"
    and "pw_main v' = MExit r"
  shows "pw_reader v' = RDone \<and> w_pc (pw_stream v') = PDone \<and> gc_closed (pw_eventCh v') \<and> gc_buf (pw_eventCh v') = [] \<and>
    prefix (pw_handled v') (emitted v') \<and>
    (if pw_ctx v' = None then pw_handled v' = emitted v' \<and> prefix (emitted v) (pw_handled v') else True)"
proof -
  have inv: "publish_inv H v" using publishing.reached_inv [OF assms(1,2)] .
  have inv': "publish_inv H v'" using publishing.steps_inv [OF assms(3) inv] .
  have e: "prefix (emitted v) (emitted v')" using publish_steps_emitted [OF assms(3) inv] .
  have d: "pw_reader v' = RDone" "gc_buf (pw_eventCh v') = []" "w_pc (pw_stream v') = PDone" "gc_closed (pw_eventCh v')"
    using inv' assms(4) by (auto simp: publish_inv_def shutdown_ok_def channels_ok_def)
  have "prefix (pw_handled v') (pw_taken v')" using inv' d by (simp add: publish_inv_def events_ok_def)
  then have "prefix (pw_handled v') (emitted v')" unfolding emitted_def by (rule prefix_prefix)
  moreover have "pw_handled v' = emitted v'" if "pw_ctx v' = None"
    using inv' d that by (simp add: publish_inv_def events_ok_def emitted_def)
  ultimately show ?thesis using d e by simp
qed

text \<open>In every reachable state of publish, no channel of it is used wrongly: a reader that reports its error
  finds room for it, a reader that holds an event sends on an open channel, at most 256 events
  wait, and a main goroutine that saw the closed event channel finds the reader's error waiting.\<close>

theorem publish_channels_safe:
  assumes "publish_started P v0" "publish_steps L H P contract state signer v0 v"
  shows "(case pw_reader v of
      RErr e \<Rightarrow> chan_put e (pw_readerErr v) \<noteq> None \<and> \<not> gc_closed (pw_eventCh v)
    | RSend e \<Rightarrow> \<not> gc_closed (pw_eventCh v)
    | RNext \<Rightarrow> \<not> gc_closed (pw_eventCh v)
    | RClosing \<Rightarrow> \<not> gc_closed (pw_eventCh v)
    | RDone \<Rightarrow> gc_closed (pw_eventCh v)) \<and>
    (case pw_main v of MReadErr \<Rightarrow> chan_get (pw_readerErr v) \<noteq> None | _ \<Rightarrow> True)"
proof -
  have "channels_ok v" using publishing.reached_inv [OF assms] by (simp add: publish_inv_def)
  then show ?thesis
    by (cases "pw_reader v"; cases "pw_main v") (auto simp: channels_ok_def)
qed

subsection \<open>publish can always return\<close>

lemma sdk_finishes:
  assumes "publish_inv H v" "main_closing (pw_main v)"
  shows "\<exists>v'. publish_steps L H P contract state signer v v' \<and> w_pc (pw_stream v') = PDone \<and> pw_main v' = pw_main v \<and>
    pw_ctx v' = pw_ctx v \<and> Err (pw_client v') = Err (pw_client v)"
  using assms
proof (induction "pc_rank (w_pc (pw_stream v))" arbitrary: v rule: less_induct)
  case less
  show ?case
  proof (cases "w_pc (pw_stream v) = PDone")
    case False
    have i: "world_inv H (pw_stream v)" "sc_maker (w_client (pw_stream v))" "sc_stopped (w_client (pw_stream v))"
        "pc_dialed (w_pc (pw_stream v))"
      using less.prems by (simp_all add: publish_inv_def sdk_ok_def shutdown_ok_def pw_client_def)
    obtain w where w: "stream_step P H (pw_stream v) w" "pc_rank (w_pc w) < pc_rank (w_pc (pw_stream v))"
      using stopped_maker_advances [OF i False] by blast
    then have step: "publish_step L H P contract state signer v (v\<lparr>pw_stream := w\<rparr>)"
      by (intro publish_step.sdk_runs) auto
    have "Err (w_client w) = Err (pw_client v)"
      using step_evolves_stopped [OF w(1) i(1,3)] i(3) by (simp add: evolves_def Err_def pw_client_def)
    then obtain v' where "publish_steps L H P contract state signer (v\<lparr>pw_stream := w\<rparr>) v'" "w_pc (pw_stream v') = PDone"
        "pw_main v' = pw_main v" "pw_ctx v' = pw_ctx v" "Err (pw_client v') = Err (pw_client v)"
      using less.hyps [of "v\<lparr>pw_stream := w\<rparr>"] w(2) publish_step_inv [OF less.prems(1) step] less.prems(2) by auto
    with step show ?thesis by (meson converse_rtranclp_into_rtranclp)
  qed auto
qed

text \<open>What is left to drain: events in the SDK's queue, in the reader's hand and in the channel.\<close>

fun reader_rank :: "reader_pc \<Rightarrow> nat" where
  "reader_rank RNext = 3"
| "reader_rank (RSend e) = 5"
| "reader_rank (RErr e) = 2"
| "reader_rank RClosing = 1"
| "reader_rank RDone = 0"

definition drain_rank :: "publish_world \<Rightarrow> nat" where
  "drain_rank v = 3 * length (maker_buf (pw_client v)) + reader_rank (pw_reader v) + length (gc_buf (pw_eventCh v))"

lemma drain_advances:
  assumes inv: "publish_inv H v" and m: "pw_main v = MDrain r" and more: "pw_reader v \<noteq> RDone \<or> gc_buf (pw_eventCh v) \<noteq> []"
  shows "\<exists>v'. publish_step L H P contract state signer v v' \<and> pw_main v' = MDrain r \<and> drain_rank v' < drain_rank v \<and> pw_ctx v' = pw_ctx v"
proof (cases "gc_buf (pw_eventCh v)")
  case (Cons e es)
  then have "publish_step L H P contract state signer v
      (v\<lparr>pw_eventCh := (pw_eventCh v)\<lparr>gc_buf := es\<rparr>, pw_handled := pw_handled v @ [e]\<rparr>)"
    by (intro publish_step.drain_event [OF m]) simp
  then show ?thesis by (intro exI, intro conjI, assumption) (simp_all add: m Cons drain_rank_def)
next
  case Nil
  have c: "channels_ok v" "gc_closed (sc_makerEvents (pw_client v))"
    using inv m by (simp_all add: publish_inv_def sdk_ok_def shutdown_ok_def)
  show ?thesis
  proof (cases "pw_reader v")
    case RNext
    show ?thesis
    proof (cases "maker_buf (pw_client v)")
      case Nil
      then have "Next None (pw_client v) = (pw_client v, Some (Inl (case Err (pw_client v) of Some e \<Rightarrow> e | None \<Rightarrow> EOF)))"
        using c(2) by (simp add: Next_def chan_get_def maker_buf_def)
      from publish_step.reader_fails [OF RNext this] show ?thesis
        by (intro exI, intro conjI, blast) (simp_all add: m RNext drain_rank_def)
    next
      case (Cons e es)
      then have "Next None (pw_client v) =
          ((pw_client v)\<lparr>sc_makerEvents := (sc_makerEvents (pw_client v))\<lparr>gc_buf := es\<rparr>\<rparr>, Some (Inr e))"
        by (simp add: Next_def chan_get_def maker_buf_def)
      from publish_step.reader_takes [OF RNext this] show ?thesis
        by (intro exI, intro conjI, assumption) (simp_all add: m RNext Cons drain_rank_def)
    qed
  next
    case (RSend e)
    have "chan_put e (pw_eventCh v) = Some ((pw_eventCh v)\<lparr>gc_buf := [e]\<rparr>)" using c(1) Nil by (simp add: channels_ok_def)
    from publish_step.reader_sends [OF RSend this] show ?thesis
      by (intro exI, intro conjI, assumption) (simp_all add: m RSend Nil drain_rank_def)
  next
    case (RErr e)
    have "chan_put e (pw_readerErr v) = Some ((pw_readerErr v)\<lparr>gc_buf := [e]\<rparr>)" using c(1) RErr by (simp add: channels_ok_def)
    from publish_step.reader_reports [OF RErr this] show ?thesis
      by (intro exI, intro conjI, assumption) (simp_all add: m RErr drain_rank_def)
  next
    case RClosing
    from publish_step.reader_closes [OF RClosing] show ?thesis
      by (intro exI, intro conjI, blast) (simp_all add: m RClosing drain_rank_def)
  qed (use more Nil in auto)
qed

lemma drain_finishes:
  assumes "publish_inv H v" "pw_main v = MDrain r"
  shows "\<exists>v'. publish_steps L H P contract state signer v v' \<and> pw_main v' = MExit r \<and> pw_ctx v' = pw_ctx v"
  using assms
proof (induction "drain_rank v" arbitrary: v rule: less_induct)
  case less
  show ?case
  proof (cases "pw_reader v = RDone \<and> gc_buf (pw_eventCh v) = []")
    case True
    have "publish_step L H P contract state signer v (v\<lparr>pw_main := MExit r, pw_cancelled := True\<rparr>)"
      by (rule publish_step.drain_ends [OF less.prems(2)]) (use less.prems(1) True in \<open>simp_all add: publish_inv_def channels_ok_def\<close>)
    then show ?thesis by (intro exI, intro conjI, rule r_into_rtranclp) simp_all
  next
    case False
    then obtain v1 where v1: "publish_step L H P contract state signer v v1" "pw_main v1 = MDrain r" "drain_rank v1 < drain_rank v"
        "pw_ctx v1 = pw_ctx v"
      using drain_advances [OF less.prems, of L P contract state signer] by blast
    then obtain v' where "publish_steps L H P contract state signer v1 v'" "pw_main v' = MExit r" "pw_ctx v' = pw_ctx v"
      using less.hyps [OF v1(3) publish_step_inv [OF less.prems(1) v1(1)] v1(2)] by auto
    then show ?thesis using v1(1) by (meson converse_rtranclp_into_rtranclp)
  qed
qed

text \<open>Once \<open>Close\<close> was called, the result is determined.\<close>

lemma closing_finishes:
  assumes inv: "publish_inv H v" and m: "pw_main v = MClosing r"
  shows "\<exists>v'. publish_steps L H P contract state signer v v' \<and>
    pw_main v' = MExit (app_Join [r, map_option AppStream (Err (pw_client v))]) \<and> pw_ctx v' = pw_ctx v"
proof -
  obtain v1 where v1: "publish_steps L H P contract state signer v v1" "w_pc (pw_stream v1) = PDone" "pw_main v1 = MClosing r"
      "pw_ctx v1 = pw_ctx v" "Err (pw_client v1) = Err (pw_client v)"
    using sdk_finishes [OF inv, of L P contract state signer] m by auto
  have i1: "publish_inv H v1" using publishing.steps_inv [OF v1(1) inv] .
  then have "sc_doneClosed (pw_client v1)"
    using v1(2) by (simp add: publish_inv_def sdk_ok_def world_inv_def closed_ok_def pw_client_def)
  from publish_step.close_returns [OF v1(3) this]
  have step: "publish_step L H P contract state signer v1 (v1\<lparr>pw_main := MDrain (app_Join [r, map_option AppStream (Err (pw_client v))])\<rparr>)"
    unfolding v1(5) .
  obtain v' where "publish_steps L H P contract state signer (v1\<lparr>pw_main := MDrain (app_Join [r, map_option AppStream (Err (pw_client v))])\<rparr>) v'"
      "pw_main v' = MExit (app_Join [r, map_option AppStream (Err (pw_client v))])" "pw_ctx v' = pw_ctx v1"
    using drain_finishes [OF publish_step_inv [OF i1 step], of _ L P contract state signer] by auto
  then show ?thesis using v1(1,4) step by (metis converse_rtranclp_into_rtranclp rtranclp_trans)
qed

lemma returning_finishes:
  assumes inv: "publish_inv H v" and m: "pw_main v = MReturn r"
  shows "\<exists>v'. publish_steps L H P contract state signer v v' \<and>
    pw_main v' = MExit (app_Join [r, map_option AppStream (Err (stop None (pw_client v)))]) \<and> pw_ctx v' = pw_ctx v"
proof -
  let ?v = "(set_client (stop None (pw_client v)) v)\<lparr>pw_main := MClosing r\<rparr>"
  have step: "publish_step L H P contract state signer v ?v" by (rule publish_step.close_called [OF m])
  obtain v' where "publish_steps L H P contract state signer ?v v'"
      "pw_main v' = MExit (app_Join [r, map_option AppStream (Err (stop None (pw_client v)))])" "pw_ctx v' = pw_ctx v"
    using closing_finishes [OF publish_step_inv [OF inv step], of r L P contract state signer] by auto
  then show ?thesis using step by (metis converse_rtranclp_into_rtranclp)
qed

text \<open>The main goroutine always has a step that leaves its loop: a failing RPC or write, the timer.\<close>

lemma loop_leaves:
  assumes "pw_main v = MLoop"
  shows "\<exists>v' r. publish_step L H P contract state signer v v' \<and> pw_main v' = MReturn r \<and> pw_ctx v' = pw_ctx v"
proof (cases "pw_left v")
  case 0
  from publish_step.all_sent [OF assms this] show ?thesis by fastforce
next
  case (Suc n)
  have "prepareNextQuote L H contract never_done state signer (toy_quote_io\<lparr>qio_Head := Inr None\<rparr>) (pw_versions v) =
      (pw_versions v, Inl (AppText ''RPC returned a block without a valid number''))"
    by (simp add: prepareNextQuote_def next_quote_def checked_head_def)
  from publish_step.quote_fails [OF assms _ this] Suc show ?thesis by fastforce
qed

lemma running_leaves:
  assumes inv: "publish_inv H v" and m: "main_running (pw_main v)"
  shows "\<exists>v' r. publish_steps L H P contract state signer v v' \<and> pw_main v' = MReturn r \<and> pw_ctx v' = pw_ctx v"
proof -
  have one: ?thesis if "publish_step L H P contract state signer v v1" "pw_main v1 = MReturn r" "pw_ctx v1 = pw_ctx v" for v1 r
    using that by blast
  show ?thesis
  proof (cases "pw_main v")
    case MLoop
    then show ?thesis using loop_leaves one by blast
  next
    case (MSend params)
    have "publish_begin (eth L) P (\<lambda>_. Some Canceled) params 0 toy_write (pw_client v) = Inl (StreamCause (ContextError Canceled))"
      by (simp add: publish_begin_def)
    from one [OF publish_step.send_refused [OF MSend this]] show ?thesis by simp
  next
    case (MWrite s data)
    have "write_end s data (toy_write\<lparr>wio_result := Some ErrDisconnected\<rparr>) (pw_client v) =
        (discard s ErrDisconnected (pw_client v), Some ErrDisconnected)"
      by (simp add: write_end_def toy_write_def)
    from one [OF publish_step.send_fails [OF MWrite this]] show ?thesis by simp
  next
    case MConsume
    have step: "publish_step L H P contract state signer v (v\<lparr>pw_main := MLoop\<rparr>)" by (rule publish_step.consume_timer [OF MConsume])
    obtain v1 r where "publish_step L H P contract state signer (v\<lparr>pw_main := MLoop\<rparr>) v1" "pw_main v1 = MReturn r" "pw_ctx v1 = pw_ctx v"
      using loop_leaves [of "v\<lparr>pw_main := MLoop\<rparr>" L H P contract state signer] by auto
    then show ?thesis using step by (metis converse_rtranclp_into_rtranclp r_into_rtranclp)
  next
    case MReadErr
    then obtain e es where "gc_buf (pw_readerErr v) = e # es"
      using inv by (cases "gc_buf (pw_readerErr v)") (auto simp: publish_inv_def channels_ok_def)
    then have "chan_get (pw_readerErr v) = Some (e, (pw_readerErr v)\<lparr>gc_buf := es\<rparr>)" by simp
    from one [OF publish_step.read_err [OF MReadErr this]] show ?thesis by simp
  qed (use m in auto)
qed

lemma publish_finishes:
  assumes inv: "publish_inv H v"
  shows "\<exists>v' r. publish_steps L H P contract state signer v v' \<and> pw_main v' = MExit r \<and> pw_ctx v' = pw_ctx v"
proof (cases "main_running (pw_main v)")
  case True
  then obtain v1 r where v1: "publish_steps L H P contract state signer v v1" "pw_main v1 = MReturn r" "pw_ctx v1 = pw_ctx v"
    using running_leaves [OF inv] by blast
  have "publish_inv H v1" using publishing.steps_inv [OF v1(1) inv] .
  from returning_finishes [OF this v1(2)] v1 show ?thesis by (metis rtranclp_trans)
next
  case False
  then consider r where "pw_main v = MReturn r" | r where "pw_main v = MClosing r" | r where "pw_main v = MDrain r" | r where "pw_main v = MExit r"
    by (cases "pw_main v") auto
  then show ?thesis
    by cases (blast dest: returning_finishes [OF inv] closing_finishes [OF inv] drain_finishes [OF inv])+
qed

text \<open>C21: From every reachable state of publish there is a continuation in which it returns: whatever the
  reader, the queues and the connection are doing, neither the wait of Close nor the final drain can
  block for good. At most the environment's usual answers (a failed RPC or write, the elapsed timer) are needed to
  leave the sending loop, and nothing of it once the loop has been left.\<close>

theorem publish_can_return:
  assumes "publish_started P v0" "publish_steps L H P contract state signer v0 v"
  shows "\<exists>v' r. publish_steps L H P contract state signer v v' \<and> pw_main v' = MExit r \<and> pw_ctx v' = pw_ctx v"
  by (rule publish_finishes [OF publishing.reached_inv [OF assms]])

subsection \<open>What a nil result means\<close>

fun nil_result :: "main_pc \<Rightarrow> bool" where
  "nil_result (MReturn r) = (r = None)"
| "nil_result (MClosing r) = (r = None)"
| "nil_result (MDrain r) = (r = None)"
| "nil_result (MExit r) = (r = None)"
| "nil_result _ = False"

fun sending :: "main_pc \<Rightarrow> bool" where
  "sending (MSend p) = True"
| "sending (MWrite s d) = True"
| "sending _ = False"

text \<open>The counting of the loop, for a run asked for \<open>count\<close> frames, and the result it hands on.\<close>

definition count_ok :: "nat \<Rightarrow> publish_world \<Rightarrow> bool" where
  "count_ok count v \<longleftrightarrow> length (pw_written v) + pw_left v = count \<and> (sending (pw_main v) \<longrightarrow> 0 < pw_left v) \<and>
     (nil_result (pw_main v) \<longrightarrow> pw_left v = 0) \<and>
     (main_joined (pw_main v) \<and> nil_result (pw_main v) \<longrightarrow> Err (pw_client v) = None)"

lemma app_Join_None: "app_Join [a, b] = None \<longleftrightarrow> a = None \<and> b = None"
  by (cases a; cases b) (simp_all add: app_Join_def List.map_filter_simps)

lemma count_step:
  assumes inv: "publish_inv H v" and step: "publish_step L H P contract state signer v v'" and ok: "count_ok count v"
  shows "count_ok count v'"
  using step
proof (cases rule: publish_step.cases)
  case (sdk_runs w)
  have i: "world_inv H (pw_stream v)" using inv by (simp add: publish_inv_def sdk_ok_def)
  have "Err (w_client w) = Err (pw_client v)" if "main_joined (pw_main v)"
  proof -
    have "sc_stopped (w_client (pw_stream v))"
      using inv that by (cases "pw_main v") (simp_all add: publish_inv_def shutdown_ok_def pw_client_def)
    from step_evolves_stopped [OF sdk_runs(2) i this] this show ?thesis by (simp add: evolves_def Err_def pw_client_def)
  qed
  then show ?thesis using ok sdk_runs by (auto simp: count_ok_def)
next
  case (reader_takes c event)
  have "Err c = Err (pw_client v)"
    using reader_takes(3) by (auto simp: Next_def chan_get_def Err_def split: list.splits if_splits)
  then show ?thesis using ok reader_takes by (simp add: count_ok_def)
next
  case (reader_fails d c e)
  then show ?thesis using ok Next_same [OF reader_fails(3)] by (simp add: count_ok_def)
next
  case (close_returns r)
  then show ?thesis using ok by (simp add: count_ok_def app_Join_None)
qed (use ok in \<open>auto simp: count_ok_def\<close>)

lemma count_started: "publish_start P lifetime io later st count = Inr v \<Longrightarrow> count_ok count v"
  by (erule publish_start_Inr) (simp add: count_ok_def)

text \<open>C23: publish returns nil only when every requested frame was handed to the network and the connection
  was still sound at the end: when it returns nil after a run asked for count frames, it wrote
  exactly count messages, each of which the SDK reported as written, and the SDK's terminal error is nil. At no
  time has it written more frames than requested.\<close>

theorem publish_nil_complete:
  assumes "publish_start P lifetime io later st count = Inr v0" "publish_steps L H P contract state signer v0 v"
  shows "length (pw_written v) \<le> count \<and>
    (case pw_main v of MExit None \<Rightarrow> length (pw_written v) = count \<and> Err (pw_client v) = None | _ \<Rightarrow> True)"
proof -
  have "publish_inv H v0" using assms(1) by (intro publish_started_inv [of P]) (unfold publish_started_def, blast)
  from publishing.steps_preserve [OF assms(2) this, of "count_ok count"] count_step count_started [OF assms(1)]
  have "count_ok count v" by blast
  then show ?thesis by (auto simp: count_ok_def split: main_pc.splits option.splits)
qed

subsection \<open>A complete run\<close>

definition run_app :: maker_app_config where
  "run_app = toy_app\<lparr>mac_Protocol := ''p'', mac_Maker := ''m'', mac_Bids := pub_Bids sample_params, mac_Asks := pub_Asks sample_params,
     mac_Major := 2, mac_Minor := 9\<rparr>"

definition run_hex :: hexlib where
  "run_hex = \<lparr>IsHexAddress = (\<lambda>_. True), HexToAddress = (\<lambda>s. if s = ''p'' then 0xC3 else 0xD4)\<rparr>"

definition run_quote_io :: quote_io where
  "run_quote_io = toy_quote_io\<lparr>qio_Head := Inr (Some \<lparr>bh_Number = Some 100, bh_Time = 1700000000\<rparr>), qio_Now := 1700000004\<rparr>"

definition run_connection :: connection_config where
  "run_connection = default_connection\<lparr>cc_URL := DefaultMakerURL, cc_Reconnect := (cc_Reconnect default_connection)\<lparr>rc_Policy := Disabled\<rparr>\<rparr>"

definition run_new :: stream_client where
  "run_new = newClient None run_connection True (unused_router run_connection)"

definition run_client :: stream_client where
  "run_client = fst (install 0 (fst (dial toy_maker_proto toy_dial run_new)))"

lemma run_quoted:
  "prepareNextQuote toy_decay_lib run_hex sample_client never_done toy_state (LiveSigner toy_signer) run_quote_io (run_app, run_app) =
     ((run_app\<lparr>mac_Minor := 10\<rparr>, run_app\<lparr>mac_Minor := 10\<rparr>), Inr sample_params)"
proof -
  have "ReadGlobalDecayConfig toy_decay_lib silent_rpc sample_client (Some never_done) (Some 100) =
      Inr \<lparr>DecayStartOffsetSeconds = 10, DecayEndOffsetSeconds = 20, MaxAge = 30, MaxDecayPpm = 1000\<rparr>"
    by (simp add: ReadGlobalDecayConfig_def validateBlock_def read_proxy_def toy_decay_lib_def echo_lib_def silent_rpc_def
        as_u32_def Validate_def PPMDenominator_def reject_def Let_def)
  then show ?thesis
    by (simp add: prepareNextQuote_def next_quote_def run_quote_io_def toy_quote_io_def checked_head_def toy_state_def DecayPPM_def
        Validate_def PPMDenominator_def reject_def Let_def reserveVersion_def atomicJSON_def toy_files_def run_app_def toy_app_def
        run_hex_def sample_params_def)
qed

lemma run_dialed:
  "snd (dial toy_maker_proto toy_dial run_new) = Inr 0"
  "snd (install 0 (fst (dial toy_maker_proto toy_dial run_new)))"
  by code_simp+

lemma run_client_facts:
  "sc_current run_client = Some 0" "\<not> sc_stopped run_client" "cc_MaxWriteMessageBytes (sc_cfg run_client) = 524288"
  "\<not> session_done 0 run_client" "length (maker_buf run_client) = 1"
  by code_simp+

lemma run_starts:
  "\<exists>v0. publish_start toy_maker_proto None toy_dial None (run_app, run_app) 1 = Inr v0 \<and> pw_client v0 = run_client \<and>
     pw_main v0 = MLoop \<and> pw_left v0 = 1 \<and> pw_versions v0 = (run_app, run_app) \<and> pw_ctx v0 = None \<and> pw_taken v0 = []"
proof -
  have "normalizeMaker (publish_config run_app) = Inr \<lparr>mc_Connection = run_connection,
      mc_Listing = \<lparr>lc_BaseURL = [], lc_HTTPClient = None, lc_Timeout = 0\<rparr>\<rparr>"
    by (simp add: normalizeMaker_def publish_config_def default_url_def normalizeConnection_def connection_durations_def set_durations_def
        or_default_def run_connection_def default_connection_def seconds_def milliseconds_def run_app_def toy_app_def)
  moreover have "dial_and_install toy_maker_proto toy_dial None run_new = Inr (run_client, 0)"
    unfolding run_client_def
    by (rule dial_and_install_Inr [OF pair_of_snd [OF run_dialed(1)]]) (use run_dialed(2) in \<open>simp add: prod_eq_iff\<close>)
  ultimately show ?thesis
    by (simp add: publish_start_def DialMaker_def newListingClient_def run_new_def [symmetric] pw_client_def Let_def)
qed

lemma run_begins: "publish_begin (eth toy_decay_lib) toy_maker_proto never_done sample_params 0 toy_write run_client = Inr (0, [4])"
proof -
  obtain w where w: "BuildAndSign toy_lib (Some never_done) quoted_sample (LiveSigner toy_signer) =
      Inr (w\<lparr>mf_Signature := replicate 64 9 @ [28]\<rparr>)" "\<not> hasUnknownFields (reflect_market_frame w)"
    using signed_sample by blast
  have s: "shift_ctx (Suc 0) never_done = never_done" "pub_Signer sample_params = LiveSigner toy_signer" "eth toy_decay_lib = toy_lib"
      "never_done k = None" for k
    by (simp_all add: shift_ctx_def never_done_def fun_eq_iff sample_params_def toy_decay_lib_def echo_lib_def)
  have "marshal_maker toy_maker_proto (sc_cfg run_client) (publish_envelope (w\<lparr>mf_Signature := replicate 64 9 @ [28]\<rparr>) 0) = Inr [4]"
    using w(2) run_client_facts
    by (simp add: marshal_def publish_envelope_def reflect_maker_def reflect_market_frame_def toy_maker_proto_def toy_proto_def)
  moreover have "write_begin 0 [4] id toy_write run_client = Inr run_client"
    using run_client_facts by (simp add: write_begin_Inr toy_write_def)
  ultimately show ?thesis
    using w(1) run_client_facts by (simp add: publish_begin_def s quoted_sample nth_append reject_def)
qed

lemma stop_nil:
  assumes "\<not> sc_stopped c"
  shows "Err (stop None c) = None"
proof -
  let ?m = "mark_stopped None c"
  have "evolves ?m (final_event (signalLocked (cancel_client (drop_current (clear_subscription ?m)))))"
    by (simp add: final_event_def evolves_drop evolves_send)
  moreover have "sc_stopped ?m" "sc_err ?m = None" by (simp_all add: mark_stopped_def)
  ultimately show ?thesis using assms by (simp add: Err_def stop_def stopLocked_def evolves_def)
qed

abbreviation run_steps where
  "run_steps \<equiv> publish_steps toy_decay_lib run_hex toy_maker_proto sample_client toy_state (LiveSigner toy_signer)"

lemma complete_run:
  "\<exists>v0 v. publish_start toy_maker_proto None toy_dial None (run_app, run_app) 1 = Inr v0 \<and> run_steps v0 v \<and>
     pw_main v = MExit None \<and> pw_ctx v = None \<and> length (emitted v0) = 1"
proof -
  obtain v0 where v0: "publish_start toy_maker_proto None toy_dial None (run_app, run_app) 1 = Inr v0" "pw_client v0 = run_client"
      "pw_main v0 = MLoop" "pw_left v0 = 1" "pw_versions v0 = (run_app, run_app)" "pw_ctx v0 = None" "pw_taken v0 = []"
    using run_starts by blast
  let ?step = "publish_step toy_decay_lib run_hex toy_maker_proto sample_client toy_state (LiveSigner toy_signer)"
  define v1 where "v1 = v0\<lparr>pw_versions := (run_app\<lparr>mac_Minor := 10\<rparr>, run_app\<lparr>mac_Minor := 10\<rparr>), pw_main := MSend sample_params\<rparr>"
  define v2 where "v2 = v1\<lparr>pw_main := MWrite 0 [4]\<rparr>"
  define v3 where "v3 = (set_client (count_sent [4] run_client) v2)\<lparr>pw_main := MConsume, pw_left := pw_left v2 - 1, pw_written := pw_written v2 @ [[4]]\<rparr>"
  define v4 where "v4 = v3\<lparr>pw_main := MLoop\<rparr>"
  define v5 where "v5 = v4\<lparr>pw_main := MReturn None\<rparr>"
  have s1: "?step v0 v1" unfolding v1_def by (rule publish_step.quote_ready [OF v0(3) _ run_quoted [folded v0(5)]]) (simp add: v0)
  have c: "pw_client v1 = run_client" "pw_client v2 = run_client" by (simp_all add: v1_def v2_def v0)
  have s2: "?step v1 v2" unfolding v2_def by (rule publish_step.send_begins [OF _ run_begins [folded c]]) (simp add: v1_def)
  have "write_end 0 [4] toy_write (pw_client v2) = (count_sent [4] run_client, None)" by (simp add: write_end_def toy_write_def c)
  then have s3: "?step v2 v3" unfolding v3_def by (rule publish_step.send_done [rotated]) (simp add: v2_def)
  have s4: "?step v3 v4" unfolding v4_def by (rule publish_step.consume_timer) (simp add: v3_def)
  have s5: "?step v4 v5" unfolding v5_def by (rule publish_step.all_sent) (simp_all add: v4_def v3_def v2_def v1_def v0)
  have run: "run_steps v0 v5"
    using s1 s2 s3 s4 s5 by (meson converse_rtranclp_into_rtranclp rtranclp.rtrancl_refl)
  have "publish_started toy_maker_proto v0" using v0(1) unfolding publish_started_def by blast
  from publishing.reached_inv [OF this run] have inv: "publish_inv run_hex v5" .
  have "Err (stop None (pw_client v5)) = None"
    by (rule stop_nil) (simp add: v5_def v4_def v3_def run_client_facts)
  moreover have "pw_main v5 = MReturn None" "pw_ctx v5 = None" by (simp_all add: v5_def v4_def v3_def v2_def v1_def v0)
  ultimately obtain v where "run_steps v5 v" "pw_main v = MExit None" "pw_ctx v = None"
    using returning_finishes [OF inv, of None toy_decay_lib toy_maker_proto sample_client toy_state "LiveSigner toy_signer"]
    by (auto simp: app_Join_None)
  with run v0 show ?thesis using run_client_facts(5) by (metis append_Nil emitted_def rtranclp_trans)
qed

theorem published_events_handled_witness:
  "\<exists>v0 v. publish_started toy_maker_proto v0 \<and> run_steps v0 v \<and> pw_handled v = emitted v \<and> pw_handled v \<noteq> [] \<and> pw_reader v = RDone"
proof -
  obtain v0 v where r: "publish_start toy_maker_proto None toy_dial None (run_app, run_app) 1 = Inr v0" "run_steps v0 v"
      "pw_main v = MExit None" "pw_ctx v = None" "length (emitted v0) = 1"
    using complete_run by blast
  have st: "publish_started toy_maker_proto v0" using r(1) unfolding publish_started_def by blast
  from published_events_handled [OF st rtranclp.rtrancl_refl r(2,3)] r(4)
  have h: "pw_handled v = emitted v" "prefix (emitted v0) (pw_handled v)" "pw_reader v = RDone" by auto
  from h(2) r(5) have "pw_handled v \<noteq> []" by (cases "pw_handled v") auto
  with h st r(2) show ?thesis by blast
qed

theorem publish_channels_safe_witness:
  "\<exists>v0 v. publish_started toy_maker_proto v0 \<and> run_steps v0 v \<and> pw_reader v = RDone \<and> gc_closed (pw_eventCh v)"
proof -
  obtain v0 v where r: "publish_start toy_maker_proto None toy_dial None (run_app, run_app) 1 = Inr v0" "run_steps v0 v"
      "pw_main v = MExit None"
    using complete_run by blast
  have st: "publish_started toy_maker_proto v0" using r(1) unfolding publish_started_def by blast
  have "publish_inv run_hex v" using publishing.reached_inv [OF st r(2)] .
  with r(3) have "pw_reader v = RDone" by (simp add: publish_inv_def shutdown_ok_def)
  with publish_channels_safe [OF st r(2)] st r(2) show ?thesis by auto
qed

theorem publish_can_return_witness:
  "\<exists>v0 v r. publish_started toy_maker_proto v0 \<and> pw_main v0 = MLoop \<and> run_steps v0 v \<and> pw_main v = MExit r"
proof -
  obtain v0 where v0: "publish_start toy_maker_proto None toy_dial None (run_app, run_app) 1 = Inr v0" "pw_main v0 = MLoop"
    using run_starts by blast
  have st: "publish_started toy_maker_proto v0" using v0(1) unfolding publish_started_def by blast
  from publish_can_return [OF st rtranclp.rtrancl_refl] v0(2) st show ?thesis by blast
qed

theorem publish_nil_complete_witness:
  "\<exists>v0 v. publish_start toy_maker_proto None toy_dial None (run_app, run_app) 1 = Inr v0 \<and> run_steps v0 v \<and>
     pw_main v = MExit None \<and> length (pw_written v) = 1"
proof -
  obtain v0 v where r: "publish_start toy_maker_proto None toy_dial None (run_app, run_app) 1 = Inr v0" "run_steps v0 v"
      "pw_main v = MExit None"
    using complete_run by blast
  from publish_nil_complete [OF r(1,2)] r show ?thesis by auto
qed

end
