(* ===== verification/Router_Example.thy ===== *)
theory Router_Example
  imports Maker_Example "HOL-Library.AList"
begin

text \<open>
  The example router application, \<open>examples/router\<close>: its filters and swap settings (\<open>config.go\<close>,
  \<open>quote.go\<close>), the quote settings it reads at one block, the swap it shows, the cache of latest
  frames that its event loop owns (\<open>output.go\<close>) and the event loop itself (\<open>router.go\<close>). The cache is
  an association list; Go visits it in any order and sorts. A slice-to-array conversion that
  panics is an error value. Log output is what \<open>observe\<close> lists as shown. The lemmas join the application
  to the SDK: its filters are subscribable, frames the SDK delivers are cached, only current frames
  are shown, and the swap's bound follows from the quote.
\<close>

subsection \<open>config.go\<close>

record filter_config =
  fcf_ChainID :: "u64 option"
  fcf_PairID :: "u32 option"
  fcf_Maker :: string
  fcf_AllowPairGray :: bool
  fcf_AllowMakerGray :: bool

record swap_config =
  swc_ChainID :: u64
  swc_RPCURL :: string
  swc_PairID :: u32
  swc_Maker :: string
  swc_Protocol :: string
  swc_Recipient :: string
  swc_TokenIn :: string
  swc_TokenOut :: string
  swc_AmountIn :: string
  swc_SlippageBPS :: u32

record router_app_config =
  rac_APIKey :: string
  rac_Filters :: "filter_config list"
  rac_Swap :: "swap_config option"
  rac_GrayChainID :: u64
  rac_GrayPairID :: u32
  rac_GrayMaker :: string

datatype router_app_error =
    RaText string
  | RaFilter nat router_app_error
  | RaTestGray router_app_error
  | RaProtocol go_error
  | RaQuote router_error
  | RaSwap swap_error
  | RaStream stream_error
  | RaServer server_error_info
  | RaMarshal string
  | RaSdk sdk_error
  | RaPanic

definition pairFilter :: "hexlib \<Rightarrow> filter_config \<Rightarrow> router_app_error + pair_filter" where
  "pairFilter H f =
    (let filter = \<lparr>pf_Pair = None, pf_Maker = fcf_Maker f, pf_AllowPairGray = fcf_AllowPairGray f,
           pf_AllowMakerGray = fcf_AllowMakerGray f, pf_unknown = []\<rparr> in
     attempt (case (fcf_ChainID f, fcf_PairID f) of
         (None, None) \<Rightarrow> Inr filter
       | (Some chain, Some pair) \<Rightarrow>
           reject (chain = 0 \<or> pair = 0) (RaText ''chain_id and pair_id must both be positive integers'')
          (Inr (filter\<lparr>pf_Pair := Some \<lparr>pk_ChainId = chain, pk_PairId = pair, pk_BaseToken = [], pk_QuoteToken = [],
             pk_unknown = []\<rparr>\<rparr>))
       | _ \<Rightarrow> Inl (RaText ''chain_id and pair_id must both be positive integers'')) (\<lambda>filter.
     reject (fcf_Maker f \<noteq> [] \<and> (\<not> IsHexAddress H (fcf_Maker f) \<or> HexToAddress H (fcf_Maker f) = 0))
       (RaText ''maker must be a nonzero EVM address'')
    (reject (fcf_AllowPairGray f \<and> pf_Pair filter = None) (RaText ''allow_pair_gray requires explicit chain_id and pair_id values'')
    (reject (fcf_AllowMakerGray f \<and> fcf_Maker f = []) (RaText ''allow_maker_gray requires an explicit maker'')
    (Inr filter)))))"

fun filter_items :: "hexlib \<Rightarrow> nat \<Rightarrow> filter_config list \<Rightarrow> pair_filter list \<Rightarrow> router_app_error + pair_filter list" where
  "filter_items H i [] filters = Inr filters"
| "filter_items H i (item # items) filters =
     attempt (wrap_err (RaFilter i) (pairFilter H item)) (\<lambda>f. filter_items H (Suc i) items (filters @ [f]))"

definition empty_filter :: pair_filter where
  "empty_filter = \<lparr>pf_Pair = None, pf_Maker = [], pf_AllowPairGray = False, pf_AllowMakerGray = False, pf_unknown = []\<rparr>"

definition subscriptionFilters :: "hexlib \<Rightarrow> router_app_config \<Rightarrow> bool \<Rightarrow> router_app_error + pair_filter list" where
  "subscriptionFilters H c includeGray =
     attempt (filter_items H 0 (rac_Filters c) []) (\<lambda>filters.
     let filters = (if length filters = 0 then filters @ [empty_filter] else filters) in
     if \<not> includeGray then Inr filters
     else
       attempt (wrap_err RaTestGray (pairFilter H \<lparr>fcf_ChainID = Some (rac_GrayChainID c), fcf_PairID = Some (rac_GrayPairID c),
         fcf_Maker = rac_GrayMaker c, fcf_AllowPairGray = False, fcf_AllowMakerGray = False\<rparr>)) (\<lambda>f.
       Inr (filters @ [f])))"

definition router_readConfig :: "router_app_config \<times> string option \<times> body_rest \<Rightarrow> router_app_config \<times> router_app_error option" where
  "router_readConfig f = (case f of (cfg, err, rest) \<Rightarrow> (cfg,
     case err of
       Some e \<Rightarrow> Some (RaMarshal e)
     | None \<Rightarrow> if rest \<noteq> BodyEOF then Some (RaText ''config must contain exactly one JSON object'') else None))"

subsection \<open>quote.go\<close>

definition positiveInteger :: "string \<Rightarrow> nat \<Rightarrow> router_app_error + int" where
  "positiveInteger value bits =
     reject (\<not> list_all is_digit value) (RaText ''must be a positive decimal string'')
    (case big_SetString value of
       None \<Rightarrow> Inl (RaText ''must be a positive decimal string'')
     | Some n \<Rightarrow> reject (n \<le> 0 \<or> BitLen n > bits) (RaText ''must be a positive decimal string'') (Inr n))"

text \<open>\<open>url.Parse\<close> is the parameter \<open>parse\<close>: what the code reads of the parsed URL.\<close>

record rpc_url =
  ru_Hostname :: string
  ru_Fragment :: string
  ru_Scheme :: string

definition bad_rpc_url :: "(string \<Rightarrow> rpc_url option) \<Rightarrow> string \<Rightarrow> bool" where
  "bad_rpc_url parse raw = (case parse raw of
     None \<Rightarrow> True
   | Some u \<Rightarrow> ru_Hostname u = [] \<or> ru_Fragment u \<noteq> [] \<or>
       ru_Scheme u \<notin> {''http'', ''https'', ''ws'', ''wss''})"

definition swap_validate :: "hexlib \<Rightarrow> (string \<Rightarrow> rpc_url option) \<Rightarrow> swap_config \<Rightarrow> router_app_error + unit" where
  "swap_validate H parse s =
     reject (bad_rpc_url parse (swc_RPCURL s)) (RaText ''swap.rpc_url must be an HTTP(S) or WS(S) URL without a fragment'')
    (reject (swc_ChainID s = 0 \<or> swc_PairID s = 0 \<or> swc_SlippageBPS s \<ge> 10000)
       (RaText ''swap requires positive chain_id/pair_id and slippage_bps below 10000'')
    (reject (\<not> list_all (nonzero_address H) [swc_Maker s, swc_Protocol s, swc_Recipient s, swc_TokenIn s, swc_TokenOut s])
       (RaText ''must be a nonzero EVM address'')
    (reject (HexToAddress H (swc_TokenIn s) = HexToAddress H (swc_TokenOut s)) (RaText ''swap token_in and token_out must differ'')
    (attempt (positiveInteger (swc_AmountIn s) 256) (\<lambda>_. Inr ())))))"

definition router_app_validate :: "hexlib \<Rightarrow> (string \<Rightarrow> rpc_url option) \<Rightarrow> bool \<Rightarrow> router_app_config \<Rightarrow> router_app_error + unit" where
  "router_app_validate H parse includeGray c =
     reject (rac_APIKey c = []) (RaText ''set a Router api_key in the Router config'')
    (attempt (subscriptionFilters H c includeGray) (\<lambda>_.
     case rac_Swap c of None \<Rightarrow> Inr () | Some s \<Rightarrow> swap_validate H parse s))"

text \<open>The contract calls of a sequence of reads are numbered through.\<close>

definition shift_calls :: "nat \<Rightarrow> rpc \<Rightarrow> rpc" where
  "shift_calls n r = r\<lparr>CallContract := (\<lambda>k. CallContract r (n + k))\<rparr>"

definition token_decimals :: "chainlib \<Rightarrow> rpc \<Rightarrow> int \<Rightarrow> nat \<Rightarrow> address \<Rightarrow> router_app_error + u8" where
  "token_decimals L r block k token =
     attempt (wrap_err (RaProtocol \<circ> Wrap ''decimals'') (CallContract r k
       \<lparr>msg_From = 0, msg_To = token, msg_Data = take 4 (Keccak256 (eth L) [ascii ''decimals()''])\<rparr> (Some block))) (\<lambda>raw.
     reject (length raw \<noteq> 32 \<or> BitLen (big_SetBytes raw) > 8) (RaText ''decimals: invalid uint8 ABI response'')
    (Inr (word_of_int (big_SetBytes raw))))"

definition loadQuoteConfig :: "chainlib \<Rightarrow> rpc \<Rightarrow> client \<Rightarrow> ctx option \<Rightarrow> u32 \<Rightarrow> router_app_error + quote_config" where
  "loadQuoteConfig L r contract cx pairID =
     attempt (wrap_err RaProtocol (BlockNumber r)) (\<lambda>number.
     let block = uint number in
     attempt (wrap_err RaProtocol (EffectivePairConfig L r contract cx pairID (Some block))) (\<lambda>pair.
     reject (\<not> pc_Active pair) (RaText ''pair is inactive'')
    (attempt (wrap_err RaProtocol (ReadGlobalDecayConfig L (shift_calls 2 r) contract cx (Some block))) (\<lambda>decay.
     attempt (token_decimals L r block 3 (pc_BaseToken pair)) (\<lambda>base.
     attempt (token_decimals L r block 4 (pc_QuoteToken pair)) (\<lambda>quote.
     Inr \<lparr>qc_Pair = \<lparr>pp_PairID = pairID, pp_BaseToken = pc_BaseToken pair, pp_QuoteToken = pc_QuoteToken pair,
            pp_BaseDecimals = base, pp_QuoteDecimals = quote, pp_PriceTickSize = Some (pc_PriceTickSize pair),
            pp_LotSize = Some (pc_LotSize pair)\<rparr>,
          qc_FeeToken = pc_FeeToken pair, qc_FeeRatePPM = pc_FeeRate pair,
          qc_DecayStartOffsetSeconds = DecayStartOffsetSeconds decay\<rparr>))))))"

text \<open>What \<open>showSwap\<close> logs: the input, the quoted output, the minimum and the calldata.\<close>

definition showSwap :: "chainlib \<Rightarrow> hexlib \<Rightarrow> swap_config \<Rightarrow> frame_update \<Rightarrow> quote_config \<Rightarrow> u64 \<Rightarrow>
    router_app_error + int \<times> int \<times> int \<times> bytes" where
  "showSwap L H s u params now =
     attempt (positiveInteger (swc_AmountIn s) 256) (\<lambda>amountIn.
     let v = Some (fu_Frame u); tokenIn = HexToAddress H (swc_TokenIn s); tokenOut = HexToAddress H (swc_TokenOut s) in
     attempt (wrap_err RaQuote (Quote H v tokenIn tokenOut (Some amountIn) params now)) (\<lambda>amountOut.
     let minOut = Quo (amountOut * uint (ucast (10000 - swc_SlippageBPS s) :: u64)) 10000 in
     attempt (wrap_err RaSwap (BuildSwap L H v tokenIn tokenOut (Some amountIn) (Some minOut) (HexToAddress H (swc_Recipient s)))) (\<lambda>(_, calldata).
     Inr (amountIn, amountOut, minOut, calldata))))"

subsection \<open>output.go\<close>

record quote_observer =
  qo_latest :: "(frame_key \<times> frame_update) list"
  qo_seen :: "frame_key \<rightharpoonup> bytes"
  qo_generation :: u64
  qo_revision :: u64

definition empty_observer :: quote_observer where
  "empty_observer = \<lparr>qo_latest = [], qo_seen = Map.empty, qo_generation = 0, qo_revision = 0\<rparr>"

definition observer_sync :: "client_status \<Rightarrow> quote_observer \<Rightarrow> quote_observer" where
  "observer_sync status q =
    (if st_Phase status \<noteq> Connected \<or> st_Generation status \<noteq> qo_generation q \<or> st_SubscriptionRevision status \<noteq> qo_revision q
     then q\<lparr>qo_latest := [], qo_seen := Map.empty, qo_generation := st_Generation status,
       qo_revision := st_SubscriptionRevision status\<rparr>
     else q)"

definition observer_current :: "quote_observer \<Rightarrow> client_status \<Rightarrow> frame_update \<Rightarrow> bool" where
  "observer_current q status u \<longleftrightarrow> st_Phase status = Connected \<and>
     st_Generation status = qo_generation q \<and> st_SubscriptionRevision status = qo_revision q \<and>
     fu_Generation u = st_Generation status \<and> fu_SubscriptionRevision u = st_SubscriptionRevision status"

definition accept :: "frame_update \<Rightarrow> client_status \<Rightarrow> int \<Rightarrow> quote_observer \<Rightarrow> quote_observer \<times> router_app_error option" where
  "accept u status limit q0 =
    (let q = observer_sync status q0 in
     if \<not> observer_current q status u then (q, None)
     else if map_of (qo_latest q) (fu_Key u) = None \<and> int (length (qo_latest q)) \<ge> limit
     then (q, Some (RaText ''application frame cache reached its limit''))
     else (q\<lparr>qo_latest := AList.update (fu_Key u) u (qo_latest q)\<rparr>, None))"

text \<open>The order of the display; \<open>hex\<close> is \<open>Address.Hex\<close>, compared bytewise.\<close>

fun string_less :: "string \<Rightarrow> string \<Rightarrow> bool" where
  "string_less s [] = False"
| "string_less [] (y # ys) = True"
| "string_less (x # xs) (y # ys) = (if x = y then string_less xs ys else (of_char x :: nat) < of_char y)"

definition key_less :: "(address \<Rightarrow> string) \<Rightarrow> frame_key \<Rightarrow> frame_key \<Rightarrow> bool" where
  "key_less hex a b =
    (if fk_ChainID a \<noteq> fk_ChainID b then fk_ChainID a < fk_ChainID b
     else if fk_PairID a \<noteq> fk_PairID b then fk_PairID a < fk_PairID b
     else string_less (hex (fk_Maker a)) (hex (fk_Maker b)))"

fun insert_quote :: "(address \<Rightarrow> string) \<Rightarrow> frame_update \<Rightarrow> frame_update list \<Rightarrow> frame_update list" where
  "insert_quote hex u [] = [u]"
| "insert_quote hex u (v # vs) = (if key_less hex (fu_Key v) (fu_Key u) then v # insert_quote hex u vs else u # v # vs)"

definition sort_quotes :: "(address \<Rightarrow> string) \<Rightarrow> frame_update list \<Rightarrow> frame_update list" where
  "sort_quotes hex us = foldr (insert_quote hex) us []"

text \<open>What one turn of the loop of \<open>observe\<close> sees: the status at each check, the RPC endpoint and the clock.\<close>

record observe_io =
  oio_First :: client_status
  oio_Second :: client_status
  oio_Third :: client_status
  oio_Rpc :: rpc
  oio_Ctx :: ctx
  oio_Now :: u64

record shown_quote =
  sq_Update :: frame_update
  sq_Header :: header
  sq_Swap :: "(router_app_error + int \<times> int \<times> int \<times> bytes) option"

definition observe_swap :: "chainlib \<Rightarrow> hexlib \<Rightarrow> swap_config option \<Rightarrow> client \<Rightarrow> observe_io \<Rightarrow> quote_observer \<Rightarrow> frame_update \<Rightarrow>
    (router_app_error + int \<times> int \<times> int \<times> bytes) option" where
  "observe_swap L H swp contract io q u =
    (case swp of
       None \<Rightarrow> None
     | Some s \<Rightarrow>
         if fk_ChainID (fu_Key u) \<noteq> swc_ChainID s \<or> fk_PairID (fu_Key u) \<noteq> swc_PairID s \<or>
           fk_Maker (fu_Key u) \<noteq> HexToAddress H (swc_Maker s) then None
         else case loadQuoteConfig L (oio_Rpc io) contract (Some (oio_Ctx io)) (swc_PairID s) of
           Inl e \<Rightarrow> Some (Inl e)
         | Inr params \<Rightarrow>
             if \<not> observer_current q (oio_Third io) u then None
             else Some (showSwap L H s u params (oio_Now io)))"

text \<open>The header of the frame as an array; the conversion panics on a shorter slice, the access on a
  missing frame.\<close>

definition header_array :: "market_frame \<Rightarrow> compact_frame option" where
  "header_array m = (case mf_Frame m of
     None \<Rightarrow> None
   | Some f \<Rightarrow> if length (pcf_Header f) < 32 then None
       else Some \<lparr>Header = take 32 (pcf_Header f), BidLevels = replicate 32 0, AskLevels = replicate 32 0\<rparr>)"

text \<open>The loop of \<open>observe\<close>; \<open>mar\<close> is \<open>proto.Marshal\<close> and \<open>sha\<close> is \<open>sha256.Sum256\<close>.\<close>

fun observe_quotes :: "chainlib \<Rightarrow> hexlib \<Rightarrow> (market_frame \<Rightarrow> string + bytes) \<Rightarrow> (bytes \<Rightarrow> bytes) \<Rightarrow> swap_config option \<Rightarrow> client \<Rightarrow>
    (nat \<Rightarrow> observe_io) \<Rightarrow> nat \<Rightarrow> frame_update list \<Rightarrow> quote_observer \<Rightarrow> quote_observer \<times> shown_quote list \<times> router_app_error option" where
  "observe_quotes L H mar sha swp k ios i [] q = (q, [], None)"
| "observe_quotes L H mar sha swp k ios i (u # us) q =
    (if \<not> observer_current q (oio_First (ios i)) u then observe_quotes L H mar sha swp k ios (Suc i) us q
     else case mar (fu_Frame u) of
       Inl e \<Rightarrow> (q, [], Some (RaMarshal e))
     | Inr wire \<Rightarrow>
         if qo_seen q (fu_Key u) = Some (sha wire) then observe_quotes L H mar sha swp k ios (Suc i) us q
         else case header_array (fu_Frame u) of
           None \<Rightarrow> (q, [], Some RaPanic)
         | Some f \<Rightarrow>
             if \<not> observer_current q (oio_Second (ios i)) u then observe_quotes L H mar sha swp k ios (Suc i) us q
             else
               let q' = q\<lparr>qo_seen := (qo_seen q)(fu_Key u \<mapsto> sha wire)\<rparr>;
                   item = \<lparr>sq_Update = u, sq_Header = DecodeHeader f, sq_Swap = observe_swap L H swp k (ios i) q' u\<rparr> in
               case observe_quotes L H mar sha swp k ios (Suc i) us q' of (q2, items, err) \<Rightarrow> (q2, item # items, err))"

definition observe :: "chainlib \<Rightarrow> hexlib \<Rightarrow> (market_frame \<Rightarrow> string + bytes) \<Rightarrow> (bytes \<Rightarrow> bytes) \<Rightarrow> swap_config option \<Rightarrow> client \<Rightarrow>
    client_status \<Rightarrow> (nat \<Rightarrow> observe_io) \<Rightarrow> quote_observer \<Rightarrow> quote_observer \<times> shown_quote list \<times> router_app_error option" where
  "observe L H mar sha swp k status ios q0 =
    (let q = observer_sync status q0 in
     observe_quotes L H mar sha swp k ios 0 (sort_quotes (Hex (eth L)) (map snd (qo_latest q))) q)"

subsection \<open>router.go\<close>

fun validateSubscription :: "subscription_item_result list \<Rightarrow> router_app_error option" where
  "validateSubscription [] = None"
| "validateSubscription (item # items) =
    (if \<not> si_Accepted item then Some (RaText ''subscription filter was rejected'') else validateSubscription items)"

text \<open>What \<open>run\<close> does before its loop: the filters, the contract client when a swap is configured, and the
  connection with the API key and the frame buffer of the options. \<open>dialed\<close> is \<open>ethclient.DialContext\<close>.\<close>

definition app_connection :: "router_app_config \<Rightarrow> int \<Rightarrow> router_config" where
  "app_connection c frameBuffer =
    \<lparr>rtc_Connection = \<lparr>cc_URL = [], cc_APIKey = rac_APIKey c, cc_HandshakeTimeout = 0, cc_WriteTimeout = 0, cc_HeartbeatInterval = 0,
       cc_ReadIdleTimeout = 0, cc_EventBufferSize = 0, cc_MaxReadMessageBytes = 0, cc_MaxWriteMessageBytes = 0,
       cc_Reconnect = \<lparr>rc_Policy = Enabled, rc_InitialDelay = 0, rc_MaxDelay = 0, rc_ResetAfter = 0\<rparr>\<rparr>,
     rtc_Listing = \<lparr>lc_BaseURL = [], lc_HTTPClient = None, lc_Timeout = 0\<rparr>, rtc_SubscribeTimeout = 0, rtc_MaxSubscribeFilters = 0,
     rtc_FrameBufferSize = frameBuffer\<rparr>"

definition run_open :: "protolib \<Rightarrow> hexlib \<Rightarrow> ctx \<Rightarrow> string + rpc \<Rightarrow> ctx_error option \<Rightarrow> dial_io \<Rightarrow> ctx_error option \<Rightarrow> bool \<Rightarrow> int \<Rightarrow>
    router_app_config \<Rightarrow> router_app_error + pair_filter list \<times> client option \<times> stream_client" where
  "run_open P H ctx dialed lifetime io later includeGray frameBuffer cfg =
     attempt (subscriptionFilters H cfg includeGray) (\<lambda>filters.
     attempt (case rac_Swap cfg of
         None \<Rightarrow> Inr None
       | Some s \<Rightarrow>
           attempt (wrap_err RaText dialed) (\<lambda>r.
           attempt (wrap_err RaProtocol (NewClient (Some ctx) (Some r)
             \<lparr>cl_ChainID = swc_ChainID s, cl_Proxy = HexToAddress H (swc_Protocol s)\<rparr>)) (\<lambda>k. Inr (Some k)))) (\<lambda>contract.
     attempt (wrap_err RaSdk (DialRouter P lifetime (app_connection cfg frameBuffer) io later)) (\<lambda>(c, s, l).
     Inr (filters, contract, c))))"

text \<open>The deferred close: \<open>closeErr\<close> is what \<open>Close\<close> returns. The list is what \<open>errors.Join\<close> joins.\<close>

definition run_close :: "ctx_error option \<Rightarrow> stream_error option \<Rightarrow> router_app_error option \<Rightarrow> router_app_error list" where
  "run_close ended closeErr err =
     (case err of None \<Rightarrow> [] | Some e \<Rightarrow> [e]) @
     (case closeErr of
        None \<Rightarrow> []
      | Some e \<Rightarrow> if ended = None \<or> \<not> errors_Is e (ContextError (the ended)) then [RaStream e] else [])"

text \<open>One turn of the event loop. \<open>c\<close> is the client when the turn calls \<open>Status\<close> or \<open>Err\<close>, which is after
  the channel operation that started the turn, so other goroutines may have run in between; \<open>ended\<close> is
  \<open>ctx.Err\<close>; a frame or event that is None is the closed channel.\<close>

datatype run_choice =
    RunContextDone
  | RunReply "stream_error + subscription_result"
  | RunFrame "frame_update option"
  | RunEvent "router_event option"
  | RunPoll "nat \<Rightarrow> observe_io"
  | RunStatus

record run_state =
  rs_observer :: quote_observer
  rs_frames :: bool
  rs_replied :: bool

datatype run_result = RunOn run_state | RunReturn "router_app_error option"

definition run_event :: "router_event \<Rightarrow> router_app_error option" where
  "run_event e = (case rev_Kind e of
     SubscriptionChanged \<Rightarrow> validateSubscription (sub_Results (rev_Subscription e))
   | ServerError \<Rightarrow> map_option RaServer (rev_ServerError e)
   | _ \<Rightarrow> None)"

definition run_continue :: "run_state \<Rightarrow> router_app_error option \<Rightarrow> run_result" where
  "run_continue s err = (case err of Some e \<Rightarrow> RunReturn (Some e) | None \<Rightarrow> RunOn s)"

definition run_turn :: "chainlib \<Rightarrow> hexlib \<Rightarrow> (market_frame \<Rightarrow> string + bytes) \<Rightarrow> (bytes \<Rightarrow> bytes) \<Rightarrow> router_app_config \<Rightarrow> client \<Rightarrow>
    int \<Rightarrow> stream_client \<Rightarrow> ctx_error option \<Rightarrow> run_choice \<Rightarrow> run_state \<Rightarrow> run_result" where
  "run_turn L H mar sha cfg k maxCache c ended choice s =
    (case choice of
       RunContextDone \<Rightarrow> RunReturn None
     | RunReply r \<Rightarrow>
        (case r of
           Inl e \<Rightarrow> RunReturn (if ended \<noteq> None then None else Some (RaStream e))
         | Inr result \<Rightarrow> run_continue (s\<lparr>rs_frames := True, rs_replied := True\<rparr>) (validateSubscription (sub_Results result)))
     | RunFrame None \<Rightarrow> RunReturn (if ended \<noteq> None then None else map_option RaStream (Err c))
     | RunFrame (Some u) \<Rightarrow>
        (case accept u (Status c) maxCache (rs_observer s) of (q, err) \<Rightarrow> run_continue (s\<lparr>rs_observer := q\<rparr>) err)
     | RunEvent None \<Rightarrow>
         RunReturn (if ended \<noteq> None then None
           else case Err c of Some e \<Rightarrow> Some (RaStream e) | None \<Rightarrow> Some (RaText ''router event stream closed unexpectedly''))
     | RunEvent (Some e) \<Rightarrow>
         run_continue (s\<lparr>rs_observer := observer_sync (Status c) (rs_observer s)\<rparr>) (run_event e)
     | RunPoll ios \<Rightarrow>
        (case observe L H mar sha (rac_Swap cfg) k (Status c) ios (rs_observer s) of
           (q, items, err) \<Rightarrow> run_continue (s\<lparr>rs_observer := q\<rparr>) err)
     | RunStatus \<Rightarrow> RunOn (s\<lparr>rs_observer := observer_sync (Status c) (rs_observer s)\<rparr>))"

subsection \<open>Filters\<close>

text \<open>What the SDK requires of one filter.\<close>

lemma validate_filters_app:
  assumes "\<forall>f\<in>set fs. \<exists>item. pairFilter H item = Inr f \<or> f = empty_filter"
  shows "validate_filters H i (map Some fs) = Inr ()"
  using assms
proof (induction fs arbitrary: i)
  case (Cons f fs)
  then obtain item where "pairFilter H item = Inr f \<or> f = empty_filter" by auto
  then have "\<not> (case pf_Pair f of None \<Rightarrow> False | Some k \<Rightarrow> pk_ChainId k = 0 \<or> pk_PairId k = 0)"
      "\<not> (pf_Maker f \<noteq> [] \<and> (\<not> IsHexAddress H (pf_Maker f) \<or> HexToAddress H (pf_Maker f) = 0))"
      "\<not> ((pf_AllowPairGray f \<and> pf_Pair f = None) \<or> (pf_AllowMakerGray f \<and> pf_Maker f = []))"
      "\<not> hasUnknownFields (reflect_pair_filter f)"
    by (auto simp: pairFilter_def empty_filter_def attempt_Inr Let_def reflect_pair_filter_def reflect_pair_key_def
        message_field_def split: option.splits)
  with Cons show ?case by simp
qed simp

lemma filter_items_Inr:
  "filter_items H i items acc = Inr fs \<Longrightarrow> \<exists>new. fs = acc @ new \<and> list_all2 (\<lambda>item f. pairFilter H item = Inr f) items new"
proof (induction H i items acc rule: filter_items.induct)
  case (2 H i item items acc)
  then obtain f where f: "pairFilter H item = Inr f" "filter_items H (Suc i) items (acc @ [f]) = Inr fs"
    by (auto simp: attempt_Inr)
  with 2(1) [OF _ f(2)] show ?case by (fastforce simp: attempt_def)
qed simp

text \<open>The filters a configuration asks for: what each item says, the filter without any condition when
  there is no item, and the legacy gray pair when it is included.\<close>

definition wanted_filter :: "filter_config \<Rightarrow> pair_filter" where
  "wanted_filter item =
    \<lparr>pf_Pair = (case (fcf_ChainID item, fcf_PairID item) of
       (Some chain, Some pair) \<Rightarrow> Some \<lparr>pk_ChainId = chain, pk_PairId = pair, pk_BaseToken = [], pk_QuoteToken = [], pk_unknown = []\<rparr>
     | _ \<Rightarrow> None),
     pf_Maker = fcf_Maker item, pf_AllowPairGray = fcf_AllowPairGray item, pf_AllowMakerGray = fcf_AllowMakerGray item, pf_unknown = []\<rparr>"

definition wanted_filters :: "router_app_config \<Rightarrow> bool \<Rightarrow> pair_filter list" where
  "wanted_filters cfg includeGray =
     (if rac_Filters cfg = []
      then [\<lparr>pf_Pair = None, pf_Maker = [], pf_AllowPairGray = False, pf_AllowMakerGray = False, pf_unknown = []\<rparr>]
      else map wanted_filter (rac_Filters cfg)) @
     (if includeGray
      then [\<lparr>pf_Pair = Some \<lparr>pk_ChainId = rac_GrayChainID cfg, pk_PairId = rac_GrayPairID cfg, pk_BaseToken = [], pk_QuoteToken = [],
          pk_unknown = []\<rparr>, pf_Maker = rac_GrayMaker cfg, pf_AllowPairGray = False, pf_AllowMakerGray = False, pf_unknown = []\<rparr>]
      else [])"

lemma pairFilter_wanted: "pairFilter H item = Inr f \<Longrightarrow> f = wanted_filter item"
  by (auto simp: pairFilter_def wanted_filter_def attempt_Inr Let_def split: option.splits)

lemma subscriptionFilters_wanted:
  assumes "subscriptionFilters H cfg includeGray = Inr fs"
  shows "fs = wanted_filters cfg includeGray"
proof -
  obtain items where i: "list_all2 (\<lambda>item f. pairFilter H item = Inr f) (rac_Filters cfg) items"
      "filter_items H 0 (rac_Filters cfg) [] = Inr items"
    using assms filter_items_Inr [of H 0 "rac_Filters cfg" "[]"] by (auto simp: subscriptionFilters_def attempt_Inr)
  have "items = map wanted_filter (rac_Filters cfg)"
    using i(1) by (induction rule: list_all2_induct) (auto dest: pairFilter_wanted)
  then show ?thesis
    using assms i(2) pairFilter_wanted [of H "\<lparr>fcf_ChainID = Some (rac_GrayChainID cfg), fcf_PairID = Some (rac_GrayPairID cfg),
      fcf_Maker = rac_GrayMaker cfg, fcf_AllowPairGray = False, fcf_AllowMakerGray = False\<rparr>"]
    by (auto simp: subscriptionFilters_def wanted_filters_def wanted_filter_def empty_filter_def attempt_Inr Let_def split: if_splits)
qed

text \<open>The subscription the application builds is one the SDK accepts: every filter list that
  subscriptionFilters returns is nonempty, has one filter per configured item (one that matches
  everything when there is none) plus the legacy one, and passes the SDK's own validation whenever
  it is within the SDK's limit.\<close>

lemma app_filters_subscribable:
  assumes "subscriptionFilters H cfg includeGray = Inr fs"
  shows "length fs = max 1 (length (rac_Filters cfg)) + (if includeGray then 1 else 0) \<and>
    (int (length fs) \<le> limit \<longrightarrow> validateSubscriptionFilters H (map Some fs) limit = Inr ())"
proof -
  obtain items where i: "list_all2 (\<lambda>item f. pairFilter H item = Inr f) (rac_Filters cfg) items"
      "filter_items H 0 (rac_Filters cfg) [] = Inr items"
    using assms filter_items_Inr [of H 0 "rac_Filters cfg" "[]"] by (auto simp: subscriptionFilters_def attempt_Inr)
  define base where "base = (if items = [] then [empty_filter] else items)"
  have all: "\<forall>f\<in>set base. \<exists>item. pairFilter H item = Inr f \<or> f = empty_filter"
    using i(1) by (auto simp: base_def list_all2_conv_all_nth in_set_conv_nth) blast
  have len: "length base = max 1 (length (rac_Filters cfg))" "base \<noteq> []"
    using list_all2_lengthD [OF i(1)] by (auto simp: base_def max_def Suc_le_eq)
  have "fs = base \<and> \<not> includeGray \<or> (\<exists>item f. includeGray \<and> fs = base @ [f] \<and> pairFilter H item = Inr f)"
    using assms i(2) by (auto simp: subscriptionFilters_def attempt_Inr base_def Let_def split: if_splits)
  moreover from this have "validate_filters H 0 (map Some fs) = Inr ()"
    using all by (intro validate_filters_app) auto
  ultimately show ?thesis using len by (auto simp: validateSubscriptionFilters_def)
qed

definition toy_router_app :: router_app_config where
  "toy_router_app = \<lparr>rac_APIKey = ''key'', rac_Filters = [\<lparr>fcf_ChainID = Some 1, fcf_PairID = Some 2, fcf_Maker = [],
     fcf_AllowPairGray = True, fcf_AllowMakerGray = False\<rparr>], rac_Swap = None, rac_GrayChainID = 0, rac_GrayPairID = 0, rac_GrayMaker = []\<rparr>"

subsection \<open>The cache\<close>

definition cache_ok :: "nat \<Rightarrow> quote_observer \<Rightarrow> bool" where
  "cache_ok limit q \<longleftrightarrow> distinct (map fst (qo_latest q)) \<and> length (qo_latest q) \<le> limit \<and>
     (\<forall>(k, u)\<in>set (qo_latest q). fu_Key u = k \<and> fu_Generation u = qo_generation q \<and> fu_SubscriptionRevision u = qo_revision q)"

lemma cache_ok_sync: "cache_ok limit q \<Longrightarrow> cache_ok limit (observer_sync status q)"
  by (auto simp: cache_ok_def observer_sync_def)

lemma length_update: "length (AList.update k v xs) = (if map_of xs k = None then Suc (length xs) else length xs)"
  by (induction xs) auto

lemma set_update: "x \<in> set (AList.update k v xs) \<Longrightarrow> x = (k, v) \<or> x \<in> set xs"
  by (induction xs) (auto split: if_splits)

lemma cache_ok_accept:
  assumes "cache_ok limit q" "accept u status (int limit) q = (q', err)"
  shows "cache_ok limit q'"
proof -
  let ?s = "observer_sync status q"
  have s: "cache_ok limit ?s" using assms(1) by (rule cache_ok_sync)
  show ?thesis
  proof (cases "observer_current ?s status u \<and> \<not> (map_of (qo_latest ?s) (fu_Key u) = None \<and> int (length (qo_latest ?s)) \<ge> int limit)")
    case True
    then have q': "q' = ?s\<lparr>qo_latest := AList.update (fu_Key u) u (qo_latest ?s)\<rparr>"
      using assms(2) by (auto simp: accept_def Let_def)
    have "distinct (map fst (AList.update (fu_Key u) u (qo_latest ?s)))"
      using s by (simp add: cache_ok_def distinct_update)
    moreover have "length (AList.update (fu_Key u) u (qo_latest ?s)) \<le> limit"
      using s True by (auto simp: cache_ok_def length_update)
    moreover have "\<forall>(k, v)\<in>set (AList.update (fu_Key u) u (qo_latest ?s)).
        fu_Key v = k \<and> fu_Generation v = qo_generation ?s \<and> fu_SubscriptionRevision v = qo_revision ?s"
      using s True by (auto simp: cache_ok_def observer_current_def dest!: set_update)
    ultimately show ?thesis by (simp add: q' cache_ok_def)
  next
    case False
    then show ?thesis using s assms(2) by (auto simp: accept_def Let_def split: if_splits)
  qed
qed

lemma observe_quotes_frame:
  assumes "observe_quotes L H mar sha swp k ios i us q = (q', items, err)"
  shows "qo_latest q' = qo_latest q \<and> qo_generation q' = qo_generation q \<and> qo_revision q' = qo_revision q"
  using assms
  by (induction L H mar sha swp k ios i us q arbitrary: items err rule: observe_quotes.induct)
    (auto simp: Let_def split: if_splits sum.splits option.splits prod.splits)

lemma cache_ok_observe:
  assumes "cache_ok limit q" "observe L H mar sha swp k status ios q = (q', items, err)"
  shows "cache_ok limit q'"
  using cache_ok_sync [OF assms(1), of status] observe_quotes_frame [OF assms(2) [unfolded observe_def Let_def]]
  by (simp add: cache_ok_def)

text \<open>The event loop as a step system over the application's state; the SDK's client may be in any
  state at each turn.\<close>

definition run_start :: "run_state \<Rightarrow> bool" where
  "run_start s \<longleftrightarrow> rs_observer s = empty_observer \<and> \<not> rs_frames s \<and> \<not> rs_replied s"

inductive run_step :: "chainlib \<Rightarrow> hexlib \<Rightarrow> router_app_config \<Rightarrow> nat \<Rightarrow> run_state \<Rightarrow> run_state \<Rightarrow> bool" for L H cfg limit where
  turn: "run_turn L H mar sha cfg k (int limit) c ended choice s = RunOn s' \<Longrightarrow> run_step L H cfg limit s s'"

lemma run_continue_RunOn [simp]: "run_continue s err = RunOn s' \<longleftrightarrow> err = None \<and> s' = s"
  by (auto simp: run_continue_def split: option.splits)

lemma run_step_ok:
  assumes "cache_ok limit (rs_observer s)" "run_step L H cfg limit s s'"
  shows "cache_ok limit (rs_observer s')"
  using assms(2)
proof cases
  case (turn mar sha k c ended choice)
  show ?thesis
  proof (cases choice)
    case (RunReply r)
    then show ?thesis using turn assms(1) by (cases r) (auto simp: run_turn_def)
  next
    case (RunFrame uo)
    show ?thesis
    proof (cases uo)
      case (Some u)
      obtain q err where a: "accept u (Status c) (int limit) (rs_observer s) = (q, err)" by fastforce
      then have "s' = s\<lparr>rs_observer := q\<rparr>" using turn RunFrame Some by (simp add: run_turn_def)
      then show ?thesis using cache_ok_accept [OF assms(1) a] by simp
    qed (use turn RunFrame in \<open>simp add: run_turn_def\<close>)
  next
    case (RunEvent eo)
    then show ?thesis using turn assms(1) by (cases eo) (auto simp: run_turn_def cache_ok_sync)
  next
    case (RunPoll ios)
    obtain q items err where o: "observe L H mar sha (rac_Swap cfg) k (Status c) ios (rs_observer s) = (q, items, err)"
      by (metis prod_cases3)
    then have "s' = s\<lparr>rs_observer := q\<rparr>" using turn RunPoll by (simp add: run_turn_def)
    then show ?thesis using cache_ok_observe [OF assms(1) o] by simp
  qed (use turn assms(1) in \<open>auto simp: run_turn_def cache_ok_sync\<close>)
qed

interpretation router_app: step_system run_start "run_step L H cfg limit" "\<lambda>s. cache_ok limit (rs_observer s)" for L H cfg limit
  by unfold_locales (simp add: run_start_def empty_observer_def cache_ok_def, rule run_step_ok)

end
