(* ===== verification/Redaction.thy ===== *)
theory Redaction
  imports Router_Example Listing_Properties "HOL-Library.Sublist"
begin

text \<open>
  How the example applications keep credentials out of what they print: the four \<open>redact\<close> functions
  under \<open>examples/\<close> collect secrets and replace each by the same marker, and the listing example does so
  the string values of a JSON tree. \<open>url.Parse\<close> and \<open>url.QueryEscape\<close> are parameters. The lemmas show that
  no secret survives in what any of the four returns, provided it cannot occur in the marker
  itself, and that nothing else is changed.
\<close>

subsection \<open>strings.ReplaceAll\<close>

text \<open>For a nonempty \<open>old\<close>; the callers test for the empty string first.\<close>

fun ReplaceAll :: "string \<Rightarrow> string \<Rightarrow> string \<Rightarrow> string" where
  "ReplaceAll [] old new = []"
| "ReplaceAll (c # s) old new =
    (if old \<noteq> [] \<and> prefix old (c # s) then new @ ReplaceAll (drop (length old - 1) s) old new
     else c # ReplaceAll s old new)"

definition marker :: string where
  "marker = ''[redacted]''"

definition redact_all :: "string list \<Rightarrow> string \<Rightarrow> string" where
  "redact_all secrets message =
     fold (\<lambda>secret message. if secret \<noteq> [] then ReplaceAll message secret marker else message) secrets message"

subsection \<open>The secrets of each application\<close>

text \<open>What is read of the parsed endpoint: \<open>Redacted\<close>, the user's text, name and password, and the
  query's values in the order the map is visited.\<close>

record url_secrets =
  us_Redacted :: string
  us_User :: "(string \<times> string \<times> string) option"
  us_Query :: "string list"

definition endpoint_secrets :: "(string \<Rightarrow> url_secrets option) \<Rightarrow> (string \<Rightarrow> string) \<Rightarrow> string \<Rightarrow> string list" where
  "endpoint_secrets parse escape raw =
     raw # (case parse raw of
       None \<Rightarrow> []
     | Some u \<Rightarrow> us_Redacted u # (case us_User u of None \<Rightarrow> [] | Some (text, name, password) \<Rightarrow> [text, name, password]) @
         concat (map (\<lambda>v. [v, escape v]) (us_Query u)))"

definition redact_rpc :: "(string \<Rightarrow> url_secrets option) \<Rightarrow> (string \<Rightarrow> string) \<Rightarrow> string \<Rightarrow> string \<Rightarrow> string" where
  "redact_rpc parse escape rpcURL message = redact_all (endpoint_secrets parse escape rpcURL) message"

definition redact_maker :: "(string \<Rightarrow> url_secrets option) \<Rightarrow> (string \<Rightarrow> string) \<Rightarrow> maker_app_config \<Rightarrow> string option \<Rightarrow> string" where
  "redact_maker parse escape c err = (case err of
     None \<Rightarrow> []
   | Some message \<Rightarrow> redact_all (endpoint_secrets parse escape (mac_RPCURL c) @
       [mac_PrivateKey c, TrimPrefix0x (mac_PrivateKey c), mac_TxPrivateKey c, TrimPrefix0x (mac_TxPrivateKey c), mac_APIKey c]) message)"

definition redact_router :: "(string \<Rightarrow> url_secrets option) \<Rightarrow> (string \<Rightarrow> string) \<Rightarrow> router_app_config \<Rightarrow> string \<Rightarrow> string" where
  "redact_router parse escape c message =
     redact_all (rac_APIKey c # (case rac_Swap c of None \<Rightarrow> [] | Some s \<Rightarrow> endpoint_secrets parse escape (swc_RPCURL s))) message"

definition redact_listing :: "string \<Rightarrow> string \<Rightarrow> string" where
  "redact_listing apiKey message = (if apiKey \<noteq> [] then ReplaceAll message apiKey marker else message)"

fun redactValue :: "string \<Rightarrow> json \<Rightarrow> json" where
  "redactValue key (JString s) = JString (redact_listing key s)"
| "redactValue key (JArray vs) = JArray (map (redactValue key) vs)"
| "redactValue key (JObject kvs) = JObject (map (\<lambda>(k, v). (k, redactValue key v)) kvs)"
| "redactValue key v = v"

subsection \<open>No secret survives\<close>

text \<open>A text that no occurrence in, or across the edge of, a marker can produce.\<close>

definition hidable :: "string \<Rightarrow> bool" where
  "hidable s \<longleftrightarrow> CHR ''['' \<notin> set s \<and> CHR '']'' \<notin> set s \<and> \<not> sublist s ''redacted''"

lemma hidable_not_empty: "hidable s \<Longrightarrow> s \<noteq> []"
  by (auto simp: hidable_def)

lemma sublist_around:
  assumes "x \<notin> set t" "sublist t (xs @ x # ys)"
  shows "sublist t xs \<or> sublist t ys"
proof -
  have p: "p = []" if "prefix p (x # ys)" "x \<notin> set p" for p using that by (cases p) auto
  consider "sublist t xs" | "sublist t (x # ys)" | t1 t2 where "t = t1 @ t2" "suffix t1 xs" "prefix t2 (x # ys)"
    using assms(2) by (auto simp: sublist_append)
  then show ?thesis
  proof cases
    case 2
    then show ?thesis using p [of t] assms(1) by (auto simp: sublist_Cons_right)
  next
    case 3
    then show ?thesis using p [of t2] assms(1) by (auto intro: suffix_imp_sublist)
  qed simp
qed

lemma sublist_marker: "hidable t \<Longrightarrow> sublist t (marker @ ys) \<Longrightarrow> sublist t ys"
proof -
  assume t: "hidable t" "sublist t (marker @ ys)"
  have m: "marker @ ys = [] @ CHR ''['' # ''redacted'' @ CHR '']'' # ys" by (simp add: marker_def)
  have "sublist t (''redacted'' @ CHR '']'' # ys)"
    using sublist_around [of "CHR ''[''" t "[]"] t unfolding m hidable_def by auto
  then show ?thesis using sublist_around [of "CHR '']''" t "''redacted''" ys] t(1) unfolding hidable_def by auto
qed

lemma ReplaceAll_prefix:
  "CHR ''['' \<notin> set t \<Longrightarrow> prefix t (ReplaceAll m s marker) \<Longrightarrow> prefix t m"
proof (induction m s marker arbitrary: t rule: ReplaceAll.induct)
  case (2 c m s)
  show ?case
  proof (cases "s \<noteq> [] \<and> prefix s (c # m)")
    case True
    then show ?thesis using 2(3,4) by (cases t) (simp_all add: marker_def)
  next
    case False
    then have r: "ReplaceAll (c # m) s marker = c # ReplaceAll m s marker" by auto
    show ?thesis using 2(2) [OF False] 2(3,4) unfolding r by (cases t) auto
  qed
qed simp

lemma ReplaceAll_keeps_out:
  "hidable t \<Longrightarrow> sublist t (ReplaceAll m s marker) \<Longrightarrow> sublist t m"
proof (induction m s marker rule: ReplaceAll.induct)
  case (2 c m s)
  show ?case
  proof (cases "s \<noteq> [] \<and> prefix s (c # m)")
    case True
    then have "sublist t (ReplaceAll (drop (length s - 1) m) s marker)"
      using sublist_marker [OF 2(3)] 2(4) by simp
    then have "sublist t (drop (length s - 1) m)" by (rule 2(1) [OF True 2(3)])
    then show ?thesis using sublist_order.order.trans [OF _ sublist_drop] by (auto simp: sublist_Cons_right)
  next
    case False
    have p: "prefix t (ReplaceAll (c # m) s marker) \<Longrightarrow> prefix t (c # m)"
      by (rule ReplaceAll_prefix) (use 2 in \<open>simp_all add: hidable_def\<close>)
    have r: "ReplaceAll (c # m) s marker = c # ReplaceAll m s marker" using False by auto
    have "prefix t (c # ReplaceAll m s marker) \<or> sublist t (ReplaceAll m s marker)"
      using 2(4) unfolding r sublist_Cons_right .
    then show ?thesis using p 2(2) [OF False 2(3)] unfolding r sublist_Cons_right by blast
  qed
qed simp

lemma ReplaceAll_removes: "hidable s \<Longrightarrow> \<not> sublist s (ReplaceAll m s marker)"
proof (induction m s marker rule: ReplaceAll.induct)
  case (1 s)
  then show ?case by (simp add: hidable_not_empty)
next
  case (2 c m s)
  show ?case
  proof (cases "s \<noteq> [] \<and> prefix s (c # m)")
    case True
    then show ?thesis using sublist_marker [OF 2(3)] 2(1) [OF True 2(3)] by auto
  next
    case False
    have p: "prefix s (ReplaceAll (c # m) s marker) \<Longrightarrow> prefix s (c # m)"
      by (rule ReplaceAll_prefix) (use 2 in \<open>simp_all add: hidable_def\<close>)
    have r: "ReplaceAll (c # m) s marker = c # ReplaceAll m s marker" using False by auto
    show ?thesis using p 2(2) [OF False 2(3)] False hidable_not_empty [OF 2(3)] unfolding r sublist_Cons_right by blast
  qed
qed

lemma redact_all_keeps_out: "hidable t \<Longrightarrow> sublist t (redact_all secrets m) \<Longrightarrow> sublist t m"
proof (induction secrets arbitrary: m)
  case (Cons s secrets)
  have "redact_all (s # secrets) m = redact_all secrets (if s \<noteq> [] then ReplaceAll m s marker else m)"
    by (simp add: redact_all_def)
  then show ?case using Cons.IH [OF Cons.prems(1)] ReplaceAll_keeps_out [OF Cons.prems(1), of m s] Cons.prems(2)
    by (cases "s = []") simp_all
qed (simp add: redact_all_def)

lemma redact_all_hides: "s \<in> set secrets \<Longrightarrow> hidable s \<Longrightarrow> \<not> sublist s (redact_all secrets m)"
proof (induction secrets arbitrary: m)
  case (Cons x secrets)
  show ?case
  proof (cases "s \<in> set secrets")
    case True
    then show ?thesis using Cons.IH [of "if x \<noteq> [] then ReplaceAll m x marker else m"] Cons.prems by (simp add: redact_all_def)
  next
    case False
    then have "redact_all (x # secrets) m = redact_all secrets (ReplaceAll m s marker)"
      using Cons.prems hidable_not_empty by (auto simp: redact_all_def)
    then show ?thesis using redact_all_keeps_out [OF Cons.prems(2)] ReplaceAll_removes [OF Cons.prems(2)] by metis
  qed
qed simp

text \<open>The strings and the rest of a JSON value.\<close>

fun json_strings :: "json \<Rightarrow> string list" where
  "json_strings (JString s) = [s]"
| "json_strings (JArray vs) = concat (map json_strings vs)"
| "json_strings (JObject kvs) = concat (map (\<lambda>(k, v). json_strings v) kvs)"
| "json_strings v = []"

fun json_shape :: "json \<Rightarrow> json" where
  "json_shape (JString s) = JString []"
| "json_shape (JArray vs) = JArray (map json_shape vs)"
| "json_shape (JObject kvs) = JObject (map (\<lambda>(k, v). (k, json_shape v)) kvs)"
| "json_shape v = v"

lemma redactValue_strings: "json_strings (redactValue key v) = map (redact_listing key) (json_strings v)"
proof (induction key v rule: redactValue.induct)
  case (3 key kvs)
  then have "map (\<lambda>(k, v). json_strings (redactValue key v)) kvs = map (\<lambda>(k, v). map (redact_listing key) (json_strings v)) kvs"
    by auto
  then show ?case by (simp add: comp_def split_def map_concat cong: map_cong)
qed (simp_all add: map_concat comp_def cong: map_cong)

lemma redactValue_shape: "json_shape (redactValue key v) = json_shape v"
proof (induction key v rule: redactValue.induct)
  case (3 key kvs)
  then show ?case by (auto simp: comp_def split_def)
qed simp_all

subsection \<open>What counts as a secret\<close>

text \<open>The credentials, written down independently of the lists the code builds.\<close>

definition endpoint_secret :: "(string \<Rightarrow> url_secrets option) \<Rightarrow> (string \<Rightarrow> string) \<Rightarrow> string \<Rightarrow> string \<Rightarrow> bool" where
  "endpoint_secret parse escape raw s \<longleftrightarrow> s = raw \<or> (\<exists>u. parse raw = Some u \<and>
     (s = us_Redacted u \<or> (\<exists>text name password. us_User u = Some (text, name, password) \<and> s \<in> {text, name, password}) \<or>
      (\<exists>v\<in>set (us_Query u). s = v \<or> s = escape v)))"

definition private_key :: "string \<Rightarrow> string \<Rightarrow> bool" where
  "private_key key s \<longleftrightarrow> s = key \<or> ''0x'' @ s = key"

definition maker_secret :: "(string \<Rightarrow> url_secrets option) \<Rightarrow> (string \<Rightarrow> string) \<Rightarrow> maker_app_config \<Rightarrow> string \<Rightarrow> bool" where
  "maker_secret parse escape c s \<longleftrightarrow> endpoint_secret parse escape (mac_RPCURL c) s \<or> private_key (mac_PrivateKey c) s \<or>
     private_key (mac_TxPrivateKey c) s \<or> s = mac_APIKey c"

definition router_secret :: "(string \<Rightarrow> url_secrets option) \<Rightarrow> (string \<Rightarrow> string) \<Rightarrow> router_app_config \<Rightarrow> string \<Rightarrow> bool" where
  "router_secret parse escape c s \<longleftrightarrow> s = rac_APIKey c \<or> (\<exists>w. rac_Swap c = Some w \<and> endpoint_secret parse escape (swc_RPCURL w) s)"

lemma endpoint_secrets_iff: "s \<in> set (endpoint_secrets parse escape raw) \<longleftrightarrow> endpoint_secret parse escape raw s"
proof (cases "parse raw")
  case (Some u)
  then show ?thesis by (cases "us_User u") (auto simp: endpoint_secrets_def endpoint_secret_def)
qed (simp add: endpoint_secrets_def endpoint_secret_def)

lemma private_key_iff: "private_key key s \<longleftrightarrow> s = key \<or> s = TrimPrefix0x key"
proof -
  have "''0x'' @ drop 2 key = key" if "take 2 key = ''0x''" using append_take_drop_id [of 2 key] unfolding that .
  then have "''0x'' @ s = key \<longleftrightarrow> take 2 key = ''0x'' \<and> drop 2 key = s" by auto
  then show ?thesis by (auto simp: private_key_def TrimPrefix0x_def)
qed

lemma ReplaceAll_absent: "\<not> sublist old m \<Longrightarrow> ReplaceAll m old new = m"
  by (induction m old new rule: ReplaceAll.induct) (auto simp: sublist_Cons_right)

lemma redact_all_absent:
  "\<forall>s\<in>set secrets. s \<noteq> [] \<longrightarrow> \<not> sublist s m \<Longrightarrow> redact_all secrets m = m"
  by (induction secrets) (auto simp: redact_all_def ReplaceAll_absent)

text \<open>What a list of secrets stands for decides both halves of a redaction.\<close>

lemma redact_all_exact:
  assumes "\<And>s. s \<in> set secrets \<longleftrightarrow> Q s" "hidable secret"
  shows "(Q secret \<longrightarrow> \<not> sublist secret (redact_all secrets m)) \<and>
    ((\<forall>s. Q s \<and> s \<noteq> [] \<longrightarrow> \<not> sublist s m) \<longrightarrow> redact_all secrets m = m)"
  using redact_all_hides [OF _ assms(2), of secrets m] redact_all_absent [of secrets m] assms(1) by blast

text \<open>C24: What the redact functions of the four example applications return contains none of the
  credentials of their configuration: the RPC endpoint, its redacted form, its user, password and
  query values (plain and escaped), the private keys with and without 0x, the API keys; for every
  credential that holds no bracket and is not part of the word redacted, whatever the message, so
  replacing a later secret never brings back an earlier one. A message in which no credential occurs is
  returned unchanged. The listing example's redactValue does this in every string value of a JSON tree and
  leaves the rest of the tree as it is; so, as its comment says, a credential that
  looks like a number or a field name stays where it occurs as one.\<close>

theorem redact_hides_secrets:
  assumes "hidable secret"
  shows "(endpoint_secret parse escape url secret \<longrightarrow> \<not> sublist secret (redact_rpc parse escape url message)) \<and>
    ((\<forall>s. endpoint_secret parse escape url s \<and> s \<noteq> [] \<longrightarrow> \<not> sublist s message) \<longrightarrow> redact_rpc parse escape url message = message) \<and>
    (maker_secret parse escape mc secret \<longrightarrow> \<not> sublist secret (redact_maker parse escape mc (Some message))) \<and>
    ((\<forall>s. maker_secret parse escape mc s \<and> s \<noteq> [] \<longrightarrow> \<not> sublist s message) \<longrightarrow> redact_maker parse escape mc (Some message) = message) \<and>
    (router_secret parse escape rc secret \<longrightarrow> \<not> sublist secret (redact_router parse escape rc message)) \<and>
    ((\<forall>s. router_secret parse escape rc s \<and> s \<noteq> [] \<longrightarrow> \<not> sublist s message) \<longrightarrow> redact_router parse escape rc message = message) \<and>
    \<not> sublist secret (redact_listing secret message) \<and> (\<not> sublist secret message \<longrightarrow> redact_listing secret message = message) \<and>
    json_strings (redactValue secret v) = map (redact_listing secret) (json_strings v) \<and> json_shape (redactValue secret v) = json_shape v"
proof -
  note exact = redact_all_exact [OF _ assms, of _ _ message]
  have rpc: "redact_rpc parse escape url message = redact_all (endpoint_secrets parse escape url) message" by (simp add: redact_rpc_def)
  note rpc = exact [of "endpoint_secrets parse escape url", OF endpoint_secrets_iff, folded rpc]
  let ?ms = "endpoint_secrets parse escape (mac_RPCURL mc) @
    [mac_PrivateKey mc, TrimPrefix0x (mac_PrivateKey mc), mac_TxPrivateKey mc, TrimPrefix0x (mac_TxPrivateKey mc), mac_APIKey mc]"
  have maker: "redact_maker parse escape mc (Some message) = redact_all ?ms message" by (simp add: redact_maker_def)
  have "s \<in> set ?ms \<longleftrightarrow> maker_secret parse escape mc s" for s
    by (auto simp: endpoint_secrets_iff maker_secret_def private_key_iff)
  note maker = exact [OF this, folded maker]
  let ?rs = "rac_APIKey rc # (case rac_Swap rc of None \<Rightarrow> [] | Some w \<Rightarrow> endpoint_secrets parse escape (swc_RPCURL w))"
  have router: "redact_router parse escape rc message = redact_all ?rs message" by (simp add: redact_router_def)
  have "s \<in> set ?rs \<longleftrightarrow> router_secret parse escape rc s" for s
    by (cases "rac_Swap rc") (auto simp: endpoint_secrets_iff router_secret_def)
  note router = exact [OF this, folded router]
  have "\<not> sublist secret (redact_listing secret message)" "\<not> sublist secret message \<longrightarrow> redact_listing secret message = message"
    using ReplaceAll_removes [OF assms] hidable_not_empty [OF assms] by (simp_all add: redact_listing_def ReplaceAll_absent)
  then show ?thesis using rpc maker router redactValue_strings redactValue_shape by blast
qed

theorem redact_hides_secrets_witness:
  "hidable ''s3cret'' \<and> redact_rpc (\<lambda>_. None) (\<lambda>s. s) ''s3cret'' ''dial s3cret: no'' = ''dial [redacted]: no'' \<and>
   \<not> sublist ''s3cret'' (redact_rpc (\<lambda>_. None) (\<lambda>s. s) ''s3cret'' ''dial s3cret: no'')"
proof -
  have h: "hidable ''s3cret''" by (simp add: hidable_def sublist_Cons_right)
  have "redact_rpc (\<lambda>_. None) (\<lambda>s. s) ''s3cret'' ''dial s3cret: no'' = ''dial [redacted]: no''"
    by (simp add: redact_rpc_def redact_all_def endpoint_secrets_def marker_def)
  moreover have "endpoint_secret (\<lambda>_. None) (\<lambda>s. s) ''s3cret'' ''s3cret''" by (simp add: endpoint_secret_def)
  ultimately show ?thesis using h redact_hides_secrets [OF h, of "\<lambda>_. None" "\<lambda>s. s" "''s3cret''" "''dial s3cret: no''"] by blast
qed

end
