(* ===== verification/Listing_Example.thy ===== *)
theory Listing_Example
  imports Redaction
begin

text \<open>
  The example listing application, \<open>examples/listing\<close>: its configuration, the filter for usable pairs
  and the run that lists, chooses and refreshes a pair. The file, the JSON codec and the writer are
  parameters; what was written is kept as a list of items. The lemma shows that a configuration it
  ends with is one the maker can quote with.
\<close>

subsection \<open>config.go\<close>

record listing_app_config =
  lac_ChainID :: u64
  lac_APIKey :: string

datatype listing_app_error =
    LaText string
  | LaOpen string
  | LaDecode string
  | LaListing listing_error
  | LaMarshal string
  | LaWrite string

text \<open>The file: why it does not open, or what the first decode leaves in the configuration, its
  error and what the second decode meets.\<close>

record config_file =
  cff_Config :: listing_app_config
  cff_Error :: "string option"
  cff_Rest :: body_rest

definition loadConfig :: "string + config_file \<Rightarrow> listing_app_config \<times> listing_app_error option" where
  "loadConfig f = (case f of
     Inl e \<Rightarrow> (\<lparr>lac_ChainID = 0, lac_APIKey = []\<rparr>, Some (LaOpen e))
   | Inr d \<Rightarrow> (cff_Config d,
       case cff_Error d of
         Some e \<Rightarrow> Some (LaDecode e)
       | None \<Rightarrow>
           if cff_Rest d \<noteq> BodyEOF then Some (LaText ''configuration must contain exactly one JSON object'')
           else if lac_ChainID (cff_Config d) = 0 \<or> unat (lac_ChainID (cff_Config d)) > MaxInt64
           then Some (LaText ''chain_id must be a positive int64'')
           else None))"

text \<open>The value that is shown, its tree after \<open>json.Marshal\<close> and \<open>Decode\<close>, and \<open>json.MarshalIndent\<close>.\<close>

datatype listing_value = ValueChains "string \<rightharpoonup> u64" | ValuePair listed_pair

record listing_json =
  lj_Tree :: "listing_value \<Rightarrow> string + json"
  lj_Indent :: "json \<Rightarrow> string + string"

definition marshalRedacted :: "listing_json \<Rightarrow> listing_app_config \<Rightarrow> listing_value \<Rightarrow> listing_app_error + string" where
  "marshalRedacted J c v =
     attempt (wrap_err LaMarshal (lj_Tree J v)) (\<lambda>tree. wrap_err LaMarshal (lj_Indent J (redactValue (lac_APIKey c) tree)))"

subsection \<open>query.go\<close>

definition usablePair :: "listed_pair \<Rightarrow> u64 \<Rightarrow> bool" where
  "usablePair p chainID \<longleftrightarrow> lp_ChainID p = chainID \<and> lp_Active p \<and> \<not> lp_Gray p \<and> lp_PairID p \<noteq> 0"

fun usable_loop :: "u64 \<Rightarrow> listed_pair list \<Rightarrow> listed_pair list \<Rightarrow> listed_pair list" where
  "usable_loop chainID [] usable = usable"
| "usable_loop chainID (p # ps) usable = usable_loop chainID ps (if usablePair p chainID then usable @ [p] else usable)"

definition listUsablePairs :: "hexlib \<Rightarrow> netlib \<Rightarrow> listing_client \<Rightarrow> ctx option \<Rightarrow> u64 \<Rightarrow> listing_app_error + listed_pair list" where
  "listUsablePairs H N k cx chainID =
     attempt (wrap_err LaListing (ListPairs H N k cx chainID)) (\<lambda>ps. Inr (usable_loop chainID ps []))"

subsection \<open>main.go\<close>

definition pair_line :: "listed_pair \<Rightarrow> string" where
  "pair_line p = ''chain='' @ nat_text (unat (lp_ChainID p)) @ '' pair='' @ nat_text (unat (lp_PairID p)) @ '' '' @
     lp_BaseSymbol p @ ''/'' @ lp_QuoteSymbol p"

definition latest_line :: string where
  "latest_line = ''Latest pair configuration (PriceTickSize and LotSize are raw uint128 integer strings; verify against pairConfigs before use):''"

text \<open>What is written so far; \<open>wr k\<close> is the error of write number \<open>k\<close>. An error ends the run with what was written.\<close>

type_synonym listing_run = "(string list \<times> listing_app_error) + string list"

definition put :: "(nat \<Rightarrow> string option) \<Rightarrow> string list \<Rightarrow> string \<Rightarrow> listing_run" where
  "put wr out line = (case wr (length out) of Some e \<Rightarrow> Inl (out, LaWrite e) | None \<Rightarrow> Inr (out @ [line]))"

fun put_pairs :: "(nat \<Rightarrow> string option) \<Rightarrow> string \<Rightarrow> string list \<Rightarrow> listed_pair list \<Rightarrow> listing_run" where
  "put_pairs wr key out [] = Inr out"
| "put_pairs wr key out (p # ps) = attempt (put wr out (redact_listing key (pair_line p))) (\<lambda>out. put_pairs wr key out ps)"

text \<open>The last part: the chosen pair is read again, checked and written.\<close>

definition show_pair :: "listing_json \<Rightarrow> hexlib \<Rightarrow> netlib \<Rightarrow> listing_client \<Rightarrow> ctx option \<Rightarrow> (nat \<Rightarrow> string option) \<Rightarrow>
    listing_app_config \<Rightarrow> u32 \<Rightarrow> string list \<Rightarrow> (string list \<times> listing_app_error) + string list \<times> listed_pair option" where
  "show_pair J H N k cx wr c pairID out =
     attempt (wrap_err (\<lambda>e. (out, LaListing e)) (ListPair H N k cx (lac_ChainID c) pairID)) (\<lambda>p.
     reject (\<not> usablePair p (lac_ChainID c)) (out, LaText ''pair details do not meet this example's usability criteria'')
    (attempt (wrap_err (\<lambda>e. (out, e)) (marshalRedacted J c (ValuePair p))) (\<lambda>data.
     attempt (put wr out latest_line) (\<lambda>out.
     attempt (put wr out data) (\<lambda>out. Inr (out, Some p))))))"

definition runListing :: "listing_json \<Rightarrow> hexlib \<Rightarrow> netlib \<Rightarrow> listing_client \<Rightarrow> ctx option \<Rightarrow> (nat \<Rightarrow> string option) \<Rightarrow>
    listing_app_config \<Rightarrow> u32 \<Rightarrow> (string list \<times> listing_app_error) + string list \<times> listed_pair option" where
  "runListing J H N k cx wr c pairID =
     attempt (wrap_err (\<lambda>e. ([], LaListing e)) (ListChains N k cx)) (\<lambda>chains.
     attempt (wrap_err (\<lambda>e. ([], e)) (marshalRedacted J c (ValueChains chains))) (\<lambda>chainData.
     attempt (put wr [] ''Supported chains:'') (\<lambda>out.
     attempt (put wr out chainData) (\<lambda>out.
     if pairID \<noteq> 0 then show_pair J H N k cx wr c pairID out
     else
       attempt (wrap_err (\<lambda>e. (out, e)) (listUsablePairs H N k cx (lac_ChainID c))) (\<lambda>ps.
       attempt (put wr out (''Found '' @ nat_text (length ps) @ '' usable pairs (approved, active, not gray, registered on-chain)'')) (\<lambda>out.
       case ps of
         [] \<Rightarrow> Inr (out, None)
       | first # _ \<Rightarrow>
           attempt (put_pairs wr (lac_APIKey c) out ps) (\<lambda>out. show_pair J H N k cx wr c (lp_PairID first) out)))))))"

text \<open>The checks of \<open>main\<close> before anything is read.\<close>

definition listing_flags_ok :: "u64 \<Rightarrow> int \<Rightarrow> int \<Rightarrow> bool" where
  "listing_flags_ok pairID timeout requestTimeout \<longleftrightarrow> \<not> (unat pairID > MaxInt32 \<or> timeout \<le> 0 \<or> requestTimeout \<le> 0)"

subsection \<open>Usable pairs\<close>

lemma usable_loop_filter: "usable_loop chainID ps acc = acc @ filter (\<lambda>p. usablePair p chainID) ps"
  by (induction chainID ps acc rule: usable_loop.induct) auto

lemma ListPair_Inr:
  "ListPair H N k cx chainID pairID = Inr p \<Longrightarrow> pair_wf p \<and> lp_ChainID p = chainID \<and> lp_PairID p = pairID"
  by (auto simp: ListPair_def attempt_Inr dest: decodePair_wf)

lemma put_Inr: "put wr out line = Inr out' \<longleftrightarrow> wr (length out) = None \<and> out' = out @ [line]"
  by (auto simp: put_def split: option.splits)

lemma put_pairs_Inr: "put_pairs wr key out ps = Inr out' \<Longrightarrow> out' = out @ map (\<lambda>p. redact_listing key (pair_line p)) ps"
  by (induction wr key out ps rule: put_pairs.induct) (auto simp: attempt_Inr put_Inr)

lemma show_pair_Inr:
  assumes "show_pair J H N k cx wr c pairID out = Inr (out', chosen)"
  shows "\<exists>p data. chosen = Some p \<and> ListPair H N k cx (lac_ChainID c) pairID = Inr p \<and> usablePair p (lac_ChainID c) \<and>
    marshalRedacted J c (ValuePair p) = Inr data \<and> out' = out @ [latest_line, data]"
  using assms by (auto simp: show_pair_def attempt_Inr put_Inr)

text \<open>C29: The pair the listing example ends with can be quoted: a run that succeeds either was given no
  pair id and found no usable pair on the configured chain, or ends by writing the
  configuration of a pair that the server returned for exactly the asked pair id (the given one, or
  the first usable pair of the list in the server's order), that is active, not gray and on the
  configured chain, and that FrameParams turns into parameters ValidatePair accepts.\<close>

theorem listing_run_usable:
  assumes "runListing J H N k cx wr c pairID = Inr (out, chosen)"
  shows "case chosen of
     None \<Rightarrow> pairID = 0 \<and> (\<exists>ps. ListPairs H N k cx (lac_ChainID c) = Inr ps \<and> \<not> list_ex (\<lambda>p. usablePair p (lac_ChainID c)) ps)
   | Some p \<Rightarrow> usablePair p (lac_ChainID c) \<and> lp_ChainID p = lac_ChainID c \<and> lp_Active p \<and> \<not> lp_Gray p \<and> lp_PairID p \<noteq> 0 \<and>
       (if pairID \<noteq> 0 then lp_PairID p = pairID
        else \<exists>ps. ListPairs H N k cx (lac_ChainID c) = Inr ps \<and>
          lp_PairID p = lp_PairID (hd (filter (\<lambda>p. usablePair p (lac_ChainID c)) ps))) \<and>
       (\<exists>params data. FrameParams p = Inr params \<and> ValidatePair params = Inr () \<and>
          marshalRedacted J c (ValuePair p) = Inr data \<and> last out = data)"
proof -
  let ?usable = "filter (\<lambda>p. usablePair p (lac_ChainID c))"
  have shown: "\<exists>p. chosen = Some p \<and> usablePair p (lac_ChainID c) \<and> lp_ChainID p = lac_ChainID c \<and> lp_Active p \<and> \<not> lp_Gray p \<and>
      lp_PairID p \<noteq> 0 \<and> lp_PairID p = i \<and>
      (\<exists>params data. FrameParams p = Inr params \<and> ValidatePair params = Inr () \<and>
          marshalRedacted J c (ValuePair p) = Inr data \<and> last out = data)"
    if s: "show_pair J H N k cx wr c i out' = Inr (out, chosen)" for i out'
  proof -
    obtain p data where p: "chosen = Some p" "ListPair H N k cx (lac_ChainID c) i = Inr p" "usablePair p (lac_ChainID c)"
        "marshalRedacted J c (ValuePair p) = Inr data" "out = out' @ [latest_line, data]"
      using show_pair_Inr [OF s] by blast
    note l = ListPair_Inr [OF p(2)]
    obtain params where "FrameParams p = Inr params" "ValidatePair params = Inr ()"
      using FrameParams_wf [of p] l p(3) by (auto simp: usablePair_def)
    then show ?thesis using p l by (auto simp: usablePair_def)
  qed
  show ?thesis
  proof (cases "pairID = 0")
    case False
    then obtain out' where "show_pair J H N k cx wr c pairID out' = Inr (out, chosen)"
      using assms by (auto simp: runListing_def attempt_Inr put_Inr)
    from shown [OF this] False show ?thesis by auto
  next
    case True
    then obtain ps out' where ps: "ListPairs H N k cx (lac_ChainID c) = Inr ps"
        and r: "(case ?usable ps of [] \<Rightarrow> Inr (out', None)
          | first # _ \<Rightarrow> attempt (put_pairs wr (lac_APIKey c) out' (?usable ps)) (\<lambda>out. show_pair J H N k cx wr c (lp_PairID first) out))
          = Inr (out, chosen)"
      using assms by (auto simp: runListing_def attempt_Inr put_Inr listUsablePairs_def usable_loop_filter)
    show ?thesis
    proof (cases "?usable ps")
      case Nil
      then show ?thesis using r ps True by (auto simp: list_ex_iff filter_empty_conv)
    next
      case (Cons first rest)
      then obtain out2 where "show_pair J H N k cx wr c (lp_PairID first) out2 = Inr (out, chosen)"
        using r by (auto simp: attempt_Inr)
      from shown [OF this] Cons ps True show ?thesis by auto
    qed
  qed
qed

text \<open>A server with one chain and one pair.\<close>

definition served :: "string \<Rightarrow> json" where
  "served path = (if path = ''/chains'' then JObject [(''main'', JNumber ''1'')]
     else if path = ''/pairs'' then JArray [sample_record] else sample_record)"

definition served_net :: netlib where
  "served_net = \<lparr>ParseURL = (\<lambda>s. Inr \<lparr>u_Path = [], u_RawPath = [], u_RawQuery = [], u_rest = []\<rparr>), EscapedPath = u_Path,
     Do = (\<lambda>h rq. Inr \<lparr>hr_StatusCode = 200, hr_first = Inr (JObject [(''success'', JBool True),
       (''data'', served (u_Path (rq_URL rq)))]), hr_rest = BodyEOF, hr_exceeded = False\<rparr>)\<rparr>"

definition plain_json :: listing_json where
  "plain_json = \<lparr>lj_Tree = (\<lambda>v. Inr JNull), lj_Indent = (\<lambda>j. Inr ''null'')\<rparr>"

lemma served_get:
  "get served_net sample_listing (Some (\<lambda>_. None)) path q =
     Inr (\<lparr>env_Success = Some True, env_Data = Some (served path), env_Error = None\<rparr>, 200)"
  by (simp add: get_def served_net_def build_request_def HasSuffix_slash_def judge_response_def decodeEnvelope_def
      unmarshal_envelope_def decode_field_def zero_envelope_def lower_char_def served_def sample_record_def Let_def)

lemma served_queries:
  "ListPairs sample_hex served_net sample_listing (Some (\<lambda>_. None)) 1 = Inr [sample_listed]"
  "ListPair sample_hex served_net sample_listing (Some (\<lambda>_. None)) 1 7 = Inr sample_listed"
  "\<exists>chains. ListChains served_net sample_listing (Some (\<lambda>_. None)) = Inr chains"
  by (simp_all add: ListPairs_def ListPair_def ListChains_def served_get served_def validateChainID_def MaxInt64_def MaxInt32_def
      decodePairs_def unmarshal_slice_def sample_decodes sample_listed_def unmarshal_uint_map_def unmarshal_uint_def is_digit_def digit_val_def)

theorem listing_run_usable_witness:
  "\<exists>out params. runListing plain_json sample_hex served_net sample_listing (Some (\<lambda>_. None)) (\<lambda>_. None)
      \<lparr>lac_ChainID = 1, lac_APIKey = ''k''\<rparr> 0 = Inr (out, Some sample_listed) \<and> FrameParams sample_listed = Inr params"
proof -
  obtain chains where c: "ListChains served_net sample_listing (Some (\<lambda>_. None)) = Inr chains" using served_queries(3) ..
  have u: "usablePair sample_listed 1" "lp_PairID sample_listed = 7" by (simp_all add: usablePair_def sample_listed_def)
  obtain out where r: "runListing plain_json sample_hex served_net sample_listing (Some (\<lambda>_. None)) (\<lambda>_. None)
      \<lparr>lac_ChainID = 1, lac_APIKey = ''k''\<rparr> 0 = Inr (out, Some sample_listed)"
    by (simp add: runListing_def c marshalRedacted_def plain_json_def put_def listUsablePairs_def served_queries u show_pair_def)
  from listing_run_usable [OF r] r show ?thesis by auto
qed

end
