(* ===== verification/Router_Example_Properties.thy ===== *)
theory Router_Example_Properties
  imports Router_Example "HOL-Library.Multiset" "HOL-Library.Sublist"
begin

text \<open>
  What the example router guarantees to its user, together with the SDK below it: delivered frames
  are cached, displayed frames are current, the settings it quotes with are usable, and a shown swap
  is bounded by its quote.
\<close>

subsection \<open>Caching what the SDK delivers\<close>

definition status_current :: "client_status \<Rightarrow> frame_update \<Rightarrow> bool" where
  "status_current status u \<longleftrightarrow> st_Phase status = Connected \<and> st_Generation status = fu_Generation u \<and>
     st_SubscriptionRevision status = fu_SubscriptionRevision u"

lemma accept_cases:
  "accept u status limit q =
    (let s = observer_sync status q in
     if \<not> status_current status u then (s, None)
     else if map_of (qo_latest s) (fu_Key u) = None \<and> int (length (qo_latest s)) \<ge> limit
     then (s, Some (RaText ''application frame cache reached its limit''))
     else (s\<lparr>qo_latest := AList.update (fu_Key u) u (qo_latest s)\<rparr>, None))"
  by (auto simp: accept_def observer_current_def observer_sync_def status_current_def Let_def)

lemma stale_not_cached:
  assumes "cache_ok limit q" "\<not> status_current status u"
  shows "u \<notin> snd ` set (qo_latest (observer_sync status q))"
  using assms by (auto simp: cache_ok_def observer_sync_def status_current_def)

text \<open>C18: What becomes of a frame that the SDK's router delivers: the application receives it in some
  reachable state of the SDK's concurrent client, the client goes on in any way, and then the turn reads the
  status. If the client is then still connected with the frame's generation and revision, which is so
  whenever the status has not changed since the receive, the frame becomes the cached frame of its
  stream, replacing an older one, and all other streams keep theirs, unless a new stream finds the
  cache full, which ends the run with an error. Otherwise the frame is discarded without an error and is not
  in the cache. The cache always has one entry per stream, all of the same generation and revision, and
  never exceeds its limit.\<close>

theorem delivered_frame_cached:
  assumes "started w0" "stream_steps P H w0 w" "receive_frame (w_client w) = Some (u, c)"
    and "stream_steps P H (w\<lparr>w_client := c\<rparr>) w'"
    and "run_start s0" "(run_step L H' cfg limit)\<^sup>*\<^sup>* s0 s"
  shows "cache_ok limit (rs_observer s) \<and>
    (Status (w_client w') = Status (w_client w) \<longrightarrow> status_current (Status (w_client w')) u) \<and>
    (let old = qo_latest (observer_sync (Status (w_client w')) (rs_observer s)) in
     case run_turn L H' mar sha cfg k (int limit) (w_client w') ended (RunFrame (Some u)) s of
       RunOn s' \<Rightarrow> cache_ok limit (rs_observer s') \<and>
         (if status_current (Status (w_client w')) u
          then \<forall>key. map_of (qo_latest (rs_observer s')) key = (if key = fu_Key u then Some u else map_of old key)
          else qo_latest (rs_observer s') = old \<and> u \<notin> snd ` set old)
     | RunReturn e \<Rightarrow> e \<noteq> None \<and> status_current (Status (w_client w')) u \<and> length old = limit \<and> map_of old (fu_Key u) = None)"
proof -
  have ok: "cache_ok limit (rs_observer s)" using router_app.reached_inv [OF assms(5,6)] .
  let ?st = "Status (w_client w')"
  let ?q = "observer_sync ?st (rs_observer s)"
  have fresh: "status_current ?st u" if "?st = Status (w_client w)"
    using receive_frame_current [OF assms(1-3)] that by (simp add: status_current_def)
  obtain q err where a: "accept u ?st (int limit) (rs_observer s) = (q, err)" by fastforce
  have turn: "run_turn L H' mar sha cfg k (int limit) (w_client w') ended (RunFrame (Some u)) s = run_continue (s\<lparr>rs_observer := q\<rparr>) err"
    using a by (simp add: run_turn_def)
  have ok': "cache_ok limit q" using cache_ok_accept [OF ok a] .
  have len: "length (qo_latest ?q) \<le> limit" using cache_ok_sync [OF ok] by (simp add: cache_ok_def)
  show ?thesis
  proof (cases err)
    case None
    then have "if status_current ?st u then qo_latest q = AList.update (fu_Key u) u (qo_latest ?q) else q = ?q"
      using a by (auto simp: accept_cases Let_def split: if_splits)
    then show ?thesis
      using ok ok' fresh turn None stale_not_cached [OF ok, of ?st u] by (auto simp: run_continue_def update_conv' Let_def split: if_splits)
  next
    case (Some e)
    then show ?thesis using ok fresh turn a len by (auto simp: accept_cases run_continue_def Let_def split: if_splits)
  qed
qed

definition toy_run_state :: run_state where
  "toy_run_state = \<lparr>rs_observer = empty_observer, rs_frames = False, rs_replied = False\<rparr>"

lemma toy_received: "\<exists>u c. receive_frame (w_client toy_delivered) = Some (u, c) \<and> fu_Frame u = toy_frame"
proof -
  have "map fu_Frame (gc_buf (rt_frames (sc_router (w_client toy_delivered)))) = [toy_frame]" by code_simp
  then obtain u where "gc_buf (rt_frames (sc_router (w_client toy_delivered))) = [u]" "fu_Frame u = toy_frame"
    by (auto simp: map_eq_Cons_conv)
  then show ?thesis by (auto simp: receive_frame_def chan_get_def)
qed

theorem delivered_frame_cached_witness:
  "\<exists>u c s'. receive_frame (w_client toy_delivered) = Some (u, c) \<and>
     run_turn echo_lib toy_hex (\<lambda>m. Inr []) (\<lambda>b. b) toy_router_app sample_client (int 5) c None (RunFrame (Some u)) toy_run_state = RunOn s' \<and>
     map_of (qo_latest (rs_observer s')) (fu_Key u) = Some u"
proof -
  obtain u c where u: "receive_frame (w_client toy_delivered) = Some (u, c)" using toy_received by blast
  then have st: "Status c = Status (w_client toy_delivered)"
    by (auto simp: receive_frame_def Status_def split: option.splits prod.splits)
  have start: "run_start toy_run_state" by (simp add: run_start_def toy_run_state_def)
  note d = delivered_frame_cached [OF toy_started toy_run u rtranclp.rtrancl_refl start rtranclp.rtrancl_refl, where L = echo_lib and
      H' = toy_hex and cfg = toy_router_app and limit = 5 and mar = "\<lambda>m. Inr []" and sha = "\<lambda>b. b" and k = sample_client and ended = None]
  have "qo_latest (observer_sync (Status c) (rs_observer toy_run_state)) = []"
    by (simp add: observer_sync_def toy_run_state_def empty_observer_def)
  with d obtain s' where "run_turn echo_lib toy_hex (\<lambda>m. Inr []) (\<lambda>b. b) toy_router_app sample_client (int 5) c None (RunFrame (Some u)) toy_run_state = RunOn s'"
    by (auto simp: Let_def split: run_result.splits)
  with d u st show ?thesis by (auto simp: Let_def)
qed

subsection \<open>Showing frames\<close>

lemma insert_quote_set [simp]: "set (insert_quote hex u us) = insert u (set us)"
  by (induction us) auto

lemma mset_insert_quote: "mset (insert_quote hex u us) = add_mset u (mset us)"
  by (induction us) auto

lemma mset_sort_quotes: "mset (sort_quotes hex us) = mset us"
  by (induction us) (simp_all add: sort_quotes_def mset_insert_quote)

lemma sort_quotes_keys: "distinct (map fu_Key us) \<Longrightarrow> distinct (map fu_Key (sort_quotes hex us))"
  by (metis distinct_map mset_map mset_sort_quotes mset_eq_imp_distinct_iff)

lemma observer_current_seen [simp]: "observer_current (q\<lparr>qo_seen := s\<rparr>) status u = observer_current q status u"
  by (simp add: observer_current_def)

text \<open>What is shown of a list of quotes with distinct keys, whose first one is visited as number \<open>i\<close>.\<close>

definition shows_well :: "(market_frame \<Rightarrow> string + bytes) \<Rightarrow> (bytes \<Rightarrow> bytes) \<Rightarrow> (nat \<Rightarrow> observe_io) \<Rightarrow> nat \<Rightarrow> frame_update list \<Rightarrow>
    quote_observer \<Rightarrow> quote_observer \<Rightarrow> shown_quote \<Rightarrow> bool" where
  "shows_well mar sha ios i us q q' item \<longleftrightarrow> (let u = sq_Update item in
     (\<exists>j < length us. us ! j = u \<and> observer_current q (oio_First (ios (i + j))) u \<and> observer_current q (oio_Second (ios (i + j))) u) \<and>
     (\<exists>f wire. header_array (fu_Frame u) = Some f \<and> sq_Header item = DecodeHeader f \<and> mar (fu_Frame u) = Inr wire \<and>
        qo_seen q (fu_Key u) \<noteq> Some (sha wire) \<and> qo_seen q' (fu_Key u) = Some (sha wire)))"

lemma shows_well_Cons:
  assumes "shows_well mar sha ios (Suc i) us q q' item"
  shows "shows_well mar sha ios i (u # us) q q' item"
proof -
  obtain j where "j < length us" "us ! j = sq_Update item" "observer_current q (oio_First (ios (Suc i + j))) (sq_Update item)"
      "observer_current q (oio_Second (ios (Suc i + j))) (sq_Update item)"
    using assms by (auto simp: shows_well_def Let_def)
  then have "\<exists>j < length (u # us). (u # us) ! j = sq_Update item \<and> observer_current q (oio_First (ios (i + j))) (sq_Update item) \<and>
      observer_current q (oio_Second (ios (i + j))) (sq_Update item)"
    by (intro exI [of _ "Suc j"]) simp
  then show ?thesis using assms unfolding shows_well_def Let_def by blast
qed

lemma observe_quotes_shows:
  assumes "observe_quotes L H mar sha swp k ios i us q = (q', items, err)" "distinct (map fu_Key us)"
  shows "subseq (map sq_Update items) us \<and> (\<forall>item\<in>set items. shows_well mar sha ios i us q q' item) \<and>
    (\<forall>key. key \<notin> fu_Key ` set us \<longrightarrow> qo_seen q' key = qo_seen q key) \<and>
    (err = Some RaPanic \<longrightarrow> (\<exists>u\<in>set us. header_array (fu_Frame u) = None))"
  using assms
proof (induction us arbitrary: i q items)
  case (Cons u us)
  let ?skip = "observe_quotes L H mar sha swp k ios (Suc i) us q = (q', items, err)"
  have d: "distinct (map fu_Key us)" "fu_Key u \<notin> fu_Key ` set us" using Cons.prems(2) by auto
  have skip: ?case if ?skip using Cons.IH [OF that d(1)] by (auto intro: list_emb_Cons shows_well_Cons)
  show ?case
  proof (cases "observer_current q (oio_First (ios i)) u")
    case first: True
    show ?thesis
    proof (cases "mar (fu_Frame u)")
      case (Inr wire)
      show ?thesis
      proof (cases "qo_seen q (fu_Key u) = Some (sha wire)")
        case new: False
        show ?thesis
        proof (cases "header_array (fu_Frame u)")
          case (Some f)
          show ?thesis
          proof (cases "observer_current q (oio_Second (ios i)) u")
            case second: True
            let ?q = "q\<lparr>qo_seen := (qo_seen q)(fu_Key u \<mapsto> sha wire)\<rparr>"
            obtain rest where r: "observe_quotes L H mar sha swp k ios (Suc i) us ?q = (q', rest, err)"
                "items = \<lparr>sq_Update = u, sq_Header = DecodeHeader f, sq_Swap = observe_swap L H swp k (ios i) ?q u\<rparr> # rest"
              using Cons.prems(1) first Inr new Some second by (auto simp: Let_def split: prod.splits)
            note IH = Cons.IH [OF r(1) d(1)]
            have seen: "qo_seen q' (fu_Key u) = Some (sha wire)" using IH d(2) by simp
            have keys: "fu_Key (sq_Update item) \<noteq> fu_Key u" if "item \<in> set rest" for item
              using IH that d(2) by (metis imageI list.set_map set_nths_subset subseq_conv_nths subsetD)
            have "shows_well mar sha ios (Suc i) us q q' item" if "item \<in> set rest" for item
              using IH that keys [OF that] by (auto simp: shows_well_def Let_def observer_current_def)
            then have "shows_well mar sha ios i (u # us) q q' item" if "item \<in> set rest" for item
              using that by (blast intro: shows_well_Cons)
            moreover have "shows_well mar sha ios i (u # us) q q' (hd items)"
              using r(2) first second Inr new Some seen by (auto simp: shows_well_def Let_def intro!: exI [of _ 0])
            ultimately show ?thesis using IH r(2) by auto
          qed (use skip Cons.prems(1) first Inr new Some in auto)
        qed (use Cons.prems(1) first Inr new in auto)
      qed (use skip Cons.prems(1) first Inr in auto)
    qed (use Cons.prems(1) first in auto)
  qed (use skip Cons.prems(1) in auto)
qed simp

text \<open>C26: What one call of observe displays: with a well-formed cache, the displayed frames are cached
  frames with pairwise different streams; each was current, for the generation and the revision the
  cache is of, at the check before it is marshalled and again at the check before it is displayed,
  both made in its own turn of the sorted loop;
  its header is the decoded header of the frame; its fingerprint differs from the one displayed
  before for its stream and is the recorded one afterwards. The call panics only if a cached
  frame has no header of 32 bytes.\<close>

theorem observe_shows_current:
  assumes "cache_ok limit q0" "observe L H mar sha swp k status ios q0 = (q', items, err)"
  shows "distinct (map (fu_Key \<circ> sq_Update) items) \<and>
    (\<forall>item\<in>set items. sq_Update item \<in> snd ` set (qo_latest (observer_sync status q0)) \<and>
       shows_well mar sha ios 0 (sort_quotes (Hex (eth L)) (map snd (qo_latest (observer_sync status q0))))
         (observer_sync status q0) q' item) \<and>
    (err = Some RaPanic \<longrightarrow> (\<exists>u\<in>snd ` set (qo_latest q0). header_array (fu_Frame u) = None))"
proof -
  let ?q = "observer_sync status q0"
  let ?us = "sort_quotes (Hex (eth L)) (map snd (qo_latest ?q))"
  have "map fu_Key (map snd (qo_latest ?q)) = map fst (qo_latest ?q)"
    using cache_ok_sync [OF assms(1), of status] by (auto simp: cache_ok_def)
  then have d: "distinct (map fu_Key ?us)"
    using cache_ok_sync [OF assms(1), of status] by (intro sort_quotes_keys) (simp only: cache_ok_def)
  have us: "set ?us = snd ` set (qo_latest ?q)" by (metis list.set_map mset_sort_quotes set_mset_mset)
  note o = observe_quotes_shows [OF assms(2) [unfolded observe_def Let_def] d]
  have "subseq (map fu_Key (map sq_Update items)) (map fu_Key ?us)" using o by (blast intro: subseq_map)
  then have "distinct (map (fu_Key \<circ> sq_Update) items)" using d by (metis in_set_subseqs map_map subseqs_distinctD)
  moreover have "set (map sq_Update items) \<subseteq> snd ` set (qo_latest ?q)"
    using o us by (metis set_nths_subset subseq_conv_nths)
  moreover have "set (qo_latest ?q) \<subseteq> set (qo_latest q0)" by (simp add: observer_sync_def)
  ultimately show ?thesis using o us by auto
qed

definition shown_status :: client_status where
  "shown_status = \<lparr>st_Phase = Connected, st_Generation = 1, st_SubscriptionRevision = 1, st_Identity = [], st_LastError = None\<rparr>"

definition shown_update :: frame_update where
  "shown_update = \<lparr>fu_Key = \<lparr>fk_ChainID = 1, fk_PairID = 2, fk_Maker = 3\<rparr>,
     fu_Frame = toy_frame\<lparr>mf_Frame := Some \<lparr>pcf_Header = replicate 32 0, pcf_BidLevels = [], pcf_AskLevels = [], pcf_unknown = []\<rparr>\<rparr>,
     fu_Generation = 1, fu_SubscriptionRevision = 1\<rparr>"

definition shown_observer :: quote_observer where
  "shown_observer = \<lparr>qo_latest = [(fu_Key shown_update, shown_update)], qo_seen = Map.empty, qo_generation = 1, qo_revision = 1\<rparr>"

definition shown_io :: observe_io where
  "shown_io = \<lparr>oio_First = shown_status, oio_Second = shown_status, oio_Third = shown_status, oio_Rpc = silent_rpc,
     oio_Ctx = never_done, oio_Now = 0\<rparr>"

theorem observe_shows_current_witness:
  "\<exists>q' item. observe echo_lib toy_hex (\<lambda>m. Inr [7]) (\<lambda>b. b) None sample_client shown_status (\<lambda>_. shown_io) shown_observer = (q', [item], None) \<and>
     sq_Update item = shown_update \<and> qo_seen q' (fu_Key shown_update) = Some [7]"
proof -
  have ok: "cache_ok 5 shown_observer"
    by (simp add: cache_ok_def shown_observer_def) (simp add: shown_update_def)
  have sync: "observer_sync shown_status shown_observer = shown_observer"
    by (simp add: observer_sync_def shown_status_def shown_observer_def)
  have cur: "observer_current shown_observer shown_status shown_update"
    by (simp add: observer_current_def shown_status_def shown_observer_def shown_update_def)
  obtain f where f: "header_array (fu_Frame shown_update) = Some f"
    by (simp add: header_array_def shown_update_def)
  have "qo_latest shown_observer = [(fu_Key shown_update, shown_update)]" "qo_seen shown_observer = Map.empty"
    by (simp_all add: shown_observer_def)
  then obtain q' item where o: "observe echo_lib toy_hex (\<lambda>m. Inr [7]) (\<lambda>b. b) None sample_client shown_status (\<lambda>_. shown_io) shown_observer = (q', [item], None)"
    using cur f by (simp add: observe_def sync sort_quotes_def shown_io_def Let_def)
  from observe_shows_current [OF ok o]
  have "sq_Update item \<in> {shown_update}" "\<exists>us. shows_well (\<lambda>m. Inr [7]) (\<lambda>b. b) (\<lambda>_. shown_io) 0 us shown_observer q' item"
    by (auto simp: sync) (simp add: shown_observer_def)
  with o show ?thesis by (auto simp: shows_well_def Let_def)
qed

subsection \<open>Quoting a swap\<close>

lemma matchQuote_loop_grows:
  "matchQuote_loop pair buy i levels budget out = Inr r \<Longrightarrow> 0 \<le> budget \<Longrightarrow> 0 \<le> out \<Longrightarrow> out \<le> r"
proof (induction levels arbitrary: i budget out)
  case (Cons l ls)
  show ?case
  proof (cases "budget = 0")
    case False
    then have b: "0 < budget" using Cons.prems(2) by simp
    obtain p d where q: "quoteDecimal (GetPrice l) (priceScale pair) = Inr p"
        "quoteDecimal (GetAmount l) (uint (pp_BaseDecimals pair)) = Inr d"
      using Cons.prems(1) False by (auto simp: attempt_Inr)
    then have v: "0 < p" "0 < d" by (simp_all add: quoteDecimal_iff)
    note lb = level_bounds [OF v Cons.prems(2), of buy]
    let ?t = "level_take buy p d budget"
    have IH: "matchQuote_loop pair buy (Suc i) ls (budget - level_paid buy p ?t) (out + level_got buy p ?t) = Inr r \<Longrightarrow>
        out + level_got buy p ?t \<le> r"
      using Cons.IH [of "Suc i" "budget - level_paid buy p ?t" "out + level_got buy p ?t"] lb(4,5) Cons.prems(3) by simp
    show ?thesis
      using Cons.prems(1) IH lb(5) unfolding matchQuote_loop_step [OF q b Cons.prems(3)] by (auto split: if_splits)
  qed (use Cons.prems in simp)
qed simp

lemma Quote_positive:
  assumes "Quote H v tokenIn tokenOut amountIn cfg now = Inr n"
  shows "0 < n"
proof -
  obtain m a where m: "v = Some m" "amountIn = Some a"
    using assms by (auto simp: Quote_def validateQuote_def attempt_Inr Let_def split: option.splits)
  have c: "\<not> a \<le> 0" "\<not> quote_fees_bad cfg"
    using assms by (auto simp: Quote_def validateQuote_def m Let_def attempt_Inr split: option.splits)
  obtain levels where "matchQuote levels tokenIn tokenOut a cfg = Inr n"
    using assms by (auto simp: Quote_def m attempt_Inr Let_def)
  then obtain out where o: "matchQuote_loop (qc_Pair cfg) (tokenIn = pp_QuoteToken (qc_Pair cfg)) 0 levels
        (legBudgetWithInputFee a cfg tokenIn) 0 = Inr out" "applyOutputFee out cfg tokenOut = Inr n"
    by (auto simp: matchQuote_def Let_def attempt_Inr)
  have out: "0 \<le> out" using matchQuote_loop_grows [OF o(1)] legBudget_bounds c(1) by simp
  then have "n = net_of cfg tokenOut out" "n \<noteq> 0" using o(2) by (simp_all add: applyOutputFee_net)
  then show ?thesis using out net_of_pos(1) [OF c(2), of tokenOut] net_of_pos(2) [OF c(2), of out tokenOut] by (cases "out = 0") auto
qed

lemma positiveInteger_Inr: "positiveInteger s bits = Inr n \<longleftrightarrow> s \<noteq> [] \<and> list_all is_digit s \<and> n = int (digits_val s) \<and> 0 < n \<and> n < 2 ^ bits"
  by (auto simp: positiveInteger_def big_SetString_def BitLen_gt not_less)

lemma slippage_word:
  assumes "(s :: u32) < 10000"
  shows "uint (ucast (10000 - s) :: u64) = 10000 - uint s"
proof -
  have "uint (10000 - s) = 10000 - uint s" using assms by (simp add: uint_sub_lem [THEN iffD1] word_le_def word_less_def)
  moreover have "0 \<le> uint (10000 - s)" "uint (10000 - s) < 2 ^ 64" using uint_lt2p [of "10000 - s"] by simp_all
  ultimately show ?thesis by (simp add: unsigned_ucast_eq take_bit_int_eq_self)
qed

lemma slippage_floor:
  fixes out s :: int
  assumes "0 < out" "0 \<le> s" "s \<le> 10000"
  shows "0 \<le> out * (10000 - s) div 10000" "out * (10000 - s) div 10000 \<le> out"
    "10000 * (out - out * (10000 - s) div 10000) < out * s + 10000"
proof -
  define x y q r where "x = out * (10000 - s)" and "y = out * s" and "q = x div 10000" and "r = x mod 10000"
  have "x = 10000 * out - y" by (simp add: x_def y_def algebra_simps)
  moreover have "0 \<le> x" "0 \<le> y" using assms by (simp_all add: x_def y_def)
  moreover have "x = 10000 * q + r" "0 \<le> r" "r < 10000" by (simp_all add: q_def r_def)
  ultimately have "0 \<le> q" "q \<le> out" "10000 * (out - q) = y + r" "r < 10000" by (linarith, linarith, simp add: right_diff_distrib, simp)
  then show "0 \<le> out * (10000 - s) div 10000" "out * (10000 - s) div 10000 \<le> out"
    "10000 * (out - out * (10000 - s) div 10000) < out * s + 10000"
    by (simp_all add: q_def x_def y_def)
qed

text \<open>C25: The swap the application shows is bounded by its quote: with validated settings, whatever
  showSwap logs is the configured amount as a positive uint256, the positive output Quote gives for
  that frame and those settings, a minimum that is that output less the slippage rounded down (so at
  most one unit plus the slippage below the quote, and never above it), and the calldata that
  BuildSwap makes of exactly these amounts, the configured tokens and recipient.\<close>

theorem show_swap_bound:
  assumes "swap_validate H parse s = Inr ()" "showSwap L H s u params now = Inr (amountIn, amountOut, minOut, data)"
  shows "amountIn = int (digits_val (swc_AmountIn s)) \<and> 0 < amountIn \<and> amountIn < 2 ^ 256 \<and>
    Quote H (Some (fu_Frame u)) (HexToAddress H (swc_TokenIn s)) (HexToAddress H (swc_TokenOut s)) (Some amountIn) params now = Inr amountOut \<and>
    0 < amountOut \<and> minOut = amountOut * (10000 - uint (swc_SlippageBPS s)) div 10000 \<and>
    0 \<le> minOut \<and> minOut \<le> amountOut \<and> 10000 * (amountOut - minOut) < amountOut * uint (swc_SlippageBPS s) + 10000 \<and>
    (\<exists>swp. BuildSwap L H (Some (fu_Frame u)) (HexToAddress H (swc_TokenIn s)) (HexToAddress H (swc_TokenOut s))
       (Some amountIn) (Some minOut) (HexToAddress H (swc_Recipient s)) = Inr (swp, data))"
proof -
  have sl: "swc_SlippageBPS s < 10000" using assms(1) by (auto simp: swap_validate_def attempt_Inr not_le)
  let ?k = "10000 - uint (swc_SlippageBPS s)"
  have k: "0 < ?k" "?k \<le> 10000" using sl by (simp_all add: word_less_def)
  have d: "positiveInteger (swc_AmountIn s) 256 = Inr amountIn"
      "Quote H (Some (fu_Frame u)) (HexToAddress H (swc_TokenIn s)) (HexToAddress H (swc_TokenOut s)) (Some amountIn) params now = Inr amountOut"
      "minOut = Quo (amountOut * ?k) 10000"
      "\<exists>swp. BuildSwap L H (Some (fu_Frame u)) (HexToAddress H (swc_TokenIn s)) (HexToAddress H (swc_TokenOut s))
       (Some amountIn) (Some minOut) (HexToAddress H (swc_Recipient s)) = Inr (swp, data)"
    using assms(2) by (auto simp: showSwap_def attempt_Inr Let_def slippage_word [OF sl])
  have o: "0 < amountOut" using Quote_positive [OF d(2)] .
  then have m: "minOut = amountOut * ?k div 10000" using d(3) k by (simp add: Quo_nonneg)
  have "0 \<le> uint (swc_SlippageBPS s)" "uint (swc_SlippageBPS s) \<le> 10000" using k by simp_all
  from slippage_floor [OF o this]
  show ?thesis using d(1,2,4) o m by (simp add: positiveInteger_Inr)
qed

definition toy_swap :: swap_config where
  "toy_swap = \<lparr>swc_ChainID = 1, swc_RPCURL = ''http://node'', swc_PairID = 7, swc_Maker = ''maker'', swc_Protocol = ''protocol'',
     swc_Recipient = ''me'', swc_TokenIn = ''base'', swc_TokenOut = ''quote'', swc_AmountIn = ''2000000000000000000'', swc_SlippageBPS = 100\<rparr>"

definition toy_url :: "string \<Rightarrow> rpc_url option" where
  "toy_url raw = Some \<lparr>ru_Hostname = ''node'', ru_Fragment = [], ru_Scheme = ''http''\<rparr>"

lemma toy_swap_valid: "swap_validate any_hex toy_url toy_swap = Inr ()"
  by (simp add: swap_validate_def bad_rpc_url_def toy_url_def toy_swap_def nonzero_address_def any_hex_def attempt_Inr
      positiveInteger_def big_SetString_def is_digit_def digits_val_def digit_val_def BitLen_gt)

lemma sample_quote_with:
  "Quote any_hex (Some (market_with f)) 0xA1 0xB2 (Some 2000000000000000000) sample_cfg 1700000004 = Inr 24925000"
proof -
  have "ValidatePair sample_pair = Inr ()" using sample_pair_valid by (simp add: sample_spec_def)
  then show ?thesis
    using sample_match(1) sample_cfg_sel(2)
    by (simp add: Quote_def validateQuote_def market_with_def sample_market_def Let_def reject_def any_hex_def BitLen_gt)
      (simp add: sample_cfg_def sample_pair_def)
qed

theorem show_swap_bound_witness:
  "\<exists>u data swp. showSwap echo_lib any_hex toy_swap u sample_cfg 1700000004 = Inr (2000000000000000000, 24925000, 24675750, data) \<and>
     BuildSwap echo_lib any_hex (Some (fu_Frame u)) 0xA1 0xB2 (Some 2000000000000000000) (Some 24675750) 0xB2 = Inr (swp, data)"
proof -
  obtain f where f: "frame_arrays f" "decodeCompactFrame f = Inr (decoded_of sample_spec)" using sample_frame by blast
  obtain swp data where b: "buildSwap echo_lib any_hex MethodSwap (Some (market_with f)) 0xA1 0xB2 (Some 2000000000000000000)
      (Some 24675750) 0xB2 = Inr (swp, data)"
    using toy_buildSwap [OF f, of 2000000000000000000 24675750 "0xB2"] by auto
  let ?u = "shown_update\<lparr>fu_Frame := market_with f\<rparr>"
  have n: "positiveInteger ''2000000000000000000'' 256 = Inr 2000000000000000000"
    by (simp add: positiveInteger_def big_SetString_def is_digit_def digits_val_def digit_val_def BitLen_gt)
  have t: "HexToAddress any_hex ''base'' = 0xA1" "HexToAddress any_hex ''quote'' = 0xB2" "HexToAddress any_hex ''me'' = 0xB2"
    by (simp_all add: any_hex_def)
  have s: "showSwap echo_lib any_hex toy_swap ?u sample_cfg 1700000004 = Inr (2000000000000000000, 24925000, 24675750, data)"
    using b by (simp add: showSwap_def toy_swap_def n t sample_quote_with BuildSwap_def Quo_nonneg Let_def)
  have c: "swc_TokenIn toy_swap = ''base''" "swc_TokenOut toy_swap = ''quote''" "swc_Recipient toy_swap = ''me''" by (simp_all add: toy_swap_def)
  from show_swap_bound [OF toy_swap_valid s]
  obtain swp' where "BuildSwap echo_lib any_hex (Some (fu_Frame ?u)) 0xA1 0xB2 (Some 2000000000000000000) (Some 24675750) 0xB2 = Inr (swp', data)"
    unfolding c t by blast
  with s show ?thesis by blast
qed

text \<open>The settings the application quotes with are usable and consistent: every configuration
  loadQuoteConfig returns has the asked pair id, passes the SDK's pair and fee validation with the
  decimals read from the tokens (so Quote never rejects it for its settings), comes from an active
  pair, and all four reads (pair with fee switch, decay, both decimals) are of the block that
  BlockNumber returned.\<close>

theorem load_quote_config_usable:
  assumes "loadQuoteConfig L r contract cx pairID = Inr cfg"
  shows "\<exists>n pair decay. BlockNumber r = Inr n \<and> EffectivePairConfig L r contract cx pairID (Some (uint n)) = Inr pair \<and> pc_Active pair \<and>
    ReadGlobalDecayConfig L (shift_calls 2 r) contract cx (Some (uint n)) = Inr decay \<and>
    token_decimals L r (uint n) 3 (pp_BaseToken (qc_Pair cfg)) = Inr (pp_BaseDecimals (qc_Pair cfg)) \<and>
    token_decimals L r (uint n) 4 (pp_QuoteToken (qc_Pair cfg)) = Inr (pp_QuoteDecimals (qc_Pair cfg)) \<and>
    qc_DecayStartOffsetSeconds cfg = DecayStartOffsetSeconds decay \<and>
    pp_PairID (qc_Pair cfg) = pairID \<and> pairID \<noteq> 0 \<and> ValidatePair (qc_Pair cfg) = Inr () \<and> \<not> quote_fees_bad cfg \<and>
    qc_FeeToken cfg \<in> {0, pp_BaseToken (qc_Pair cfg), pp_QuoteToken (qc_Pair cfg)}"
proof -
  obtain n pair decay base quote where r: "BlockNumber r = Inr n" "EffectivePairConfig L r contract cx pairID (Some (uint n)) = Inr pair"
      "pc_Active pair" "ReadGlobalDecayConfig L (shift_calls 2 r) contract cx (Some (uint n)) = Inr decay"
      "token_decimals L r (uint n) 3 (pc_BaseToken pair) = Inr base" "token_decimals L r (uint n) 4 (pc_QuoteToken pair) = Inr quote"
    and cfg: "cfg = \<lparr>qc_Pair = \<lparr>pp_PairID = pairID, pp_BaseToken = pc_BaseToken pair, pp_QuoteToken = pc_QuoteToken pair,
            pp_BaseDecimals = base, pp_QuoteDecimals = quote, pp_PriceTickSize = Some (pc_PriceTickSize pair),
            pp_LotSize = Some (pc_LotSize pair)\<rparr>,
          qc_FeeToken = pc_FeeToken pair, qc_FeeRatePPM = pc_FeeRate pair,
          qc_DecayStartOffsetSeconds = DecayStartOffsetSeconds decay\<rparr>"
    using assms by (auto simp: loadQuoteConfig_def attempt_Inr Let_def)
  have id: "pairID \<noteq> 0" using r(2) by (auto simp: EffectivePairConfig_def attempt_Inr)
  from EffectivePairConfig_usable [OF r(2), where bd = base and qd = quote and age = "DecayStartOffsetSeconds decay"]
  have "ValidatePair (qc_Pair cfg) = Inr ()" "\<not> quote_fees_bad cfg"
    "pc_FeeToken pair \<in> {0, pc_BaseToken pair, pc_QuoteToken pair}"
    by (auto simp: cfg Let_def)
  then show ?thesis using r id by (auto simp: cfg)
qed

definition quote_lib :: chainlib where
  "quote_lib = config_lib\<lparr>UnpackContract := (\<lambda>m b. if m = ''globalDecayConfig'' then Inr [VU32 10, VU32 20, VU32 30, VU32 1000]
     else UnpackContract config_lib m b)\<rparr>"

definition quote_rpc :: rpc where
  "quote_rpc = silent_rpc\<lparr>CallContract := (\<lambda>k m b. Inr (replicate 31 0 @ [if k = 3 then 18 else 6]))\<rparr>"

lemma quote_effective:
  "EffectivePairConfig quote_lib quote_rpc sample_client (Some never_done) 7 (Some 100) =
     Inr \<lparr>pc_BaseToken = 0xA1, pc_QuoteToken = 0xB2, pc_PriceTickSize = 10000, pc_LotSize = 1000, pc_Active = True,
       pc_FeeToken = 0, pc_FeeRate = 0\<rparr>"
  by (simp add: EffectivePairConfig_def validateBlock_def silent_rpc_def PairConfig_def FeeRecipient_def read_proxy_def
      config_lib_def quote_lib_def quote_rpc_def echo_lib_def reject_def as_addr_def as_int_def as_bool_def bad_uint128_def BitLen_gt BitLen_le
      PPMDenominator_def Let_def)

lemma quote_decay:
  "ReadGlobalDecayConfig quote_lib (shift_calls 2 quote_rpc) sample_client (Some never_done) (Some 100) =
     Inr \<lparr>DecayStartOffsetSeconds = 10, DecayEndOffsetSeconds = 20, MaxAge = 30, MaxDecayPpm = 1000\<rparr>"
  by (simp add: ReadGlobalDecayConfig_def validateBlock_def read_proxy_def quote_lib_def quote_rpc_def shift_calls_def config_lib_def
      echo_lib_def silent_rpc_def as_u32_def Validate_def PPMDenominator_def reject_def Let_def)

lemma quote_decimals:
  "token_decimals quote_lib quote_rpc 100 3 token = Inr 18" "token_decimals quote_lib quote_rpc 100 4 token = Inr 6"
proof -
  have b: "big_SetBytes (replicate 31 0 @ [18]) = 18" "big_SetBytes (replicate 31 0 @ [6]) = 6" by code_simp+
  have "CallContract quote_rpc 3 m bl = Inr (replicate 31 0 @ [18])" "CallContract quote_rpc 4 m bl = Inr (replicate 31 0 @ [6])" for m bl
    by (simp_all add: quote_rpc_def)
  then show "token_decimals quote_lib quote_rpc 100 3 token = Inr 18" "token_decimals quote_lib quote_rpc 100 4 token = Inr 6"
    by (simp_all add: token_decimals_def b BitLen_gt)
qed

theorem load_quote_config_usable_witness:
  "\<exists>cfg. loadQuoteConfig quote_lib quote_rpc sample_client (Some never_done) 7 = Inr cfg \<and>
     pp_BaseDecimals (qc_Pair cfg) = 18 \<and> ValidatePair (qc_Pair cfg) = Inr () \<and> \<not> quote_fees_bad cfg"
proof -
  have "BlockNumber quote_rpc = Inr 100" by (simp add: quote_rpc_def silent_rpc_def)
  then obtain cfg where c: "loadQuoteConfig quote_lib quote_rpc sample_client (Some never_done) 7 = Inr cfg" "pp_BaseDecimals (qc_Pair cfg) = 18"
    by (simp add: loadQuoteConfig_def quote_effective quote_decay quote_decimals)
  from load_quote_config_usable [OF c(1)] c show ?thesis by blast
qed

subsection \<open>Frames without a header\<close>

text \<open>C40: The application's display ends with a panic on a frame that the SDK does deliver: in a run of
  the SDK's client that connects, subscribes and receives, a frame whose compact part is missing
  reaches the application, is cached as its stream's latest frame, and the next observe converts
  its missing header to an array.\<close>

theorem headerless_frame_panics:
  "\<exists>u c q. stream_steps toy_proto toy_hex toy_start toy_delivered \<and> receive_frame (w_client toy_delivered) = Some (u, c) \<and>
     accept u (Status c) 5 empty_observer = (q, None) \<and> map_of (qo_latest q) (fu_Key u) = Some u \<and>
     snd (snd (observe echo_lib toy_hex (\<lambda>m. Inr [7]) (\<lambda>b. b) None sample_client (Status c)
       (\<lambda>_. shown_io\<lparr>oio_First := Status c, oio_Second := Status c\<rparr>) q)) = Some RaPanic"
proof -
  obtain u c where u: "receive_frame (w_client toy_delivered) = Some (u, c)" "fu_Frame u = toy_frame" using toy_received by blast
  have st: "Status c = Status (w_client toy_delivered)"
    using u(1) by (auto simp: receive_frame_def Status_def split: option.splits prod.splits)
  note cur = receive_frame_current [OF toy_started toy_run u(1)]
  let ?s = "observer_sync (Status c) empty_observer"
  let ?q = "?s\<lparr>qo_latest := [(fu_Key u, u)]\<rparr>"
  have s: "qo_latest ?s = []" "qo_seen ?s = Map.empty" by (simp_all add: observer_sync_def empty_observer_def)
  have a: "accept u (Status c) 5 empty_observer = (?q, None)"
    using cur by (simp add: accept_cases status_current_def st [symmetric] s Let_def)
  have q: "observer_sync (Status c) ?q = ?q" "observer_current ?q (Status c) u"
    using cur by (auto simp: st observer_sync_def observer_current_def)
  have h: "header_array (fu_Frame u) = None" by (simp add: u(2) header_array_def toy_frame_def)
  have "snd (snd (observe echo_lib toy_hex (\<lambda>m. Inr [7]) (\<lambda>b. b) None sample_client (Status c)
       (\<lambda>_. shown_io\<lparr>oio_First := Status c, oio_Second := Status c\<rparr>) ?q)) = Some RaPanic"
    using q(2) h s(2) by (simp add: observe_def q(1) sort_quotes_def Let_def)
  with u(1) a toy_run show ?thesis by (intro exI [of _ u] exI [of _ c] exI [of _ ?q]) simp
qed

end
