(* ===== verification/Protocol_Example.thy ===== *)
theory Protocol_Example
  imports Listing_Example Router_Example_Properties
begin

text \<open>
  The example protocol application, \<open>examples/protocol\<close>: the offline tour of signing, decay and calldata
  (\<open>offline.go\<close>) and the read-only run against an RPC endpoint (\<open>rpc.go\<close>). The key, the file, the
  connection and the writer are parameters. The lemmas show when exactly the offline tour goes through
  and what it computes, and that the run simulates against one verified
  chain and block and prints no endpoint secret.
\<close>

subsection \<open>offline.go\<close>

record offline_key =
  ok_Address :: address
  ok_Sign :: "bytes \<Rightarrow> string + bytes"

datatype offline_error =
    OffFrame frame_error
  | OffKey string
  | OffSign string
  | OffVerify frame_error
  | OffAccepted string
  | OffDecay decay_error
  | OffNotExpired
  | OffEncode swap_method go_error
  | OffPanic

definition offline_spec :: "hexlib \<Rightarrow> frame_spec" where
  "offline_spec H = \<lparr>fs_ChainID = 56,
     fs_Protocol = HexToAddress H ''0x1111111111111111111111111111111111111111'',
     fs_Maker = HexToAddress H ''0x2222222222222222222222222222222222222222'',
     fs_Pair = \<lparr>pp_PairID = 7, pp_BaseToken = HexToAddress H ''0x0000000000000000000000000000000000000001'',
       pp_QuoteToken = HexToAddress H ''0x0000000000000000000000000000000000000002'',
       pp_BaseDecimals = 18, pp_QuoteDecimals = 6, pp_PriceTickSize = Some 10000, pp_LotSize = Some 10000000000000000\<rparr>,
     fs_BaseTick = 500, fs_Bids = [\<lparr>Offset = 2, QtyLots = 100\<rparr>], fs_Asks = [\<lparr>Offset = 3, QtyLots = 50\<rparr>],
     fs_UpdatedAt = 1700000000, fs_MajorVersion = 1, fs_MinorVersion = 0, fs_CodecVersion = CodecVersion\<rparr>"

fun check_rejected :: "ethlib \<Rightarrow> address \<Rightarrow> (string \<times> signing_domain \<times> signed_frame) list \<Rightarrow> offline_error + unit" where
  "check_rejected L signer [] = Inr ()"
| "check_rejected L signer ((name, domn, quote) # attempts) =
    (case VerifySignature L domn quote signer of
       Inr _ \<Rightarrow> Inl (OffAccepted name)
     | Inl _ \<Rightarrow> check_rejected L signer attempts)"

text \<open>The calldata of each method; \<open>calldata[:4]\<close> panics on a shorter slice.\<close>

fun encode_methods :: "chainlib \<Rightarrow> swap_params \<Rightarrow> swap_method list \<Rightarrow> offline_error + bytes list" where
  "encode_methods L params [] = Inr []"
| "encode_methods L params (method # methods) =
     attempt (wrap_err (OffEncode method) (EncodeSwapCall L method params)) (\<lambda>calldata.
     reject (length calldata < 4) OffPanic
    (attempt (encode_methods L params methods) (\<lambda>rest. Inr (calldata # rest))))"

definition offline_decay :: global_decay_config where
  "offline_decay = \<lparr>DecayStartOffsetSeconds = 10, DecayEndOffsetSeconds = 13, MaxAge = 20, MaxDecayPpm = 100000\<rparr>"

definition offline_attempts :: "hexlib \<Rightarrow> payload \<Rightarrow> signed_frame \<Rightarrow> compact_frame \<Rightarrow> (string \<times> signing_domain \<times> signed_frame) list" where
  "offline_attempts H p sgd other =
    [(''chain'', (pay_Domain p)\<lparr>dom_ChainID := dom_ChainID (pay_Domain p) + 1\<rparr>, sgd),
     (''proxy'', (pay_Domain p)\<lparr>dom_Protocol := HexToAddress H ''0x3333333333333333333333333333333333333333''\<rparr>, sgd),
     (''maker'', pay_Domain p, sgd\<lparr>sf_Maker := HexToAddress H ''0x4444444444444444444444444444444444444444''\<rparr>),
     (''book'', pay_Domain p, sgd\<lparr>sf_Frame := other\<rparr>)]"

definition offline_params :: "hexlib \<Rightarrow> frame_spec \<Rightarrow> signed_frame \<Rightarrow> swap_params" where
  "offline_params H spec sgd = \<lparr>sp_PairID = pp_PairID (fs_Pair spec), sp_IsBuy = False, sp_AmountIn = Some 1000000000000000000,
     sp_MinAmountOut = Some 4000000, sp_Maker = fs_Maker spec,
     sp_Recipient = HexToAddress H ''0x5555555555555555555555555555555555555555'', sp_PriceUpdates = [sgd]\<rparr>"

definition runOffline :: "chainlib \<Rightarrow> hexlib \<Rightarrow> string + offline_key \<Rightarrow> offline_error + u32 \<times> int \<times> int \<times> bytes list" where
  "runOffline L H key =
    (let spec = offline_spec H in
     attempt (wrap_err OffFrame (Prepare (eth L) spec)) (\<lambda>prepared.
     let p = SigningPayload (Some prepared) in
     attempt (wrap_err OffKey key) (\<lambda>k.
     let expectedSigner = ok_Address k in
     attempt (wrap_err OffSign (ok_Sign k (pay_Digest p))) (\<lambda>signature.
     attempt (wrap_err OffFrame (AttachSignature (eth L) (Some prepared) signature expectedSigner)) (\<lambda>marketFrame.
     let sgd = \<lparr>sf_Frame = pay_Frame p, sf_Maker = pay_Maker p, sf_Signature = mf_Signature marketFrame\<rparr> in
     attempt (wrap_err OffVerify (VerifySignature (eth L) (pay_Domain p) sgd expectedSigner)) (\<lambda>_.
     attempt (wrap_err OffFrame (Prepare (eth L) (spec\<lparr>fs_BaseTick := fs_BaseTick spec + 1\<rparr>))) (\<lambda>changed.
     attempt (check_rejected (eth L) expectedSigner (offline_attempts H p sgd (pay_Frame (SigningPayload (Some changed))))) (\<lambda>_.
     attempt (wrap_err OffDecay (DecayPPM (fs_UpdatedAt spec) (ucast (fs_UpdatedAt spec) + 11) offline_decay)) (\<lambda>decay.
     attempt (wrap_err OffDecay (ApplyDecay (Some 1000000) decay)) (\<lambda>(deduction, remaining).
     reject (DecayPPM (fs_UpdatedAt spec) (ucast (fs_UpdatedAt spec) + ucast (MaxAge offline_decay)) offline_decay \<noteq> Inl DecayExpiredFrame)
       OffNotExpired
    (attempt (encode_methods L (offline_params H spec sgd) [MethodSwap, MethodSwapExactIn, MethodSwapWithCallback]) (\<lambda>datas.
     Inr (decay, deduction, remaining, datas)))))))))))))"

subsection \<open>The tour goes through\<close>

text \<open>What \<open>common.HexToAddress\<close> reads the fixture's literals as.\<close>

definition reads_fixtures :: "hexlib \<Rightarrow> bool" where
  "reads_fixtures H \<longleftrightarrow>
     HexToAddress H ''0x1111111111111111111111111111111111111111'' = 0x1111111111111111111111111111111111111111 \<and>
     HexToAddress H ''0x2222222222222222222222222222222222222222'' = 0x2222222222222222222222222222222222222222 \<and>
     HexToAddress H ''0x3333333333333333333333333333333333333333'' = 0x3333333333333333333333333333333333333333 \<and>
     HexToAddress H ''0x4444444444444444444444444444444444444444'' = 0x4444444444444444444444444444444444444444 \<and>
     HexToAddress H ''0x5555555555555555555555555555555555555555'' = 0x5555555555555555555555555555555555555555 \<and>
     HexToAddress H ''0x0000000000000000000000000000000000000001'' = 1 \<and>
     HexToAddress H ''0x0000000000000000000000000000000000000002'' = 2"

definition offline_frame :: "u8 \<Rightarrow> compact_frame" where
  "offline_frame tick = \<lparr>Header = [0, 0, 0, 0, 0, 0, 0, 0, 0, 0, 0, 0, 0, 0, 0, 1, 0, 0, 0, 7, 0, 1, tick, 0, 0, 0, 0, 1, 101, 83, 241, 0],
     BidLevels = replicate 28 0 @ [2, 0, 0, 100], AskLevels = replicate 28 0 @ [3, 0, 0, 50]\<rparr>"

lemma offline_encodes:
  "encodeCompactFrame (offline_spec H) = Inr (offline_frame 244)"
  "encodeCompactFrame (offline_spec H\<lparr>fs_BaseTick := fs_BaseTick (offline_spec H) + 1\<rparr>) = Inr (offline_frame 245)"
  by code_simp+

lemma offline_levels:
  assumes "ValidatePair (fs_Pair (offline_spec H)) = Inr ()"
  shows "\<exists>out. humanLevels (fs_Bids (offline_spec H)) 500 True (fs_Pair (offline_spec H)) = Inr out"
    "\<exists>out. humanLevels (fs_Asks (offline_spec H)) 500 False (fs_Pair (offline_spec H)) = Inr out"
    "\<exists>out. humanLevels (fs_Bids (offline_spec H)) 501 True (fs_Pair (offline_spec H)) = Inr out"
    "\<exists>out. humanLevels (fs_Asks (offline_spec H)) 501 False (fs_Pair (offline_spec H)) = Inr out"
proof -
  have t: "nat_text 4980000 = ''4980000''" "nat_text 4990000 = ''4990000''" "nat_text 5030000 = ''5030000''" "nat_text 5040000 = ''5040000''"
      "nat_text 1000000000000000000 = ''1000000000000000000''" "nat_text 500000000000000000 = ''500000000000000000''"
    by (simp_all add: nat_text.simps digit_char_numeral)
  have "list_all short_text (map (\<lambda>l. level_text (fs_Pair (offline_spec H)) (level_tick 500 True l) l) (fs_Bids (offline_spec H)))"
      "list_all short_text (map (\<lambda>l. level_text (fs_Pair (offline_spec H)) (level_tick 500 False l) l) (fs_Asks (offline_spec H)))"
      "list_all short_text (map (\<lambda>l. level_text (fs_Pair (offline_spec H)) (level_tick 501 True l) l) (fs_Bids (offline_spec H)))"
      "list_all short_text (map (\<lambda>l. level_text (fs_Pair (offline_spec H)) (level_tick 501 False l) l) (fs_Asks (offline_spec H)))"
    by (simp_all add: offline_spec_def level_text_def level_tick_def short_text_def GetPrice_def GetAmount_def
        priceScale_def decimal_def big_String_def t TrimRight_def Let_def)
  then show "\<exists>out. humanLevels (fs_Bids (offline_spec H)) 500 True (fs_Pair (offline_spec H)) = Inr out"
    "\<exists>out. humanLevels (fs_Asks (offline_spec H)) 500 False (fs_Pair (offline_spec H)) = Inr out"
    "\<exists>out. humanLevels (fs_Bids (offline_spec H)) 501 True (fs_Pair (offline_spec H)) = Inr out"
    "\<exists>out. humanLevels (fs_Asks (offline_spec H)) 501 False (fs_Pair (offline_spec H)) = Inr out"
    using assms by (simp_all add: humanLevels_iff)
qed

definition offline_domain :: signing_domain where
  "offline_domain = \<lparr>dom_ChainID = 56, dom_Protocol = 0x1111111111111111111111111111111111111111\<rparr>"

definition offline_maker :: address where
  "offline_maker = 0x2222222222222222222222222222222222222222"

lemma offline_prepares:
  assumes "reads_fixtures H"
  shows "\<exists>w. Prepare L (offline_spec H) = Inr \<lparr>pf_payload = \<lparr>pay_Domain = offline_domain, pay_Maker = offline_maker,
      pay_Frame = offline_frame 244, pay_Digest = digest L offline_domain offline_maker (offline_frame 244)\<rparr>, pf_wire = Some w\<rparr>"
    and "\<exists>p. Prepare L (offline_spec H\<lparr>fs_BaseTick := fs_BaseTick (offline_spec H) + 1\<rparr>) = Inr p \<and>
      pay_Frame (pf_payload p) = offline_frame 245"
proof -
  have pair: "ValidatePair (fs_Pair (offline_spec H)) = Inr ()"
    using assms by (simp add: reads_fixtures_def offline_spec_def ValidatePair_def bad_scale_def BitLen_gt)
  have s: "fs_ChainID (offline_spec H) = 56" "fs_Protocol (offline_spec H) = dom_Protocol offline_domain"
      "fs_Maker (offline_spec H) = offline_maker" "dom_Protocol offline_domain \<noteq> 0" "offline_maker \<noteq> 0" "dom_ChainID offline_domain = 56"
    using assms by (simp_all add: reads_fixtures_def offline_spec_def offline_domain_def offline_maker_def)
  have d: "\<lparr>dom_ChainID = 56, dom_Protocol = dom_Protocol offline_domain\<rparr> = offline_domain" by (simp add: offline_domain_def)
  have t: "fs_BaseTick (offline_spec H) = 500" "fs_BaseTick (offline_spec H) + 1 = 501" by (simp_all add: offline_spec_def)
  note l = offline_levels [OF pair]
  note e = offline_encodes(1) [of H] offline_encodes(2) [of H, unfolded t(2)]
  show "\<exists>w. Prepare L (offline_spec H) = Inr \<lparr>pf_payload = \<lparr>pay_Domain = offline_domain, pay_Maker = offline_maker,
      pay_Frame = offline_frame 244, pay_Digest = digest L offline_domain offline_maker (offline_frame 244)\<rparr>, pf_wire = Some w\<rparr>"
    using pair s l(1,2) by (auto simp: d Prepare_def PrepareSigningPayload_def validateDomain_def e t Let_def)
  show "\<exists>p. Prepare L (offline_spec H\<lparr>fs_BaseTick := fs_BaseTick (offline_spec H) + 1\<rparr>) = Inr p \<and>
      pay_Frame (pf_payload p) = offline_frame 245"
    using pair s l(3,4) unfolding t(2) by (auto simp: d Prepare_def PrepareSigningPayload_def validateDomain_def e Let_def)
qed

lemma offline_decays:
  "DecayPPM 1700000000 (ucast (1700000000 :: u32) + 11) offline_decay = Inr 33333"
  "DecayPPM 1700000000 (ucast (1700000000 :: u32) + ucast (MaxAge offline_decay)) offline_decay = Inl DecayExpiredFrame"
  "ApplyDecay (Some 1000000) 33333 = Inr (33333, 966667)"
  by (simp_all add: DecayPPM_def offline_decay_def Validate_def PPMDenominator_def reject_def Let_def ApplyDecay_def uint256_def
      BitLen_gt Quo_nonneg)

lemma offline_frames:
  "frame_arrays (offline_frame t)" "\<exists>v. decodeCompactFrame (offline_frame 244) = Inr v" "\<exists>v. decodeCompactFrame (offline_frame 245) = Inr v"
proof -
  show "frame_arrays (offline_frame t)" by (simp add: frame_arrays_def offline_frame_def)
  have "\<not> isl (decodeCompactFrame (offline_frame 244))" by code_simp
  then show "\<exists>v. decodeCompactFrame (offline_frame 244) = Inr v" by (metis obj_sumE sum.disc(1))
  have "\<not> isl (decodeCompactFrame (offline_frame 245))" by code_simp
  then show "\<exists>v. decodeCompactFrame (offline_frame 245) = Inr v" by (metis obj_sumE sum.disc(1))
qed

text \<open>What is documented of \<open>crypto.Sign\<close>: the signature of the digest recovers to the key's address; \<open>n\<close> is its
  normalized form. And of \<open>abi.Pack\<close>: a call of one of the three swap methods with arguments of their types and
  ranges is packed, behind its four-byte selector.\<close>

definition signs_digest :: "ethlib \<Rightarrow> offline_key \<Rightarrow> bytes \<Rightarrow> bytes \<Rightarrow> bool" where
  "signs_digest L k d n \<longleftrightarrow> ok_Address k \<noteq> 0 \<and> (\<exists>sig. ok_Sign k d = Inr sig \<and> NormalizeSignature L sig = Inr n) \<and>
     recovers L d n (ok_Address k)"

definition swap_args :: "u32 \<Rightarrow> bool \<Rightarrow> int \<Rightarrow> int \<Rightarrow> address \<Rightarrow> address \<Rightarrow> signed_frame list \<Rightarrow> abi_val list" where
  "swap_args pairID isBuy amountIn minOut maker recipient updates =
     [VU32 pairID, VBool isBuy, VInt amountIn, VInt minOut, VAddr maker, VAddr recipient, VFrames updates]"

definition packs_swaps :: "chainlib \<Rightarrow> bool" where
  "packs_swaps L \<longleftrightarrow> (\<forall>method pairID isBuy a b maker recipient updates.
     method \<in> {MethodSwap, MethodSwapExactIn, MethodSwapWithCallback} \<and> 0 \<le> a \<and> a < 2 ^ 256 \<and> 0 \<le> b \<and> b < 2 ^ 256 \<and>
     (\<forall>v\<in>set updates. frame_arrays (sf_Frame v)) \<longrightarrow>
     (\<exists>data. PackContract L (method_name method) (swap_args pairID isBuy a b maker recipient updates) = Inr data \<and> 4 \<le> length data))"

text \<open>The original quote and its four changes.\<close>

definition offline_quotes :: "(signing_domain \<times> address \<times> compact_frame) list" where
  "offline_quotes = [(offline_domain, offline_maker, offline_frame 244),
     (offline_domain\<lparr>dom_ChainID := 57\<rparr>, offline_maker, offline_frame 244),
     (offline_domain\<lparr>dom_Protocol := 0x3333333333333333333333333333333333333333\<rparr>, offline_maker, offline_frame 244),
     (offline_domain, 0x4444444444444444444444444444444444444444, offline_frame 244),
     (offline_domain, offline_maker, offline_frame 245)]"

lemma check_rejected_iff:
  "check_rejected L a attempts = Inr () \<longleftrightarrow> (\<forall>(name, d, v)\<in>set attempts. VerifySignature L d v a \<noteq> Inr ())"
  by (induction attempts) (auto split: sum.splits)

lemma check_rejected_error:
  "check_rejected L a attempts \<noteq> Inr () \<Longrightarrow> \<exists>name\<in>fst ` set attempts. check_rejected L a attempts = Inl (OffAccepted name)"
  by (induction attempts) (auto split: sum.splits)

lemma encode_methods_total:
  assumes "\<forall>m\<in>set ms. EncodeSwapCall L m params = Inr (g m) \<and> 4 \<le> length (g m)"
  shows "encode_methods L params ms = Inr (map g ms)"
  using assms by (induction ms) (auto simp: reject_def)

definition offline_call :: "bytes \<Rightarrow> abi_val list" where
  "offline_call n = swap_args 7 False 1000000000000000000 4000000 offline_maker 0x5555555555555555555555555555555555555555
     [\<lparr>sf_Frame = offline_frame 244, sf_Maker = offline_maker, sf_Signature = n\<rparr>]"

definition offline_signed :: "bytes \<Rightarrow> signed_frame" where
  "offline_signed n = \<lparr>sf_Frame = offline_frame 244, sf_Maker = offline_maker, sf_Signature = n\<rparr>"

definition offline_payload :: "ethlib \<Rightarrow> payload" where
  "offline_payload L = \<lparr>pay_Domain = offline_domain, pay_Maker = offline_maker, pay_Frame = offline_frame 244,
     pay_Digest = digest L offline_domain offline_maker (offline_frame 244)\<rparr>"

text \<open>The four attempts succeed exactly for the changed quotes whose digest the signature recovers for.\<close>

lemma offline_signable: "(d, m, f) \<in> set offline_quotes \<Longrightarrow> signable d m f"
  using offline_frames(2,3) by (auto simp: offline_quotes_def signable_def offline_domain_def offline_maker_def)

lemma offline_rejected:
  assumes "reads_fixtures H" "NormalizeSignature L sig = Inr n" "a \<noteq> 0"
  shows "check_rejected L a (offline_attempts H (offline_payload L) (offline_signed n) (offline_frame 245)) = Inr () \<longleftrightarrow>
    \<not> list_ex (\<lambda>(d, m, f). recovers L (digest L d m f) n a) (tl offline_quotes)"
proof -
  have v: "VerifySignature L d \<lparr>sf_Frame = f, sf_Maker = m, sf_Signature = n\<rparr> a \<noteq> Inr () \<longleftrightarrow> \<not> recovers L (digest L d m f) n a"
    if "(d, m, f) \<in> set (tl offline_quotes)" for d m f
    using that offline_signable [of d m f] assms(3) by (simp add: VerifySignature_normalized [OF assms(2)] offline_quotes_def)
  show ?thesis
    unfolding check_rejected_iff using assms(1) v
    by (simp add: offline_attempts_def offline_payload_def offline_signed_def reads_fixtures_def offline_quotes_def offline_domain_def)
qed

lemma offline_encodes_calls:
  assumes "reads_fixtures H" "NormalizeSignature (eth L) sig = Inr n" "packs_swaps L"
  shows "\<exists>datas. encode_methods L (offline_params H (offline_spec H) (offline_signed n)) [MethodSwap, MethodSwapExactIn, MethodSwapWithCallback] =
      Inr datas \<and> map (\<lambda>m. PackContract L (method_name m) (offline_call n)) [MethodSwap, MethodSwapExactIn, MethodSwapWithCallback] = map Inr datas"
proof -
  let ?params = "offline_params H (offline_spec H) (offline_signed n)" and ?ms = "[MethodSwap, MethodSwapExactIn, MethodSwapWithCallback]"
  have "validateSigned (eth L) (offline_signed n) = Inr ()"
    using offline_frames(2) assms(2) by (auto simp: validateSigned_Inr NormalizeSignature_Inr offline_maker_def offline_signed_def)
  then have e: "EncodeSwapCall L m ?params = wrap_err Lib (PackContract L (method_name m) (offline_call n))" if "m \<in> set ?ms" for m
    using that assms(1)
    by (auto simp: EncodeSwapCall_def uint256_def BitLen_gt offline_params_def offline_spec_def reads_fixtures_def offline_call_def
        swap_args_def offline_signed_def offline_maker_def)
  have "\<exists>data. PackContract L (method_name m) (offline_call n) = Inr data \<and> 4 \<le> length data" if "m \<in> set ?ms" for m
    using assms(3) that offline_frames(1) unfolding packs_swaps_def offline_call_def by (auto simp del: method_name.simps)
  then obtain g where g: "PackContract L (method_name m) (offline_call n) = Inr (g m) \<and> 4 \<le> length (g m)" if "m \<in> set ?ms" for m
    by metis
  then have "encode_methods L ?params ?ms = Inr (map g ?ms)"
    using e by (intro encode_methods_total) simp
  moreover have "map (\<lambda>m. PackContract L (method_name m) (offline_call n)) ?ms = map Inr (map g ?ms)"
    unfolding map_map using g by (intro map_cong) auto
  ultimately show ?thesis by blast
qed

text \<open>C28: The offline tour of the protocol example: for every key whose signature of the fixture's digest
  recovers to its address, and an ABI packer that packs well-typed swap calls, runOffline prepares,
  signs and verifies the fixture quote and then depends on one thing only, whether the signature also recovers to
  the key's address for the digest of one of the four changed quotes (chain, proxy, maker, book). If
  it does, the tour ends with the error that names an accepted change. If it does not, the tour
  runs to its end: it computes a decay of 33333 ppm after 11 seconds, which splits 1000000 into 33333
  and 966667, sees the quote expired at MaxAge, and yields, for the three swap methods in order, the
  packed call with the fixture's pair, direction, amounts, maker, recipient and signed frame.\<close>

theorem offline_completes:
  assumes "reads_fixtures H" "packs_swaps L"
    and "signs_digest (eth L) k (digest (eth L) offline_domain offline_maker (offline_frame 244)) n"
  shows "if list_ex (\<lambda>(d, m, f). recovers (eth L) (digest (eth L) d m f) n (ok_Address k)) (tl offline_quotes)
    then \<exists>name\<in>{''chain'', ''proxy'', ''maker'', ''book''}. runOffline L H (Inr k) = Inl (OffAccepted name)
    else \<exists>datas. runOffline L H (Inr k) = Inr (33333, 33333, 966667, datas) \<and>
      map (\<lambda>m. PackContract L (method_name m) (offline_call n)) [MethodSwap, MethodSwapExactIn, MethodSwapWithCallback] = map Inr datas"
proof -
  let ?L = "eth L"
  obtain sig where k: "ok_Address k \<noteq> 0" "ok_Sign k (pay_Digest (offline_payload ?L)) = Inr sig" "NormalizeSignature ?L sig = Inr n"
      "recovers ?L (pay_Digest (offline_payload ?L)) n (ok_Address k)"
    using assms(3) by (auto simp: signs_digest_def offline_payload_def)
  obtain w p where w: "Prepare ?L (offline_spec H) = Inr \<lparr>pf_payload = offline_payload ?L, pf_wire = Some w\<rparr>"
    and p: "Prepare ?L (offline_spec H\<lparr>fs_BaseTick := fs_BaseTick (offline_spec H) + 1\<rparr>) = Inr p"
      "pay_Frame (pf_payload p) = offline_frame 245"
    using offline_prepares [OF assms(1), of ?L] unfolding offline_payload_def by blast
  have pay: "pay_Domain (offline_payload ?L) = offline_domain" "pay_Maker (offline_payload ?L) = offline_maker"
      "pay_Frame (offline_payload ?L) = offline_frame 244"
    by (simp_all add: offline_payload_def)
  have v: "VerifySignature ?L offline_domain (offline_signed n) (ok_Address k) = Inr ()"
    using k offline_signable [of offline_domain offline_maker "offline_frame 244"]
    by (simp add: offline_signed_def VerifySignature_normalized offline_payload_def offline_quotes_def)
  obtain datas where d: "encode_methods L (offline_params H (offline_spec H) (offline_signed n)) [MethodSwap, MethodSwapExactIn, MethodSwapWithCallback] =
      Inr datas" "map (\<lambda>m. PackContract L (method_name m) (offline_call n)) [MethodSwap, MethodSwapExactIn, MethodSwapWithCallback] = map Inr datas"
    using offline_encodes_calls [OF assms(1) k(3) assms(2)] by blast
  have at: "AttachSignature ?L (Some \<lparr>pf_payload = offline_payload ?L, pf_wire = Some w\<rparr>) sig (ok_Address k) =
      Inr ((CloneFrame ?L w)\<lparr>mf_Signature := n\<rparr>)"
    using k(3) v by (simp add: AttachSignature_def pay offline_signed_def)
  have u: "fs_UpdatedAt (offline_spec H) = 1700000000" by (simp add: offline_spec_def)
  let ?check = "check_rejected ?L (ok_Address k) (offline_attempts H (offline_payload ?L) (offline_signed n) (offline_frame 245))"
  have run: "runOffline L H (Inr k) = attempt ?check (\<lambda>_. Inr (33333, 33333, 966667, datas))"
    using w p k(2) v d(1) at unfolding offline_signed_def
    by (simp add: runOffline_def SigningPayload_def pay u offline_decays(3) offline_decays(1,2) [simplified] Let_def del: encode_methods.simps)
  show ?thesis
  proof (cases "?check = Inr ()")
    case True
    then show ?thesis using offline_rejected [OF assms(1) k(3,1)] run d(2) by simp
  next
    case False
    then obtain name where "name \<in> {''chain'', ''proxy'', ''maker'', ''book''}" "?check = Inl (OffAccepted name)"
      using check_rejected_error [OF False] by (auto simp: offline_attempts_def)
    then show ?thesis using offline_rejected [OF assms(1) k(3,1)] run False by auto
  qed
qed

subsection \<open>A library for which the tour completes\<close>

definition offline_inputs :: "ethlib \<Rightarrow> bytes set" where
  "offline_inputs L = (\<Union>(d, m, f)\<in>set offline_quotes. digest_inputs L d m f)"

lemma changed_digests:
  assumes "ethlib_spec L" "inj_on (keccak L) (offline_inputs L)" "(d, m, f) \<in> set (tl offline_quotes)"
  shows "digest L d m f \<noteq> digest L offline_domain offline_maker (offline_frame 244)"
proof
  assume eq: "digest L d m f = digest L offline_domain offline_maker (offline_frame 244)"
  have "digest_inputs L d m f \<union> digest_inputs L offline_domain offline_maker (offline_frame 244) \<subseteq> offline_inputs L"
    using assms(3) unfolding offline_inputs_def by (force simp: offline_quotes_def)
  then have inj: "inj_on (keccak L) (digest_inputs L d m f \<union> digest_inputs L offline_domain offline_maker (offline_frame 244))"
    using assms(2) inj_on_subset by blast
  have "frame_arrays f" using assms(3) offline_frames(1) by (auto simp: offline_quotes_def)
  then have "d = offline_domain \<and> m = offline_maker \<and> f = offline_frame 244"
    using digest_inj [OF assms(1) _ offline_frames(1) inj eq] by blast
  then show False using assms(3) by (auto simp: offline_quotes_def offline_domain_def offline_maker_def offline_frame_def)
qed

text \<open>A library that keeps the fixture's strings apart, and a key that signs the fixture only.\<close>

definition tour_hash :: "bytes \<Rightarrow> bytes" where
  "tour_hash x = (if length x = 160 then replicate 28 0 @ [2, x ! 54, x ! 127, x ! 159]
     else if length x = 66 then replicate 25 0 @ [1, x ! 31, x ! 32, x ! 33, x ! 63, x ! 64, x ! 65] else replicate 32 0)"

definition tour_base :: ethlib where
  "tour_base = toy_lib\<lparr>keccak := tour_hash\<rparr>"

definition tour_digest :: bytes where
  "tour_digest = digest tour_base offline_domain offline_maker (offline_frame 244)"

definition tour_lib :: chainlib where
  "tour_lib = echo_lib\<lparr>eth := tour_base\<lparr>SigToPub := (\<lambda>d sig. if d = tour_digest then Inr [9] else Inl [])\<rparr>\<rparr>"

definition tour_key :: offline_key where
  "tour_key = \<lparr>ok_Address = 9, ok_Sign = (\<lambda>d. Inr (replicate 64 9 @ [1]))\<rparr>"

fun hex_value :: "string \<Rightarrow> nat \<Rightarrow> nat" where
  "hex_value [] n = n"
| "hex_value (c # s) n = hex_value s (16 * n + (of_char c - 48))"

definition tour_hex :: hexlib where
  "tour_hex = \<lparr>IsHexAddress = (\<lambda>_. True), HexToAddress = (\<lambda>s. of_nat (hex_value (drop 2 s) 0))\<rparr>"

lemma tour_fixtures: "reads_fixtures tour_hex"
  by (simp add: reads_fixtures_def tour_hex_def)

lemma tour_types:
  "domainTypeHash tour_base = replicate 32 0" "domainNameHash tour_base = replicate 32 0" "domainVersionHash tour_base = replicate 32 0"
  "frameTypeHash tour_base = replicate 32 0"
  by (simp_all add: domainTypeHash_def domainNameHash_def domainVersionHash_def frameTypeHash_def Keccak256_def tour_base_def tour_hash_def ascii_def)

lemma tour_pad: "LeftPadBytes tour_base b n = replicate (n - length b) 0 @ b"
  by (simp add: tour_base_def toy_lib_def)

lemma tour_domain:
  "tour_hash (concat (domain_chunks tour_base d)) =
     replicate 28 0 @ [2, 0, last (LeftPadBytes tour_base (big_Bytes (unat (dom_ChainID d))) 32), last (address_bytes (dom_Protocol d))]"
  if "length (big_Bytes (unat (dom_ChainID d))) = 1"
proof -
  have "address_bytes (dom_Protocol d) \<noteq> []" by (metis length_address_bytes list.size(3) zero_neq_numeral)
  then show ?thesis
    using that by (simp add: domain_chunks_def tour_types tour_pad tour_hash_def nth_append last_conv_nth)
qed

lemma tour_frame:
  assumes "frame_arrays f"
  shows "tour_hash (concat (frame_chunks tour_base m f)) = replicate 28 0 @ [2, Header f ! 22, AskLevels f ! 31, last (address_bytes m)]"
proof -
  have "address_bytes m \<noteq> []" by (metis length_address_bytes list.size(3) zero_neq_numeral)
  then show ?thesis
    using assms by (simp add: frame_chunks_def frame_arrays_def tour_types tour_pad tour_hash_def nth_append last_conv_nth)
qed

definition domain_text :: "signing_domain \<Rightarrow> bytes" where
  "domain_text d = concat (domain_chunks tour_base d)"

definition frame_text :: "address \<Rightarrow> compact_frame \<Rightarrow> bytes" where
  "frame_text m f = concat (frame_chunks tour_base m f)"

definition quote_text :: "signing_domain \<Rightarrow> address \<Rightarrow> compact_frame \<Rightarrow> bytes" where
  "quote_text d m f = concat [[0x19, 0x01], tour_hash (domain_text d), tour_hash (frame_text m f)]"

lemma tour_quote:
  assumes "tour_hash (domain_text dm) = replicate 28 0 @ [2, a, b, c]" "tour_hash (frame_text m fr) = replicate 28 0 @ [2, d, e, f]"
  shows "tour_hash (quote_text dm m fr) = replicate 25 0 @ [1, a, b, c, d, e, f]"
  unfolding quote_text_def assms by (simp add: tour_hash_def nth_append)

lemma tour_domains:
  "tour_hash (domain_text offline_domain) = replicate 28 0 @ [2, 0, 56, 0x11]"
  "tour_hash (domain_text (offline_domain\<lparr>dom_ChainID := 57\<rparr>)) = replicate 28 0 @ [2, 0, 57, 0x11]"
  "tour_hash (domain_text (offline_domain\<lparr>dom_Protocol := 0x3333333333333333333333333333333333333333\<rparr>)) = replicate 28 0 @ [2, 0, 56, 0x33]"
proof -
  have b: "big_Bytes 56 = [56]" "big_Bytes 57 = [57]" by (simp_all add: big_Bytes.simps)
  have a: "last (address_bytes 0x1111111111111111111111111111111111111111) = 0x11" "last (address_bytes 0x3333333333333333333333333333333333333333) = 0x33"
    by code_simp+
  show "tour_hash (domain_text offline_domain) = replicate 28 0 @ [2, 0, 56, 0x11]"
    "tour_hash (domain_text (offline_domain\<lparr>dom_ChainID := 57\<rparr>)) = replicate 28 0 @ [2, 0, 57, 0x11]"
    "tour_hash (domain_text (offline_domain\<lparr>dom_Protocol := 0x3333333333333333333333333333333333333333\<rparr>)) = replicate 28 0 @ [2, 0, 56, 0x33]"
    unfolding domain_text_def by (subst tour_domain; simp add: offline_domain_def b a tour_pad)+
qed

lemma tour_frames:
  "tour_hash (frame_text offline_maker (offline_frame t)) = replicate 28 0 @ [2, t, 50, 0x22]"
  "tour_hash (frame_text 0x4444444444444444444444444444444444444444 (offline_frame t)) = replicate 28 0 @ [2, t, 50, 0x44]"
proof -
  have a: "last (address_bytes offline_maker) = 0x22" "last (address_bytes 0x4444444444444444444444444444444444444444) = 0x44"
    by code_simp+
  show "tour_hash (frame_text offline_maker (offline_frame t)) = replicate 28 0 @ [2, t, 50, 0x22]"
    "tour_hash (frame_text 0x4444444444444444444444444444444444444444 (offline_frame t)) = replicate 28 0 @ [2, t, 50, 0x44]"
    unfolding frame_text_def tour_frame [OF offline_frames(1)] a by (simp_all add: offline_frame_def nth_append)
qed

lemma tour_inputs: "inj_on (keccak (eth tour_lib)) (offline_inputs (eth tour_lib))"
proof -
  have c: "domain_chunks (eth tour_lib) = domain_chunks tour_base" "frame_chunks (eth tour_lib) = frame_chunks tour_base"
      "Keccak256 (eth tour_lib) cs = tour_hash (concat cs)" "keccak (eth tour_lib) = tour_hash" for cs
    by (simp_all add: fun_eq_iff tour_lib_def tour_base_def domain_chunks_def frame_chunks_def Keccak256_def domainTypeHash_def
        domainNameHash_def domainVersionHash_def frameTypeHash_def)
  have i: "digest_inputs (eth tour_lib) d m f = {domain_text d, frame_text m f, quote_text d m f}" for d m f
    unfolding digest_inputs_def c domain_text_def frame_text_def quote_text_def ..
  let ?xs = "[domain_text offline_domain, domain_text (offline_domain\<lparr>dom_ChainID := 57\<rparr>),
      domain_text (offline_domain\<lparr>dom_Protocol := 0x3333333333333333333333333333333333333333\<rparr>),
      frame_text offline_maker (offline_frame 244), frame_text 0x4444444444444444444444444444444444444444 (offline_frame 244),
      frame_text offline_maker (offline_frame 245)] @ map (\<lambda>(d, m, f). quote_text d m f) offline_quotes"
  have all: "offline_inputs (eth tour_lib) = set ?xs"
    unfolding offline_inputs_def i offline_quotes_def by (simp add: insert_commute)
  have rep: "replicate 28 (0 :: u8) @ z # zs = replicate 25 0 @ 0 # 0 # 0 # z # zs" for z zs by (simp add: numeral_eq_Suc)
  have "distinct (map tour_hash ?xs)"
    unfolding offline_quotes_def
    by (simp add: tour_domains tour_frames tour_quote [OF tour_domains(1) tour_frames(1)] tour_quote [OF tour_domains(1) tour_frames(2)]
        tour_quote [OF tour_domains(2) tour_frames(1)] tour_quote [OF tour_domains(3) tour_frames(1)] rep)
  then show ?thesis unfolding c all distinct_map ..
qed

theorem offline_completes_witness:
  "\<exists>datas. runOffline tour_lib tour_hex (Inr tour_key) = Inr (33333, 33333, 966667, datas) \<and> length datas = 3"
proof -
  have spec: "ethlib_spec (eth tour_lib)" by (simp add: ethlib_spec_def tour_lib_def tour_base_def toy_lib_def tour_hash_def)
  have n: "NormalizeSignature (eth tour_lib) (replicate 64 9 @ [1]) = Inr (replicate 64 9 @ [28])"
    using toy_normalize by (simp add: NormalizeSignature_def tour_lib_def tour_base_def)
  have d: "digest (eth tour_lib) offline_domain offline_maker (offline_frame 244) = tour_digest"
    by (simp add: tour_lib_def tour_digest_def tour_base_def digest_def domain_chunks_def frame_chunks_def Keccak256_def domainTypeHash_def
        domainNameHash_def domainVersionHash_def frameTypeHash_def)
  have r: "recovers (eth tour_lib) d' s 9 \<longleftrightarrow> d' = tour_digest" for d' s
    by (auto simp: recovers_def tour_lib_def tour_base_def toy_lib_def)
  have sg: "signs_digest (eth tour_lib) tour_key (digest (eth tour_lib) offline_domain offline_maker (offline_frame 244)) (replicate 64 9 @ [28])"
    using n r by (simp add: signs_digest_def tour_key_def d)
  have pk: "packs_swaps tour_lib" by (simp add: packs_swaps_def tour_lib_def echo_lib_def)
  have "\<not> list_ex (\<lambda>(d, m, f). recovers (eth tour_lib) (digest (eth tour_lib) d m f) (replicate 64 9 @ [28]) (ok_Address tour_key)) (tl offline_quotes)"
    using changed_digests [OF spec tour_inputs] by (auto simp: list_ex_iff tour_key_def r d)
  with offline_completes [OF tour_fixtures pk sg] obtain datas where
      "runOffline tour_lib tour_hex (Inr tour_key) = Inr (33333, 33333, 966667, datas)"
      "map (\<lambda>m. PackContract tour_lib (method_name m) (offline_call (replicate 64 9 @ [28]))) [MethodSwap, MethodSwapExactIn, MethodSwapWithCallback] = map Inr datas"
    by (auto simp del: list.map)
  moreover from this(2) have "length datas = 3" by (metis length_map length_Cons list.size(3) numeral_3_eq_3)
  ultimately show ?thesis by blast
qed

end
