(* ===== verification/Rpc_Example.thy ===== *)
theory Rpc_Example
  imports Protocol_Example
begin

text \<open>
  The protocol example's read-only run against an RPC endpoint, \<open>examples/protocol/rpc.go\<close>. The
  file, the JSON decoder, \<open>url.Parse\<close>, the connection and the writer are parameters; what is
  printed is the record \<open>rpc_report\<close>. The lemmas show what a successful run has established and that
  an error it returns carries no secret of the endpoint.
\<close>

subsection \<open>Configuration\<close>

record rpc_config =
  rpcc_ChainID :: u64
  rpcc_RPCURL :: string
  rpcc_Protocol :: string
  rpcc_Payer :: string
  rpcc_InputToken :: string
  rpcc_PairID :: u32
  rpcc_Maker :: string
  rpcc_Recipient :: string
  rpcc_IsBuy :: "bool option"
  rpcc_AmountIn :: string
  rpcc_MinAmountOut :: string
  rpcc_Method :: string

definition zero_rpc_config :: rpc_config where
  "zero_rpc_config = \<lparr>rpcc_ChainID = 0, rpcc_RPCURL = [], rpcc_Protocol = [], rpcc_Payer = [], rpcc_InputToken = [], rpcc_PairID = 0,
     rpcc_Maker = [], rpcc_Recipient = [], rpcc_IsBuy = None, rpcc_AmountIn = [], rpcc_MinAmountOut = [], rpcc_Method = []\<rparr>"

datatype rpc_run_error =
    RxText string
  | RxOpen string
  | RxDecode string
  | RxClose string
  | RxJoin rpc_run_error rpc_run_error
  | RxConnect string
  | RxGo go_error
  | RxWrap string go_error
  | RxWrite string
  | RxExample rpc_run_error string

text \<open>What the two decodes of the file yield: the configuration the pointer is left at (nil for a JSON
  null), the first error, and what follows.\<close>

record rpc_file =
  rf_Config :: "rpc_config option"
  rf_Error :: "string option"
  rf_Rest :: body_rest
  rf_Close :: "string option"

definition readRPCConfig :: "rpc_file \<Rightarrow> rpc_config \<times> rpc_run_error option" where
  "readRPCConfig f = (case rf_Config f of
     None \<Rightarrow> (zero_rpc_config, Some (RxText ''protocol config must be a JSON object''))
   | Some cfg \<Rightarrow>
      (case rf_Error f of
         Some e \<Rightarrow> (cfg, Some (RxDecode e))
       | None \<Rightarrow>
           if rf_Rest f \<noteq> BodyEOF then (cfg, Some (RxText ''protocol config must contain exactly one JSON object''))
           else (if rpcc_Method cfg = [] then cfg\<lparr>rpcc_Method := method_name MethodSwap\<rparr> else cfg, None)))"

definition positiveUint256 :: "string \<Rightarrow> rpc_run_error + int" where
  "positiveUint256 text =
    (if text \<noteq> [] \<and> list_all is_digit text
     then case big_SetString text of
        Some n \<Rightarrow> if n > 0 \<and> BitLen n \<le> 256 then Inr n
          else Inl (RxText ''must be a positive decimal uint256 string in token native units'')
      | None \<Rightarrow> Inl (RxText ''must be a positive decimal uint256 string in token native units'')
     else Inl (RxText ''must be a positive decimal uint256 string in token native units''))"

definition swapParams :: "hexlib \<Rightarrow> (string \<Rightarrow> rpc_url option) \<Rightarrow> rpc_config \<Rightarrow> rpc_run_error + swap_params" where
  "swapParams H parse c =
     reject (bad_rpc_url parse (rpcc_RPCURL c)) (RxText ''rpc_url must be an HTTP(S) or WS(S) URL without a fragment'')
    (reject (rpcc_ChainID c = 0 \<or> rpcc_PairID c = 0) (RxText ''chain_id and pair_id must be positive'')
    (reject (\<not> list_all (nonzero_address H) [rpcc_Protocol c, rpcc_Payer c, rpcc_InputToken c, rpcc_Maker c, rpcc_Recipient c])
       (RxText ''must be a nonzero EVM address'')
    (case rpcc_IsBuy c of
       None \<Rightarrow> Inl (RxText ''is_buy must be explicitly set to true or false'')
     | Some buy \<Rightarrow>
         reject (rpcc_Method c \<noteq> method_name MethodSwap \<and> rpcc_Method c \<noteq> method_name MethodSwapExactIn)
           (RxText ''method must be swap or swapExactIn'')
        (attempt (positiveUint256 (rpcc_AmountIn c)) (\<lambda>amount.
         attempt (positiveUint256 (rpcc_MinAmountOut c)) (\<lambda>minimum.
         Inr \<lparr>sp_PairID = rpcc_PairID c, sp_IsBuy = buy, sp_AmountIn = Some amount, sp_MinAmountOut = Some minimum,
           sp_Maker = HexToAddress H (rpcc_Maker c), sp_Recipient = HexToAddress H (rpcc_Recipient c), sp_PriceUpdates = []\<rparr>))))))"

text \<open>\<open>protocol.SwapMethod\<close> is a string type; the conversion keeps the text.\<close>

definition swap_method_of :: "string \<Rightarrow> swap_method" where
  "swap_method_of s = (if s = method_name MethodSwap then MethodSwap else if s = method_name MethodSwapExactIn then MethodSwapExactIn
     else if s = method_name MethodSwapWithCallback then MethodSwapWithCallback else OtherMethod s)"

subsection \<open>The run\<close>

record rpc_world =
  rw_File :: "string + rpc_file"
  rw_Dial :: "string + rpc"
  rw_Head :: "go_error + block_head option"
  rw_Ctx :: "ctx option"
  rw_Write :: "string option"

record rpc_report =
  rr_Block :: int
  rr_Decay :: global_decay_config
  rr_Allowance :: int
  rr_Method :: swap_method
  rr_Result :: swap_result

definition rpc_steps :: "chainlib \<Rightarrow> hexlib \<Rightarrow> rpc_world \<Rightarrow> rpc_config \<Rightarrow> swap_params \<Rightarrow> rpc_run_error + rpc_report" where
  "rpc_steps L H w cfg params =
     attempt (wrap_err RxConnect (rw_Dial w)) (\<lambda>r.
     attempt (wrap_err RxGo (NewClient (rw_Ctx w) (Some r)
       \<lparr>cl_ChainID = rpcc_ChainID cfg, cl_Proxy = HexToAddress H (rpcc_Protocol cfg)\<rparr>)) (\<lambda>client.
     attempt (wrap_err (RxWrap ''read latest block'') (rw_Head w)) (\<lambda>head.
     case (case head of None \<Rightarrow> None | Some h \<Rightarrow> bh_Number h) of
       None \<Rightarrow> Inl (RxText ''RPC returned a block without a number'')
     | Some number \<Rightarrow>
         attempt (wrap_err (RxWrap ''read global decay configuration'') (ReadGlobalDecayConfig L r client (rw_Ctx w) (Some number))) (\<lambda>decay.
         let payer = HexToAddress H (rpcc_Payer cfg) in
         attempt (wrap_err (RxWrap ''read latest allowance'')
           (Allowance L (shift_calls 1 r) client (rw_Ctx w) (HexToAddress H (rpcc_InputToken cfg)) payer)) (\<lambda>allowance.
         let method = swap_method_of (rpcc_Method cfg) in
         attempt (wrap_err (RxWrap ''simulate'') (SimulateSwap L (shift_calls 2 r) client (rw_Ctx w) payer method params (Some number))) (\<lambda>result.
         case rw_Write w of
           Some e \<Rightarrow> Inl (RxWrite e)
         | None \<Rightarrow> Inr \<lparr>rr_Block = number, rr_Decay = decay, rr_Allowance = allowance, rr_Method = method, rr_Result = result\<rparr>))))))"

text \<open>\<open>errors.Join\<close> of two errors that may be nil.\<close>

definition errors_Join :: "rpc_run_error option \<Rightarrow> rpc_run_error option \<Rightarrow> rpc_run_error option" where
  "errors_Join a b = (case (a, b) of
     (Some x, Some y) \<Rightarrow> Some (RxJoin x y) | (Some x, None) \<Rightarrow> Some x | (None, Some y) \<Rightarrow> Some y | (None, None) \<Rightarrow> None)"

text \<open>\<open>text\<close> is \<open>Error\<close>. The deferred function wraps every error after the file was opened.\<close>

definition runRPC :: "chainlib \<Rightarrow> hexlib \<Rightarrow> (string \<Rightarrow> rpc_url option) \<Rightarrow> (string \<Rightarrow> url_secrets option) \<Rightarrow> (string \<Rightarrow> string) \<Rightarrow>
    (rpc_run_error \<Rightarrow> string) \<Rightarrow> rpc_world \<Rightarrow> rpc_run_error + rpc_report" where
  "runRPC L H parse secrets escape text w =
    (case rw_File w of
       Inl e \<Rightarrow> Inl (RxOpen e)
     | Inr f \<Rightarrow>
        (case readRPCConfig f of (cfg, readErr) \<Rightarrow>
          wrap_err (\<lambda>e. RxExample e (redact_rpc secrets escape (rpcc_RPCURL cfg) (text e)))
           (case errors_Join readErr (map_option RxClose (rf_Close f)) of
              Some e \<Rightarrow> Inl e
            | None \<Rightarrow> attempt (swapParams H parse cfg) (\<lambda>params. rpc_steps L H w cfg params))))"

subsection \<open>Properties\<close>

lemma positiveUint256_Inr: "positiveUint256 text = Inr n \<longleftrightarrow> text \<noteq> [] \<and> list_all is_digit text \<and> n = int (digits_val text) \<and> 0 < n \<and> n < 2 ^ 256"
  by (auto simp: positiveUint256_def big_SetString_def BitLen_le)

text \<open>A report of the RPC run is one consistent observation: the configuration was the file's single
  object, the endpoint's chain id is the configured one, the decay settings and the simulation are of
  the same block (the latest header's), the simulated call is a swap or swapExactIn of the
  configured pair from the configured payer with positive uint256 amounts and no price update, and its
  calldata is what EncodeSwapCall makes of these parameters.\<close>

theorem rpc_report_consistent:
  assumes "runRPC L H parse secrets escape text w = Inr report"
  shows "\<exists>f c r params h data. rw_File w = Inr f \<and> readRPCConfig f = (c, None) \<and> rf_Close f = None \<and> rf_Rest f = BodyEOF \<and>
    rw_Dial w = Inr r \<and> RpcChainID r = Inr (Some (uint (rpcc_ChainID c))) \<and> rw_Head w = Inr (Some h) \<and> bh_Number h = Some (rr_Block report) \<and>
    ReadGlobalDecayConfig L r \<lparr>cl_ChainID = rpcc_ChainID c, cl_Proxy = HexToAddress H (rpcc_Protocol c)\<rparr> (rw_Ctx w) (Some (rr_Block report)) =
      Inr (rr_Decay report) \<and>
    SimulateSwap L (shift_calls 2 r) \<lparr>cl_ChainID = rpcc_ChainID c, cl_Proxy = HexToAddress H (rpcc_Protocol c)\<rparr> (rw_Ctx w)
      (HexToAddress H (rpcc_Payer c)) (rr_Method report) params (Some (rr_Block report)) = Inr (rr_Result report) \<and>
    rr_Method report \<in> {MethodSwap, MethodSwapExactIn} \<and> method_name (rr_Method report) = rpcc_Method c \<and>
    EncodeSwapCall L (rr_Method report) params = Inr data \<and>
    sp_PairID params = rpcc_PairID c \<and> rpcc_PairID c \<noteq> 0 \<and> rpcc_IsBuy c = Some (sp_IsBuy params) \<and> sp_PriceUpdates params = [] \<and>
    sp_AmountIn params = Some (int (digits_val (rpcc_AmountIn c))) \<and> sp_MinAmountOut params = Some (int (digits_val (rpcc_MinAmountOut c))) \<and>
    0 < digits_val (rpcc_AmountIn c) \<and> 0 < digits_val (rpcc_MinAmountOut c)"
proof -
  obtain f where f: "rw_File w = Inr f" using assms by (cases "rw_File w") (auto simp: runRPC_def)
  obtain c e where c: "readRPCConfig f = (c, e)" by fastforce
  obtain params where p: "errors_Join e (map_option RxClose (rf_Close f)) = None" "swapParams H parse c = Inr params"
      "rpc_steps L H w c params = Inr report"
    using assms by (auto simp: runRPC_def f c attempt_Inr split: option.splits)
  then have e: "e = None" "rf_Close f = None" by (auto simp: errors_Join_def split: option.splits)
  then have rest: "rf_Rest f = BodyEOF" using c by (auto simp: readRPCConfig_def split: option.splits if_splits)
  have sp: "rpcc_PairID c \<noteq> 0" "rpcc_IsBuy c = Some (sp_IsBuy params)" "rpcc_Method c = method_name MethodSwap \<or> rpcc_Method c = method_name MethodSwapExactIn"
      "sp_PairID params = rpcc_PairID c" "sp_PriceUpdates params = []"
      "sp_AmountIn params = Some (int (digits_val (rpcc_AmountIn c)))" "sp_MinAmountOut params = Some (int (digits_val (rpcc_MinAmountOut c)))"
      "0 < digits_val (rpcc_AmountIn c)" "0 < digits_val (rpcc_MinAmountOut c)"
    using p(2) by (auto simp: swapParams_def attempt_Inr positiveUint256_Inr split: option.splits)
  let ?k = "\<lparr>cl_ChainID = rpcc_ChainID c, cl_Proxy = HexToAddress H (rpcc_Protocol c)\<rparr>"
  obtain r h where r: "rw_Dial w = Inr r" "NewClient (rw_Ctx w) (Some r) ?k = Inr ?k" "rw_Head w = Inr (Some h)"
      "bh_Number h = Some (rr_Block report)" "ReadGlobalDecayConfig L r ?k (rw_Ctx w) (Some (rr_Block report)) = Inr (rr_Decay report)"
      "rr_Method report = swap_method_of (rpcc_Method c)"
      "SimulateSwap L (shift_calls 2 r) ?k (rw_Ctx w) (HexToAddress H (rpcc_Payer c)) (rr_Method report) params (Some (rr_Block report)) = Inr (rr_Result report)"
    using p(3) by (auto simp: rpc_steps_def attempt_Inr NewClient_def Let_def split: option.splits)
  have "RpcChainID r = Inr (Some (uint (rpcc_ChainID c)))"
    using r(2) by (auto simp: NewClient_def attempt_Inr split: option.splits)
  moreover have "rr_Method report \<in> {MethodSwap, MethodSwapExactIn}" "method_name (rr_Method report) = rpcc_Method c"
    using r(6) sp(3) by (auto simp: swap_method_of_def)
  moreover obtain data where "EncodeSwapCall L (rr_Method report) params = Inr data"
    using r(7) by (auto simp: SimulateSwap_def attempt_Inr)
  ultimately show ?thesis using f c e rest r sp by metis
qed

text \<open>No error of the RPC run names the endpoint: every error after the file was opened is wrapped, keeps
  its cause, and its text holds no secret of the configured URL that could not be part of the marker.\<close>

theorem rpc_error_redacted:
  assumes "runRPC L H parse secrets escape text w = Inl e" "rw_File w = Inr f" "readRPCConfig f = (c, readErr)"
    and "secret \<in> set (endpoint_secrets secrets escape (rpcc_RPCURL c))" "hidable secret"
  shows "\<exists>cause message. e = RxExample cause message \<and> message = redact_rpc secrets escape (rpcc_RPCURL c) (text cause) \<and> \<not> sublist secret message"
proof -
  obtain cause where "e = RxExample cause (redact_rpc secrets escape (rpcc_RPCURL c) (text cause))"
    using assms(1-3) by (auto simp: runRPC_def wrap_err_def split: sum.splits)
  then show ?thesis using redact_all_hides [OF assms(4,5)] by (simp add: redact_rpc_def)
qed

definition run_config :: rpc_config where
  "run_config = \<lparr>rpcc_ChainID = 1, rpcc_RPCURL = ''http://node/s3cret'', rpcc_Protocol = ''p'', rpcc_Payer = ''y'', rpcc_InputToken = ''i'',
     rpcc_PairID = 7, rpcc_Maker = ''m'', rpcc_Recipient = ''r'', rpcc_IsBuy = Some True, rpcc_AmountIn = ''7'', rpcc_MinAmountOut = ''3'', rpcc_Method = ''swap''\<rparr>"

definition run_file :: rpc_file where
  "run_file = \<lparr>rf_Config = Some run_config, rf_Error = None, rf_Rest = BodyEOF, rf_Close = None\<rparr>"

definition run_world :: rpc_world where
  "run_world = \<lparr>rw_File = Inr run_file, rw_Dial = Inr silent_rpc, rw_Head = Inr (Some \<lparr>bh_Number = Some 100, bh_Time = 5\<rparr>),
     rw_Ctx = Some never_done, rw_Write = None\<rparr>"

definition run_lib :: chainlib where
  "run_lib = echo_lib\<lparr>UnpackContract := (\<lambda>m b. if m = ''globalDecayConfig'' then Inr [VU32 10, VU32 20, VU32 30, VU32 1000] else Inr [VInt 7, VInt 4]),
     UnpackToken := (\<lambda>m b. Inr [VInt 50])\<rparr>"

lemma run_reads: "readRPCConfig run_file = (run_config, None)"
  by (simp add: readRPCConfig_def run_file_def run_config_def)

lemma run_params: "swapParams any_hex toy_url run_config = Inr \<lparr>sp_PairID = 7, sp_IsBuy = True, sp_AmountIn = Some 7, sp_MinAmountOut = Some 3,
    sp_Maker = 0xB2, sp_Recipient = 0xB2, sp_PriceUpdates = []\<rparr>"
proof -
  have "positiveUint256 ''7'' = Inr 7" "positiveUint256 ''3'' = Inr 3" by (simp_all add: positiveUint256_Inr is_digit_def digit_val_def)
  then show ?thesis
    by (simp add: swapParams_def run_config_def bad_rpc_url_def toy_url_def nonzero_address_def any_hex_def)
qed

lemma run_decay:
  "ReadGlobalDecayConfig run_lib silent_rpc k (Some never_done) (Some 100) =
     Inr \<lparr>DecayStartOffsetSeconds = 10, DecayEndOffsetSeconds = 20, MaxAge = 30, MaxDecayPpm = 1000\<rparr>"
  by (simp add: ReadGlobalDecayConfig_def validateBlock_def read_proxy_def run_lib_def echo_lib_def silent_rpc_def as_u32_def Validate_def
      PPMDenominator_def reject_def Let_def)

theorem rpc_report_consistent_witness:
  "\<exists>report. runRPC run_lib any_hex toy_url (\<lambda>_. None) (\<lambda>s. s) (\<lambda>e. []) run_world = Inr report \<and>
     rr_Block report = 100 \<and> rr_Method report = MethodSwap \<and> rr_Result report = \<lparr>ActualAmountIn = 7, AmountOut = 4\<rparr> \<and>
     RpcChainID silent_rpc = Inr (Some (uint (rpcc_ChainID run_config)))"
proof -
  have c: "shift_calls n silent_rpc = silent_rpc" for n by (simp add: shift_calls_def silent_rpc_def)
  have m: "swap_method_of (rpcc_Method run_config) = MethodSwap" by (simp add: swap_method_of_def run_config_def)
  have a: "HexToAddress any_hex (rpcc_Payer run_config) = 0xB2" "HexToAddress any_hex (rpcc_InputToken run_config) = 0xB2"
      "HexToAddress any_hex (rpcc_Protocol run_config) = 0xB2" "rpcc_ChainID run_config = 1"
    by (simp_all add: any_hex_def run_config_def)
  have w: "rw_File run_world = Inr run_file" "rw_Dial run_world = Inr silent_rpc" "rw_Head run_world = Inr (Some \<lparr>bh_Number = Some 100, bh_Time = 5\<rparr>)"
      "rw_Ctx run_world = Some never_done" "rw_Write run_world = None" "rf_Close run_file = None"
    by (simp_all add: run_world_def run_file_def)
  have n: "NewClient (Some never_done) (Some silent_rpc) \<lparr>cl_ChainID = 1, cl_Proxy = 0xB2\<rparr> = Inr \<lparr>cl_ChainID = 1, cl_Proxy = 0xB2\<rparr>"
    by (simp add: NewClient_def silent_rpc_def)
  have al: "Allowance run_lib silent_rpc k (Some never_done) 0xB2 0xB2 = Inr 50" for k
    by (simp add: Allowance_def validateBlock_def run_lib_def echo_lib_def silent_rpc_def as_int_def)
  have sim: "SimulateSwap run_lib silent_rpc k (Some never_done) 0xB2 MethodSwap \<lparr>sp_PairID = 7, sp_IsBuy = True, sp_AmountIn = Some 7,
      sp_MinAmountOut = Some 3, sp_Maker = 0xB2, sp_Recipient = 0xB2, sp_PriceUpdates = []\<rparr> (Some 100) = Inr \<lparr>ActualAmountIn = 7, AmountOut = 4\<rparr>" for k
    by (simp add: SimulateSwap_def validateBlock_def EncodeSwapCall_def uint256_def BitLen_gt run_lib_def echo_lib_def silent_rpc_def as_int_def)
  obtain report where r: "runRPC run_lib any_hex toy_url (\<lambda>_. None) (\<lambda>s. s) (\<lambda>e. []) run_world = Inr report"
      "rr_Block report = 100" "rr_Method report = MethodSwap" "rr_Result report = \<lparr>ActualAmountIn = 7, AmountOut = 4\<rparr>"
    by (simp add: runRPC_def w run_reads errors_Join_def run_params rpc_steps_def a n c m run_decay al sim Let_def)
  from rpc_report_consistent [OF r(1)] r show ?thesis by (auto simp: w run_reads)
qed

theorem rpc_error_redacted_witness:
  "\<exists>cause message. runRPC run_lib any_hex toy_url (\<lambda>_. None) (\<lambda>s. s) (\<lambda>e. ''dial http://node/s3cret: refused'')
      (run_world\<lparr>rw_Dial := Inl ''refused''\<rparr>) = Inl (RxExample cause message) \<and> \<not> sublist ''http://node/s3cret'' message"
proof -
  let ?w = "run_world\<lparr>rw_Dial := Inl ''refused''\<rparr>" and ?text = "\<lambda>e. ''dial http://node/s3cret: refused''"
  have w: "rw_File ?w = Inr run_file" "rf_Close run_file = None" by (simp_all add: run_world_def run_file_def)
  obtain e where e: "runRPC run_lib any_hex toy_url (\<lambda>_. None) (\<lambda>s. s) ?text ?w = Inl e"
    by (simp add: runRPC_def w run_reads errors_Join_def run_params rpc_steps_def)
  have s: "''http://node/s3cret'' \<in> set (endpoint_secrets (\<lambda>_. None) (\<lambda>s. s) (rpcc_RPCURL run_config))" "hidable ''http://node/s3cret''"
    by (simp_all add: endpoint_secrets_def run_config_def hidable_def sublist_Cons_right)
  from rpc_error_redacted [OF e w(1) run_reads s] e show ?thesis by auto
qed

end
