(* ===== verification/Example_Mains.thy ===== *)
theory Example_Mains
  imports Publishing_Properties Rpc_Example
begin

text \<open>
  The \<open>main\<close> functions of the four example applications (\<open>examples/*/main.go\<close>): flags, the
  configuration lock, reading and checking the configuration, dialing RPC and loading the chain state,
  and handing over to \<open>publish\<close>, \<open>submitOnChain\<close>, \<open>run\<close>, \<open>runListing\<close>, \<open>runOffline\<close> or \<open>runRPC\<close>. A run of
  the maker is a relation, since \<open>publish\<close> is concurrent. Log output is left out.
\<close>

subsection \<open>examples/maker/main.go\<close>

text \<open>What the calls of one run return; a failed system call gives its error.\<close>

record maker_io =
  mio_Abs :: "string option"
  mio_LockCreate :: "string option"
  mio_LockWrite :: "string option"
  mio_LockClose :: "string option"
  mio_Open :: "string option"
  mio_Decode :: "string option"
  mio_Rest :: body_rest
  mio_Dial :: "string + rpc"
  mio_Ctx :: ctx
  mio_Head :: "go_error + block_head option"

definition flags_error :: "maker_flags \<Rightarrow> app_error option" where
  "flags_error f =
    (if mfl_NoSend f \<and> \<not> mfl_OnChain f then Some (AppText ''-no-send requires -onchain'')
     else if mfl_Count f < 1 \<or> mfl_Count f > 60 \<or> mfl_Interval f \<le> 0 \<or> mfl_Observe f \<le> 0 \<or> mfl_Timeout f \<le> 0
     then Some (AppText ''count must be 1-60; durations must be positive'') else None)"

text \<open>Under the lock and before anything is sent.\<close>

definition maker_prepare :: "chainlib \<Rightarrow> hexlib \<Rightarrow> (string \<Rightarrow> 'k option) \<Rightarrow> ('k \<Rightarrow> address) \<Rightarrow> maker_flags \<Rightarrow> maker_io \<Rightarrow>
    maker_app_config \<Rightarrow> app_error + client \<times> chain_state \<times> 'k" where
  "maker_prepare L H parse_key address_of f io disk =
     attempt (readConfig (case mio_Open io of Some e \<Rightarrow> Inl e | None \<Rightarrow> Inr (disk, mio_Decode io, mio_Rest io))) (\<lambda>cfg.
     attempt (maker_start H parse_key address_of f cfg) (\<lambda>key.
     attempt (wrap_err AppIO (mio_Dial io)) (\<lambda>r.
     attempt (wrap_err AppGo (NewClient (Some (mio_Ctx io)) (Some r)
       \<lparr>cl_ChainID = mac_ChainID cfg, cl_Proxy = HexToAddress H (mac_Protocol cfg)\<rparr>)) (\<lambda>contract.
     attempt (loadState L H r (mio_Head io) cfg) (\<lambda>state. Inr (contract, state, key))))))"

definition maker_lock :: "maker_io \<Rightarrow> bool \<Rightarrow> bool \<times> app_error option" where
  "maker_lock io locked = lockConfig (mio_LockCreate io) (mio_LockWrite io) (mio_LockClose io) locked"

text \<open>A run from the lock file and the configuration file to both and the error that is printed; the
  deferred \<open>unlock\<close> has run when it returns. \<open>sign\<close> is \<open>crypto.Sign\<close> with the key.\<close>

inductive maker_main :: "chainlib \<Rightarrow> hexlib \<Rightarrow> protolib \<Rightarrow> (tx \<Rightarrow> bytes) \<Rightarrow> (tx \<Rightarrow> u64) \<Rightarrow> (string \<Rightarrow> 'k option) \<Rightarrow>
    ('k \<Rightarrow> u64 \<Rightarrow> transact_opts) \<Rightarrow> ('k \<Rightarrow> address) \<Rightarrow> ('k \<Rightarrow> bytes \<Rightarrow> string + bytes) \<Rightarrow> maker_flags \<Rightarrow> maker_io \<Rightarrow>
    bool \<times> maker_app_config \<Rightarrow> bool \<times> maker_app_config \<Rightarrow> app_error option \<Rightarrow> bool"
  for L H P hash_of nonce_of parse_key keyed address_of sign f io where
  bad_flags: "flags_error f = Some e \<Longrightarrow>
    maker_main L H P hash_of nonce_of parse_key keyed address_of sign f io (locked, disk) (locked, disk) (Some e)"
| no_path: "flags_error f = None \<Longrightarrow> mio_Abs io = Some e \<Longrightarrow>
    maker_main L H P hash_of nonce_of parse_key keyed address_of sign f io (locked, disk) (locked, disk) (Some (AppIO e))"
| not_locked: "flags_error f = None \<Longrightarrow> mio_Abs io = None \<Longrightarrow> maker_lock io locked = (locked', Some e) \<Longrightarrow>
    maker_main L H P hash_of nonce_of parse_key keyed address_of sign f io (locked, disk) (locked', disk) (Some e)"
| refused: "flags_error f = None \<Longrightarrow> mio_Abs io = None \<Longrightarrow> maker_lock io locked = (True, None) \<Longrightarrow>
    maker_prepare L H parse_key address_of f io disk = Inl e \<Longrightarrow>
    maker_main L H P hash_of nonce_of parse_key keyed address_of sign f io (locked, disk) (unlockConfig True, disk) (Some e)"
| loaded: "flags_error f = None \<Longrightarrow> mio_Abs io = None \<Longrightarrow> maker_lock io locked = (True, None) \<Longrightarrow>
    maker_prepare L H parse_key address_of f io disk = Inr (contract, state, key) \<Longrightarrow> mfl_LoadOnly f \<Longrightarrow>
    maker_main L H P hash_of nonce_of parse_key keyed address_of sign f io (locked, disk) (unlockConfig True, disk) None"
| submitted: "flags_error f = None \<Longrightarrow> mio_Abs io = None \<Longrightarrow> maker_lock io locked = (True, None) \<Longrightarrow>
    maker_prepare L H parse_key address_of f io disk = Inr (contract, state, key) \<Longrightarrow> \<not> mfl_LoadOnly f \<Longrightarrow> mfl_OnChain f \<Longrightarrow>
    length ios = nat (mfl_Count f) \<Longrightarrow>
    submitOnChain L H hash_of nonce_of parse_key keyed contract (mio_Ctx io) state
      (LiveSigner (localSigner (address_of key) (sign key))) key (mfl_NoSend f) ios (disk, disk) = Some ((c, disk'), txs, r) \<Longrightarrow>
    maker_main L H P hash_of nonce_of parse_key keyed address_of sign f io (locked, disk) (unlockConfig True, disk') r"
| not_dialed: "flags_error f = None \<Longrightarrow> mio_Abs io = None \<Longrightarrow> maker_lock io locked = (True, None) \<Longrightarrow>
    maker_prepare L H parse_key address_of f io disk = Inr (contract, state, key) \<Longrightarrow> \<not> mfl_LoadOnly f \<Longrightarrow> \<not> mfl_OnChain f \<Longrightarrow>
    publish_start P lifetime dio later (disk, disk) (nat (mfl_Count f)) = Inl e \<Longrightarrow>
    maker_main L H P hash_of nonce_of parse_key keyed address_of sign f io (locked, disk) (unlockConfig True, disk) (Some e)"
| published: "flags_error f = None \<Longrightarrow> mio_Abs io = None \<Longrightarrow> maker_lock io locked = (True, None) \<Longrightarrow>
    maker_prepare L H parse_key address_of f io disk = Inr (contract, state, key) \<Longrightarrow> \<not> mfl_LoadOnly f \<Longrightarrow> \<not> mfl_OnChain f \<Longrightarrow>
    publish_start P lifetime dio later (disk, disk) (nat (mfl_Count f)) = Inr v0 \<Longrightarrow>
    publish_steps L H P contract state (LiveSigner (localSigner (address_of key) (sign key))) v0 v \<Longrightarrow> pw_main v = MExit r \<Longrightarrow>
    maker_main L H P hash_of nonce_of parse_key keyed address_of sign f io (locked, disk) (unlockConfig True, snd (pw_versions v)) r"

subsection \<open>Versions over a whole run\<close>

text \<open>The file after at most \<open>n\<close> reservations.\<close>

definition advanced :: "nat \<Rightarrow> maker_app_config \<Rightarrow> maker_app_config \<Rightarrow> bool" where
  "advanced n c d \<longleftrightarrow> d = c\<lparr>mac_Minor := mac_Minor d\<rparr> \<and> unat (mac_Minor c) \<le> unat (mac_Minor d) \<and>
     unat (mac_Minor d) \<le> unat (mac_Minor c) + n"

lemma advanced_refl [simp]: "advanced n c c"
  by (simp add: advanced_def)

lemma advanced_Suc: "advanced n (c\<lparr>mac_Minor := mac_Minor c + 1\<rparr>) d \<Longrightarrow> \<not> mac_Minor c > 255 \<Longrightarrow> advanced (Suc n) c d"
  using minor_next [of "mac_Minor c"] by (simp add: advanced_def)

lemma advanced_one: "\<not> mac_Minor c > 255 \<Longrightarrow> advanced (Suc n) c (c\<lparr>mac_Minor := mac_Minor c + 1\<rparr>)"
  using minor_next [of "mac_Minor c"] by (simp add: advanced_def)

lemma advanced_next:
  assumes "advanced n c m" "unat (mac_Minor m) < unat (mac_Minor c) + n" "\<not> mac_Minor m > 255"
  shows "advanced n c (m\<lparr>mac_Minor := mac_Minor m + 1\<rparr>)"
proof -
  obtain x where "m = c\<lparr>mac_Minor := x\<rparr>" using assms(1) by (metis advanced_def)
  then show ?thesis using assms minor_next [of x] by (simp add: advanced_def)
qed

lemma submit_loop_advances:
  assumes "submit_loop L H hash_of nonce_of contract ctx state signer ios opts (c, c) = Some ((c', d'), txs, r)"
  shows "advanced (length ios) c d'"
  using assms
proof (induction ios arbitrary: opts c c' d' txs r)
  case (Cons io ios)
  obtain st q where p: "prepareNextQuote L H contract ctx state signer (sio_Quote io) (c, c) = (st, q)" by fastforce
  show ?case
  proof (cases q)
    case (Inl e)
    with Cons.prems p prepareNextQuote_Inl [of L H contract ctx state signer "sio_Quote io" c c] show ?thesis
      by (cases st) (auto intro: advanced_one)
  next
    case (Inr params)
    let ?c = "c\<lparr>mac_Minor := mac_Minor c + 1\<rparr>"
    have q: "\<not> mac_Minor c > 255" "st = (?c, ?c)" using prepareNextQuote_Inr p Inr by blast+
    have "d' = ?c \<or> (\<exists>opts' txs' r'. submit_loop L H hash_of nonce_of contract ctx state signer ios opts' (?c, ?c) = Some ((c', d'), txs', r'))"
      using Cons.prems p Inr q(2) by (auto simp: Let_def split: option.splits prod.splits if_splits)
    then show ?thesis using Cons.IH q(1) by (auto intro: advanced_one advanced_Suc)
  qed
qed simp

text \<open>While \<open>publish\<close> runs, memory and file agree and are one version ahead for each frame written or being sent.\<close>

definition reserved_ok :: "nat \<Rightarrow> maker_app_config \<Rightarrow> publish_world \<Rightarrow> bool" where
  "reserved_ok n c v \<longleftrightarrow> count_ok n v \<and> advanced n c (snd (pw_versions v)) \<and>
     (main_running (pw_main v) \<longrightarrow> fst (pw_versions v) = snd (pw_versions v) \<and>
        unat (mac_Minor (snd (pw_versions v))) = unat (mac_Minor c) + length (pw_written v) + (if sending (pw_main v) then 1 else 0))"

lemma reserved_step:
  assumes inv: "publish_inv H v" and ok: "reserved_ok n c v" and step: "publish_step L H P contract state signer v v'"
  shows "reserved_ok n c v'"
proof -
  have cnt: "count_ok n v'" using count_step [OF inv step] ok by (simp add: reserved_ok_def)
  have adv: "advanced n c (snd (pw_versions v))" using ok by (simp add: reserved_ok_def)
  have left: "length (pw_written v) + pw_left v = n" using ok by (simp add: reserved_ok_def count_ok_def)
  have keeps: "reserved_ok n c v'" if "pw_versions v' = pw_versions v" "pw_written v' = pw_written v"
      "main_running (pw_main v') \<Longrightarrow> main_running (pw_main v) \<and> sending (pw_main v') = sending (pw_main v)"
    using ok that cnt by (auto simp: reserved_ok_def)
  from step show ?thesis
  proof (cases rule: publish_step.cases)
    case (quote_fails ctx io st e)
    obtain m where m: "pw_versions v = (m, m)" "unat (mac_Minor m) = unat (mac_Minor c) + length (pw_written v)"
      using ok quote_fails(2) by (cases "pw_versions v") (auto simp: reserved_ok_def)
    have "snd st = m \<or> \<not> mac_Minor m > 255 \<and> snd st = m\<lparr>mac_Minor := mac_Minor m + 1\<rparr>"
      using prepareNextQuote_Inl [of L H contract ctx state signer io m m "fst st" "snd st"] quote_fails(4) m(1) by simp
    then have "advanced n c (snd st)"
      using adv m left quote_fails(3) advanced_next [of n c m] by auto
    then show ?thesis using quote_fails cnt by (simp add: reserved_ok_def)
  next
    case (quote_ready ctx io st params)
    obtain m where m: "pw_versions v = (m, m)" "unat (mac_Minor m) = unat (mac_Minor c) + length (pw_written v)"
      using ok quote_ready(2) by (cases "pw_versions v") (auto simp: reserved_ok_def)
    have "\<not> mac_Minor m > 255" "st = (m\<lparr>mac_Minor := mac_Minor m + 1\<rparr>, m\<lparr>mac_Minor := mac_Minor m + 1\<rparr>)"
      using prepareNextQuote_Inr [of L H contract ctx state signer io m m st params] quote_ready(4) m(1) by simp_all
    then show ?thesis
      using quote_ready(1,3) cnt adv m left minor_next [of "mac_Minor m"] advanced_next [of n c m] by (simp add: reserved_ok_def)
  next
    case (send_done s data io c)
    then show ?thesis using ok cnt by (simp add: reserved_ok_def)
  qed (use keeps in simp_all)
qed

lemma publish_advances:
  assumes "publish_start P lifetime dio later (c, c) n = Inr v0" "publish_steps L H P contract state signer v0 v"
  shows "advanced n c (snd (pw_versions v))"
proof -
  have "publish_inv H v0" using assms(1) by (intro publish_started_inv [of P]) (unfold publish_started_def, blast)
  moreover have "reserved_ok n c v0"
    using assms(1) count_started [OF assms(1)] by (auto simp: reserved_ok_def elim!: publish_start_Inr)
  ultimately have "reserved_ok n c v"
    using publishing.steps_preserve [OF assms(2), of "reserved_ok n c"] reserved_step by blast
  then show ?thesis by (simp add: reserved_ok_def)
qed

lemma flags_error_None: "flags_error f = None \<longleftrightarrow> flags_ok f"
  by (auto simp: flags_error_def flags_ok_def)

lemma maker_lock_cases:
  "maker_lock io locked = (l, None) \<Longrightarrow> \<not> locked \<and> l" "maker_lock io locked = (l, Some e) \<Longrightarrow> l = locked"
  by (cases locked; auto simp: maker_lock_def lockConfig_def split: option.splits)+

lemma maker_prepare_room:
  assumes "maker_prepare L H parse_key address_of f io disk = Inr (contract, state, key)" "\<not> mfl_LoadOnly f" "flags_ok f"
  shows "unat (mac_Minor disk) + nat (mfl_Count f) \<le> 256"
proof -
  have "readConfig (case mio_Open io of Some e \<Rightarrow> Inl e | None \<Rightarrow> Inr (disk, mio_Decode io, mio_Rest io)) = Inr cfg \<Longrightarrow> cfg = disk" for cfg
    by (auto simp: readConfig_def split: option.splits)
  then have "maker_start H parse_key address_of f disk = Inr key"
    using assms(1) by (auto simp: maker_prepare_def attempt_Inr)
  then have "uint (mac_Minor disk) + mfl_Count f \<le> 256"
    using assms(2) by (auto simp: maker_start_def attempt_Inr not_less)
  moreover have "1 \<le> mfl_Count f" using assms(3) by (simp add: flags_ok_def)
  moreover have "uint (mac_Minor disk) = int (unat (mac_Minor disk))" by simp
  ultimately show ?thesis by linarith
qed

text \<open>C22: A whole run of the maker application leaves the lock file as it found it, and fails without
  touching the configuration file when another run holds the lock. It changes nothing of the file but the minor
  version, which never goes back, grows by at most the number of frames asked for and never beyond
  256, and does not change at all with -load-only or wrong flags; whatever error ends the run.\<close>

theorem maker_run_versions:
  assumes "maker_main L H P hash_of nonce_of parse_key keyed address_of sign f io (locked, disk) (locked', disk') r"
  shows "locked' = locked \<and> disk' = disk\<lparr>mac_Minor := mac_Minor disk'\<rparr> \<and> unat (mac_Minor disk) \<le> unat (mac_Minor disk') \<and>
    unat (mac_Minor disk') \<le> unat (mac_Minor disk) + nat (mfl_Count f) \<and>
    (if locked then disk' = disk \<and> r \<noteq> None else if mfl_LoadOnly f \<or> \<not> flags_ok f then disk' = disk
     else disk' = disk \<or> unat (mac_Minor disk') \<le> 256)"
proof -
  have ended: ?thesis if "locked' = locked" "\<not> locked" "\<not> mfl_LoadOnly f" "flags_ok f" "advanced (nat (mfl_Count f)) disk disk'"
      "maker_prepare L H parse_key address_of f io disk = Inr (contract, state, key)" for contract state key
    using that(1-5) maker_prepare_room [OF that(6,3,4)] by (auto simp: advanced_def)
  from assms show ?thesis
  proof (cases rule: maker_main.cases)
    case (submitted contract state key ios c txs)
    then obtain opts where "submit_loop L H hash_of nonce_of contract (mio_Ctx io) state
        (LiveSigner (localSigner (address_of key) (sign key))) ios opts (disk, disk) = Some ((c, disk'), txs, r) \<or> disk' = disk"
      by (auto simp: submitOnChain_def split: sum.splits)
    then have "advanced (nat (mfl_Count f)) disk disk'" using submit_loop_advances submitted(8) by fastforce
    with submitted maker_lock_cases(1) [OF submitted(4)] show ?thesis by (intro ended [of contract state key]) (simp_all add: flags_error_None)
  next
    case (published contract state key lifetime dio later v0 v)
    with maker_lock_cases(1) [OF published(5)] publish_advances [OF published(9,10)] show ?thesis
      by (intro ended [of contract state key]) (simp_all add: flags_error_None)
  qed (auto dest: maker_lock_cases simp: flags_error_None)
qed

text \<open>A run that reserves a version and then cannot send: the SDK's call fails before the write.\<close>

definition zero_calls :: rpc where
  "zero_calls = silent_rpc\<lparr>CallContract := (\<lambda>k m b. Inr (replicate (if k = 0 then 64 else if k = 1 then 224 else 32) 0))\<rparr>"

definition run_io :: maker_io where
  "run_io = \<lparr>mio_Abs = None, mio_LockCreate = None, mio_LockWrite = None, mio_LockClose = None, mio_Open = None, mio_Decode = None,
     mio_Rest = BodyEOF, mio_Dial = Inr zero_calls, mio_Ctx = never_done, mio_Head = Inr (Some \<lparr>bh_Number = Some 100, bh_Time = 5\<rparr>)\<rparr>"

definition run_flags :: maker_flags where
  "run_flags = \<lparr>mfl_Count = 1, mfl_Interval = 1, mfl_Observe = 1, mfl_Timeout = 1, mfl_LoadOnly = False, mfl_OnChain = False, mfl_NoSend = False\<rparr>"

lemma zero_bytes: "big_SetBytes (replicate n 0) = 0"
  by (induction n) (simp_all add: big_SetBytes_def)

lemma run_prepared:
  "\<exists>state. maker_prepare toy_decay_lib run_hex (\<lambda>_. Some ()) (\<lambda>_. 0xD4) run_flags run_io run_app = Inr (sample_client, state, ()) \<and>
     cs_Cutoff state = 0"
proof -
  have "maker_start run_hex (\<lambda>_. Some ()) (\<lambda>_. 0xD4) run_flags run_app = Inr ()"
    by (simp add: maker_start_def maker_app_validate_def nonzero_address_def run_hex_def run_flags_def run_app_def toy_app_def
        sample_params_def reject_def attempt_def)
  moreover have "\<exists>state. loadState toy_decay_lib run_hex zero_calls (mio_Head run_io) run_app = Inr state \<and> cs_Cutoff state = 0"
    by (simp add: loadState_def state_call_def token_state_def zero_calls_def run_io_def checked_head_def zero_bytes Let_def)
  moreover have "NewClient (Some never_done) (Some zero_calls) \<lparr>cl_ChainID = mac_ChainID run_app, cl_Proxy = HexToAddress run_hex (mac_Protocol run_app)\<rparr> =
      Inr sample_client"
    by (simp add: NewClient_def zero_calls_def silent_rpc_def run_app_def toy_app_def run_hex_def sample_client_def)
  moreover have "mio_Open run_io = None" "mio_Decode run_io = None" "mio_Rest run_io = BodyEOF" "mio_Dial run_io = Inr zero_calls"
      "mio_Ctx run_io = never_done"
    by (simp_all add: run_io_def)
  ultimately show ?thesis by (auto simp: maker_prepare_def readConfig_def)
qed

lemma run_reserves:
  assumes "cs_Cutoff state = 0"
  shows "\<exists>params. prepareNextQuote toy_decay_lib run_hex sample_client never_done state signer run_quote_io (run_app, run_app) =
     ((run_app\<lparr>mac_Minor := 10\<rparr>, run_app\<lparr>mac_Minor := 10\<rparr>), Inr params)"
proof -
  have "ReadGlobalDecayConfig toy_decay_lib silent_rpc sample_client (Some never_done) (Some 100) =
      Inr \<lparr>DecayStartOffsetSeconds = 10, DecayEndOffsetSeconds = 20, MaxAge = 30, MaxDecayPpm = 1000\<rparr>"
    by (simp add: ReadGlobalDecayConfig_def validateBlock_def read_proxy_def toy_decay_lib_def echo_lib_def silent_rpc_def
        as_u32_def Validate_def PPMDenominator_def reject_def Let_def)
  then show ?thesis
    using assms by (simp add: prepareNextQuote_def next_quote_def run_quote_io_def toy_quote_io_def checked_head_def DecayPPM_def
        Validate_def PPMDenominator_def reject_def Let_def reserveVersion_def atomicJSON_def toy_files_def run_app_def toy_app_def)
qed

lemma returned_keeps:
  assumes "publish_step L H P contract state signer v v'" "\<not> main_running (pw_main v)"
  shows "\<not> main_running (pw_main v') \<and> pw_versions v' = pw_versions v"
  using assms(1) by (cases rule: publish_step.cases) (use assms(2) in simp_all)

lemma returned_keeps_steps:
  assumes "publish_steps L H P contract state signer v v'" "\<not> main_running (pw_main v)"
  shows "\<not> main_running (pw_main v') \<and> pw_versions v' = pw_versions v"
  using assms by (induction rule: rtranclp_induct) (auto dest: returned_keeps)

lemma refused_run:
  assumes "cs_Cutoff state = 0"
  shows "\<exists>v0 v r. publish_start toy_maker_proto None toy_dial None (run_app, run_app) 1 = Inr v0 \<and>
    publish_steps toy_decay_lib run_hex toy_maker_proto sample_client state signer v0 v \<and> pw_main v = MExit (Some r) \<and>
    snd (pw_versions v) = run_app\<lparr>mac_Minor := 10\<rparr>"
proof -
  obtain v0 where v0: "publish_start toy_maker_proto None toy_dial None (run_app, run_app) 1 = Inr v0"
      "pw_main v0 = MLoop" "pw_left v0 = 1" "pw_versions v0 = (run_app, run_app)"
    using run_starts by blast
  let ?step = "publish_step toy_decay_lib run_hex toy_maker_proto sample_client state signer"
  obtain params where p: "prepareNextQuote toy_decay_lib run_hex sample_client never_done state signer run_quote_io (pw_versions v0) =
      ((run_app\<lparr>mac_Minor := 10\<rparr>, run_app\<lparr>mac_Minor := 10\<rparr>), Inr params)"
    using run_reserves [OF assms] v0(4) by metis
  define v1 where "v1 = v0\<lparr>pw_versions := (run_app\<lparr>mac_Minor := 10\<rparr>, run_app\<lparr>mac_Minor := 10\<rparr>), pw_main := MSend params\<rparr>"
  define v2 where "v2 = v1\<lparr>pw_main := MReturn (Some (AppPublish NotSent (StreamCause (ContextError Canceled))))\<rparr>"
  have s1: "?step v0 v1" unfolding v1_def by (rule publish_step.quote_ready [OF v0(2) _ p]) (simp add: v0)
  have "publish_begin (eth toy_decay_lib) toy_maker_proto (\<lambda>_. Some Canceled) params 0 toy_write (pw_client v1) = Inl (StreamCause (ContextError Canceled))"
    by (simp add: publish_begin_def)
  then have s2: "?step v1 v2" unfolding v2_def by (rule publish_step.send_refused [rotated]) (simp add: v1_def)
  have run: "?step\<^sup>*\<^sup>* v0 v2" using s1 s2 by (meson converse_rtranclp_into_rtranclp rtranclp.rtrancl_refl)
  have "publish_started toy_maker_proto v0" using v0(1) unfolding publish_started_def by blast
  from publishing.reached_inv [OF this run] have inv: "publish_inv run_hex v2" .
  have m: "pw_main v2 = MReturn (Some (AppPublish NotSent (StreamCause (ContextError Canceled))))" by (simp add: v2_def)
  obtain v where v: "?step\<^sup>*\<^sup>* v2 v"
      "pw_main v = MExit (app_Join [Some (AppPublish NotSent (StreamCause (ContextError Canceled))), map_option AppStream (Err (stop None (pw_client v2)))])"
    using returning_finishes [OF inv m, of toy_decay_lib toy_maker_proto sample_client state signer] by blast
  have "snd (pw_versions v) = run_app\<lparr>mac_Minor := 10\<rparr>"
    using returned_keeps_steps [OF v(1)] by (simp add: v2_def v1_def)
  moreover have "\<exists>r. pw_main v = MExit (Some r)" using v(2) by (simp add: app_Join_def List.map_filter_simps)
  ultimately show ?thesis using v0(1) run v(1) by (metis rtranclp_trans)
qed

theorem maker_run_versions_witness:
  "\<exists>disk' r. maker_main toy_decay_lib run_hex toy_maker_proto (\<lambda>_. []) (\<lambda>_. 0) (\<lambda>_. Some ()) (\<lambda>_ _. sample_opts) (\<lambda>_. 0xD4)
      (\<lambda>_ _. Inr []) run_flags run_io (False, run_app) (False, disk') (Some r) \<and> disk' = run_app\<lparr>mac_Minor := mac_Minor disk'\<rparr> \<and>
    unat (mac_Minor disk') = 10"
proof -
  let ?main = "maker_main toy_decay_lib run_hex toy_maker_proto (\<lambda>_. []) (\<lambda>_. 0) (\<lambda>_. Some ()) (\<lambda>_ _. sample_opts) (\<lambda>_. 0xD4) (\<lambda>_ _. Inr [])
    run_flags run_io (False, run_app)"
  obtain state where s: "maker_prepare toy_decay_lib run_hex (\<lambda>_. Some ()) (\<lambda>_. 0xD4) run_flags run_io run_app = Inr (sample_client, state, ())"
      "cs_Cutoff state = 0"
    using run_prepared by blast
  obtain v0 v r where v: "publish_start toy_maker_proto None toy_dial None (run_app, run_app) 1 = Inr v0"
      "publish_steps toy_decay_lib run_hex toy_maker_proto sample_client state (LiveSigner (localSigner 0xD4 (\<lambda>_. Inr []))) v0 v"
      "pw_main v = MExit (Some r)" "snd (pw_versions v) = run_app\<lparr>mac_Minor := 10\<rparr>"
    using refused_run [OF s(2)] by blast
  have io: "flags_error run_flags = None" "mio_Abs run_io = None" "maker_lock run_io False = (True, None)" "nat (mfl_Count run_flags) = 1"
      "\<not> mfl_LoadOnly run_flags" "\<not> mfl_OnChain run_flags"
    by (simp_all add: flags_error_def run_flags_def run_io_def maker_lock_def lockConfig_def)
  have "?main (unlockConfig True, snd (pw_versions v)) (Some r)"
    using io v s(1) by (intro maker_main.published [where key = "()" and lifetime = None and dio = toy_dial and later = None]) simp_all
  then have main: "?main (False, run_app\<lparr>mac_Minor := 10\<rparr>) (Some r)" unfolding v(4) by simp
  from maker_run_versions [OF main] main show ?thesis by (intro exI [of _ "run_app\<lparr>mac_Minor := 10\<rparr>"] exI [of _ r]) simp
qed

subsection \<open>examples/router/main.go\<close>

record router_flags =
  rfl_IncludeGray :: bool
  rfl_Poll :: int
  rfl_StatusEvery :: int
  rfl_Duration :: int
  rfl_MaxCache :: int
  rfl_FrameBuffer :: int

text \<open>The configuration that \<open>run\<close> gets, or the errors that are joined: \<open>opened\<close> is the file, \<open>closeErr\<close> what closing it
  returns.\<close>

definition router_main :: "hexlib \<Rightarrow> (string \<Rightarrow> rpc_url option) \<Rightarrow> router_flags \<Rightarrow>
    string + router_app_config \<times> string option \<times> body_rest \<Rightarrow> string option \<Rightarrow> router_app_error list + router_app_config" where
  "router_main H parse f opened closeErr =
    (if rfl_Poll f \<le> 0 \<or> rfl_StatusEvery f \<le> 0 \<or> rfl_Duration f < 0 \<or> rfl_MaxCache f \<le> 0 \<or> rfl_FrameBuffer f \<le> 0
     then Inl [RaText ''poll, status-every, max-cached-quotes, and frame-buffer must be positive; duration must not be negative'']
     else case opened of
       Inl e \<Rightarrow> Inl [RaText e]
     | Inr file \<Rightarrow>
        (case router_readConfig file of (cfg, err) \<Rightarrow>
          (case List.map_filter id [err, map_option RaText closeErr] of
             e # es \<Rightarrow> Inl (e # es)
           | [] \<Rightarrow> attempt (wrap_err (\<lambda>e. [e]) (router_app_validate H parse (rfl_IncludeGray f) cfg)) (\<lambda>_. Inr cfg))))"

lemma router_main_Inr:
  assumes "router_main H parse f opened closeErr = Inr cfg"
  shows "0 < rfl_FrameBuffer f \<and> 0 < rfl_MaxCache f \<and> router_app_validate H parse (rfl_IncludeGray f) cfg = Inr () \<and>
    closeErr = None \<and> (\<exists>rest. opened = Inr (cfg, None, rest) \<and> rest = BodyEOF)"
  using assms
  by (cases closeErr; cases opened)
    (auto simp: router_main_def router_readConfig_def attempt_Inr List.map_filter_simps split: if_splits option.splits list.splits)

lemma dialed_router_config:
  assumes "DialRouter P lifetime cfg0 io later = Inr (c, s, l)"
  obtains cfg where "normalizeRouter cfg0 = Inr cfg" "rt_cfg (sc_router c) = cfg"
    "gc_cap (rt_frames (sc_router c)) = nat (rtc_FrameBufferSize cfg)" "\<not> sc_stopped c"
proof -
  from assms obtain cfg where cfg: "normalizeRouter cfg0 = Inr cfg"
      and d: "dial_and_install P io later (w_client (start_router lifetime cfg)) = Inr (c, s)"
    by (auto simp: DialRouter_def attempt_Inr start_router_def Let_def)
  from d obtain c1 where c1: "dial P io (w_client (start_router lifetime cfg)) = (c1, Inr s)" "install s c1 = (c, True)"
    by (auto simp: dial_and_install_def split: prod.splits sum.splits bool.splits)
  have "fixed_part c = fixed_part (w_client (start_router lifetime cfg))"
    using fixed_dial [of P io "w_client (start_router lifetime cfg)"] fixed_install [of s c1] c1 by simp
  from fixed_partD [OF this] have "rt_cfg (sc_router c) = cfg" "gc_cap (rt_frames (sc_router c)) = nat (rtc_FrameBufferSize cfg)"
    by (simp_all add: start_router_def newClient_def new_router_state_def)
  moreover have "\<not> sc_stopped c" using c1(2) by (cases rule: install_cases) auto
  ultimately show ?thesis using cfg by (intro that)
qed

text \<open>C27: When the router application's main accepts its flags and configuration and opens the
  connection, its subscription is one the SDK takes and carries exactly what was configured: the
  filters are the configured items in order, each with the chain, pair, maker and both gray flags
  of its item (one filter without any condition when there is no item), followed by the legacy gray
  pair when the flag asks for it; for at most 100 filters Subscribe's validation passes
  and the request holds these filters, for more it fails;
  the SDK's frame channel has the capacity the flag asks for; the client is not stopped;
  and there is a contract client exactly when a swap is configured.\<close>

theorem router_main_subscribes:
  assumes main: "router_main H parse f opened closeErr = Inr cfg"
    and run: "run_open P H ctx dialed lifetime io later (rfl_IncludeGray f) (rfl_FrameBuffer f) cfg = Inr (filters, contract, c)"
  shows "filters = wanted_filters cfg (rfl_IncludeGray f) \<and>
    length filters = max 1 (length (rac_Filters cfg)) + (if rfl_IncludeGray f then 1 else 0) \<and>
    (if length filters \<le> 100 then Subscribe_request H c (map Some filters) = Inr \<lparr>sq_filters = filters\<rparr>
     else \<exists>e. Subscribe_request H c (map Some filters) = Inl e) \<and>
    gc_cap (rt_frames (sc_router c)) = nat (rfl_FrameBuffer f) \<and> \<not> sc_stopped c \<and> (contract = None \<longleftrightarrow> rac_Swap cfg = None)"
proof -
  from run obtain s l where fs: "subscriptionFilters H cfg (rfl_IncludeGray f) = Inr filters"
      and d: "DialRouter P lifetime (app_connection cfg (rfl_FrameBuffer f)) io later = Inr (c, s, l)"
      and k: "contract = None \<longleftrightarrow> rac_Swap cfg = None"
    by (auto simp: run_open_def attempt_Inr split: option.splits)
  obtain rc where rc: "normalizeRouter (app_connection cfg (rfl_FrameBuffer f)) = Inr rc" "rt_cfg (sc_router c) = rc"
      "gc_cap (rt_frames (sc_router c)) = nat (rtc_FrameBufferSize rc)" "\<not> sc_stopped c"
    using dialed_router_config [OF d] .
  have "rtc_MaxSubscribeFilters rc = 100" "rtc_FrameBufferSize rc = rfl_FrameBuffer f"
    using rc(1) router_main_Inr [OF main] by (auto simp: normalizeRouter_def attempt_Inr app_connection_def or_default_def)
  with rc fs k app_filters_subscribable [OF fs, of 100] subscriptionFilters_wanted [OF fs] show ?thesis
    by (auto simp: Subscribe_request_def cloneFilters_def comp_def validateSubscriptionFilters_def reject_def)
qed

definition toy_router_flags :: router_flags where
  "toy_router_flags = \<lparr>rfl_IncludeGray = False, rfl_Poll = 1, rfl_StatusEvery = 1, rfl_Duration = 0, rfl_MaxCache = 10, rfl_FrameBuffer = 256\<rparr>"

theorem router_main_subscribes_witness:
  "\<exists>filters c. router_main toy_hex toy_url toy_router_flags (Inr (toy_router_app, None, BodyEOF)) None = Inr toy_router_app \<and>
     run_open toy_proto toy_hex never_done (Inl []) None toy_dial None False 256 toy_router_app = Inr (filters, None, c) \<and>
     Subscribe_request toy_hex c (map Some filters) = Inr \<lparr>sq_filters = filters\<rparr>"
proof -
  have main: "router_main toy_hex toy_url toy_router_flags (Inr (toy_router_app, None, BodyEOF)) None = Inr toy_router_app"
    by (simp add: router_main_def toy_router_flags_def router_readConfig_def router_app_validate_def subscriptionFilters_def
        toy_router_app_def pairFilter_def List.map_filter_simps Let_def)
  have "normalizeRouter (app_connection toy_router_app 256) = Inr default_router"
    by (simp add: normalizeRouter_def default_url_def app_connection_def toy_router_app_def default_router_def or_default_def
        normalizeConnection_def connection_durations_def set_durations_def default_connection_def seconds_def milliseconds_def)
  then have "DialRouter toy_proto None (app_connection toy_router_app 256) toy_dial None = DialRouter toy_proto None zero_router toy_dial None"
    by (simp add: DialRouter_def zero_router_defaults)
  then obtain c where "DialRouter toy_proto None (app_connection toy_router_app 256) toy_dial None = Inr (c, 0, None)"
    using toy_dial_router by auto
  then obtain filters where run: "run_open toy_proto toy_hex never_done (Inl []) None toy_dial None False 256 toy_router_app = Inr (filters, None, c)"
      "length filters = 1"
    by (simp add: run_open_def subscriptionFilters_def toy_router_app_def pairFilter_def Let_def)
  moreover have "rfl_IncludeGray toy_router_flags = False" "rfl_FrameBuffer toy_router_flags = 256"
    by (simp_all add: toy_router_flags_def)
  ultimately show ?thesis using router_main_subscribes [OF main] main by fastforce
qed

subsection \<open>examples/listing/main.go and examples/protocol/main.go\<close>

definition listing_main :: "listing_json \<Rightarrow> hexlib \<Rightarrow> netlib \<Rightarrow> ctx option \<Rightarrow> (nat \<Rightarrow> string option) \<Rightarrow> u64 \<Rightarrow> int \<Rightarrow> int \<Rightarrow>
    string + config_file \<Rightarrow> (string list \<times> listing_app_error) + string list \<times> listed_pair option" where
  "listing_main J H N cx wr pairID timeout requestTimeout file =
     reject (\<not> listing_flags_ok pairID timeout requestTimeout)
       ([], LaText ''pair-id must fit a positive int32 or be omitted; timeouts must be positive'')
    (case loadConfig file of
       (cfg, Some e) \<Rightarrow> Inl ([], e)
     | (cfg, None) \<Rightarrow>
         attempt (wrap_err (\<lambda>e. ([], LaListing e)) (NewListingClient \<lparr>ls_BaseURL = [], ls_APIKey = lac_APIKey cfg,
           ls_HTTPClient = None, ls_Timeout = requestTimeout\<rparr>)) (\<lambda>k.
         runListing J H N k cx wr cfg (ucast pairID)))"

text \<open>The conversion of the flag to uint32 never truncates.\<close>

lemma listing_pair_exact: "listing_flags_ok pairID timeout requestTimeout \<Longrightarrow> unat (ucast pairID :: u32) = unat pairID"
  by (simp add: listing_flags_ok_def MaxInt32_def unsigned_ucast_eq take_bit_nat_eq_self not_less)

datatype protocol_main_error = PmText string | PmOffline offline_error | PmRpc rpc_run_error

text \<open>\<open>narg\<close> counts positional arguments; an empty \<open>-config\<close> runs offline.\<close>

definition protocol_main :: "chainlib \<Rightarrow> hexlib \<Rightarrow> string + offline_key \<Rightarrow> (string \<Rightarrow> rpc_url option) \<Rightarrow> (string \<Rightarrow> url_secrets option) \<Rightarrow>
    (string \<Rightarrow> string) \<Rightarrow> (rpc_run_error \<Rightarrow> string) \<Rightarrow> rpc_world \<Rightarrow> nat \<Rightarrow> int \<Rightarrow> string \<Rightarrow> protocol_main_error option" where
  "protocol_main L H key parse secrets escape text w narg timeout path =
    (if narg \<noteq> 0 then Some (PmText ''unexpected positional arguments; use -h for usage'')
     else if timeout \<le> 0 then Some (PmText ''timeout must be positive'')
     else if path = [] then (case runOffline L H key of Inl e \<Rightarrow> Some (PmOffline e) | Inr _ \<Rightarrow> None)
     else (case runRPC L H parse secrets escape text w of Inl e \<Rightarrow> Some (PmRpc e) | Inr _ \<Rightarrow> None))"

end
