(* ===== verification/Stream_Callers.thy ===== *)
theory Stream_Callers
  imports Stream_Behaviour
begin

text \<open>
  Sessions that are over. \<open>connection.go\<close> promises that stale work is rejected by comparing its session
  with the current one, and that callbacks of an older session cannot discard a newer connection. The
  heartbeat goroutine of \<open>runSession\<close> is modelled here; the lemmas show that a session that was replaced
  never becomes current again, in any interleaving, and that whatever its goroutines still do changes
  nothing of the client but the session's own record and the traffic counters.
\<close>

text \<open>One tick of the heartbeat goroutine; the flag is whether it goes on.\<close>

definition heartbeat_tick :: "protolib \<Rightarrow> nat \<Rightarrow> int \<Rightarrow> write_io \<Rightarrow> stream_client \<Rightarrow> stream_client \<times> bool" where
  "heartbeat_tick P s now io c =
    (case sendHeartbeat P s True False now io c of
       (c1, None) \<Rightarrow> (c1, True)
     | (c1, Some e) \<Rightarrow> (if session_done s c1 then c1 else discard s e c1, False))"

subsection \<open>A replaced session does not come back\<close>

text \<open>The session of that number has been dialed and is past the points at which it can be installed.\<close>

definition past_install :: "nat \<Rightarrow> stream_world \<Rightarrow> bool" where
  "past_install s w \<longleftrightarrow> s < sc_nextSession (w_client w) \<and> w_pc w \<notin> {PFirst s, PGate s, PInstall s}"

definition keeps_sessions :: "nat \<Rightarrow> stream_client \<Rightarrow> stream_client \<Rightarrow> bool" where
  "keeps_sessions s c c' \<longleftrightarrow> sc_nextSession c \<le> sc_nextSession c' \<and> (sc_current c' = Some s \<longrightarrow> sc_current c = Some s)"

lemma keeps_evolves: "evolves c c' \<Longrightarrow> keeps_sessions s c c'"
  by (auto simp: evolves_def keeps_sessions_def)

lemma keeps_install:
  assumes "install s' c = (c', ok)" "s \<noteq> s'"
  shows "keeps_sessions s c c'"
  using assms(1)
proof (cases rule: install_cases)
  case refused
  then show ?thesis by (simp add: keeps_evolves)
next
  case (installed c1)
  then show ?thesis using assms(2) by (auto simp: keeps_sessions_def evolves_def)
qed

lemma dial_new: "dial P io c = (c', Inr s) \<Longrightarrow> s = sc_nextSession c"
  by (auto simp: dial_def Let_def split: sum.splits prod.splits)

lemma step_keeps_sessions:
  assumes "stream_step P H w w'" "world_inv H w" "past_install s w"
  shows "past_install s w' \<and> keeps_sessions s (w_client w) (w_client w')"
proof -
  have "w_pc w' \<notin> {PFirst s, PGate s, PInstall s} \<and> keeps_sessions s (w_client w) (w_client w')"
    using assms(1)
  proof (cases rule: stream_step.cases)
    case (lifetime_ends e)
    then show ?thesis using assms(3) by (simp add: past_install_def keeps_sessions_def)
  next
    case (first_install s' c ok)
    then have "s \<noteq> s'" using assms(3) by (auto simp: past_install_def)
    note k = keeps_install [OF first_install(3) this]
    then have "keeps_sessions s (w_client w) (cancel_client c)" by (simp add: keeps_sessions_def cancel_client_def)
    with k show ?thesis using first_install assms(3) by (simp add: past_install_def)
  next
    case (installed s' c)
    then have "s \<noteq> s'" using assms(3) by (auto simp: past_install_def)
    with keeps_install [OF installed(3) this] show ?thesis using installed by simp
  next
    case (install_refused s' c)
    then have "s \<noteq> s'" using assms(3) by (auto simp: past_install_def)
    note k = keeps_install [OF install_refused(3) this]
    then have "keeps_sessions s (w_client w) (release_gate c)" by (simp add: keeps_sessions_def release_gate_def set_fault_def split: option.splits)
    with k show ?thesis using install_refused by simp
  next
    case (gate_taken c)
    then show ?thesis using assms(3) by (auto simp: take_gate_Some past_install_def keeps_sessions_def)
  next
    case (reserved s' c)
    then have "evolves (w_client w) c" by (auto simp: run_reserve_def take_gate_Some split: option.splits)
    then show ?thesis using reserved assms(3) by (simp add: keeps_evolves past_install_def)
  next
    case (frame_received u c)
    then show ?thesis using receive_frame_fixed assms(3) by (simp add: keeps_evolves past_install_def)
  next
    case (event_received e c)
    then show ?thesis using receive_event_fixed assms(3) by (simp add: keeps_evolves past_install_def)
  next
    case (message_handled s' r now io c)
    then show ?thesis using evolves_read_turn [of "w_client w" P H s' r now io] assms(3) by (simp add: keeps_evolves past_install_def)
  next
    case (reading_fails s' r now io c e)
    then show ?thesis using evolves_read_turn [of "w_client w" P H s' r now io] by (simp add: keeps_evolves)
  next
    case (subscription_unsent u s' p data io c e)
    then show ?thesis using answer_inv(1) [OF assms(2)] assms(3) by (simp add: keeps_evolves past_install_def)
  next
    case (subscription_answered u s' p data wev c r)
    then show ?thesis using answer_inv(2) [OF assms(2)] assms(3) by (simp add: keeps_evolves past_install_def)
  next
    case (first_dial_fails io c e)
    then have "evolves (w_client w) (cancel_client c)" using evolves_dial [of "w_client w" P io] by (auto intro: evolves_drop)
    then show ?thesis using first_dial_fails by (simp add: keeps_evolves)
  next
    case (first_dial io c s')
    then show ?thesis using evolves_dial [of "w_client w" P io] dial_new [OF first_dial(3)] assms(3)
      by (simp add: keeps_evolves past_install_def)
  next
    case (dial_final io c e)
    then have "evolves (w_client w) (stop (Some e) c)" using evolves_dial [of "w_client w" P io] by (simp add: evolves_emit)
    then show ?thesis using dial_final by (simp add: keeps_evolves)
  next
    case (dial_fails io c e)
    then show ?thesis using evolves_dial [of "w_client w" P io] by (simp add: keeps_evolves)
  next
    case (dial_succeeds io c s')
    then show ?thesis using evolves_dial [of "w_client w" P io] dial_new [OF dial_succeeds(3)] assms(3)
      by (simp add: keeps_evolves past_install_def)
  next
    case caller_begins
    then show ?thesis using assms(3) by (simp add: evolves_sendSubscription_begin keeps_evolves past_install_def)
  next
    case restore_begins
    then show ?thesis using assms(3) by (simp add: evolves_sendSubscription_begin keeps_evolves past_install_def)
  qed (use assms(3) in \<open>simp_all add: evolves_emit evolves_ops Next_fixed keeps_evolves past_install_def\<close>)
  then show ?thesis using assms(3) by (simp add: past_install_def keeps_sessions_def)
qed

lemma steps_keep_sessions:
  assumes "stream_steps P H w w'" "world_inv H w" "past_install s w"
  shows "past_install s w'" "sc_current (w_client w) \<noteq> Some s \<Longrightarrow> sc_current (w_client w') \<noteq> Some s"
proof -
  show "past_install s w'"
    using stream.steps_preserve [OF assms(1,2), of "past_install s"] assms(3) step_keeps_sessions by blast
  assume "sc_current (w_client w) \<noteq> Some s"
  then show "sc_current (w_client w') \<noteq> Some s"
    using stream.steps_preserve [OF assms(1,2), of "\<lambda>v. past_install s v \<and> sc_current (w_client v) \<noteq> Some s"] assms(3)
      step_keeps_sessions unfolding keeps_sessions_def by blast
qed

lemma current_past_install: "world_inv H w \<Longrightarrow> sc_current (w_client w) = Some s \<Longrightarrow> past_install s w"
  using world_invD(1,2) [of H w] by (cases "w_pc w") (auto simp: past_install_def client_inv_def lifecycle_ok_def)

subsection \<open>What a stale session can still do\<close>

definition only_own_record :: "nat \<Rightarrow> stream_client \<Rightarrow> stream_client \<Rightarrow> bool" where
  "only_own_record s c c' \<longleftrightarrow> (\<exists>x t. c' = c\<lparr>sc_sessions := (sc_sessions c)(s := x), sc_stats := t\<rparr>)"

lemma own_recordI: "c' = c\<lparr>sc_sessions := (sc_sessions c)(s := x), sc_stats := t\<rparr> \<Longrightarrow> only_own_record s c c'"
  unfolding only_own_record_def by blast

lemma own_record_refl [simp]: "only_own_record s c c"
  by (rule own_recordI [where x = "sc_sessions c s" and t = "sc_stats c"]) simp

lemma own_record_trans:
  assumes "only_own_record s a b" "only_own_record s b c"
  shows "only_own_record s a c"
proof -
  from assms obtain x t x' t' where b: "b = a\<lparr>sc_sessions := (sc_sessions a)(s := x), sc_stats := t\<rparr>"
      "c = b\<lparr>sc_sessions := (sc_sessions b)(s := x'), sc_stats := t'\<rparr>"
    unfolding only_own_record_def by blast
  then show ?thesis by (intro own_recordI [where x = x' and t = t']) simp
qed

lemma own_record_current: "only_own_record s c c' \<Longrightarrow> sc_current c' = sc_current c"
  by (auto simp: only_own_record_def)

lemma own_record_counts [simp]: "only_own_record s c (count_received d c)" "only_own_record s c (count_sent d c)"
  by (rule own_recordI [where x = "sc_sessions c s"], simp add: count_received_def count_sent_def)+

lemma stale_discard:
  assumes "sc_current c \<noteq> Some s"
  shows "only_own_record s c (discard s e c)"
  unfolding stale_discard_isolated [OF assms] by (rule own_recordI [where t = "sc_stats c"]) simp

lemma stale_write:
  assumes "sc_current c \<noteq> Some s"
  shows "\<exists>e. write_message s data before io c = (c, False, Some e)"
proof -
  have "\<not> isl (write_begin s data before io c) \<Longrightarrow> False"
    using assms write_begin_Inr [of s data before io c] by (cases "write_begin s data before io c") auto
  then show ?thesis by (cases "write_begin s data before io c") (auto simp: write_message_def)
qed

lemma stale_write_end:
  assumes "sc_current c \<noteq> Some s"
  shows "only_own_record s c (fst (write_end s data io c))"
proof -
  have again: "only_own_record s c (discard s e c')" if "only_own_record s c c'" for e c'
    using that stale_discard [of c' s e] own_record_current [OF that] assms own_record_trans by metis
  show ?thesis
    using again [OF own_record_refl] again [OF again [OF own_record_refl]] own_record_trans [OF _ own_record_counts(2)]
    by (auto simp: write_end_def Let_def split: option.splits)
qed

lemma stale_heartbeat_sent:
  assumes "sc_current c \<noteq> Some s"
  shows "\<exists>e. sendHeartbeat P s ping pong now io c = (c, Some e)"
proof (cases "heartbeat_data P c ping pong now")
  case (Inr data)
  obtain e where "write_message s data id io c = (c, False, Some e)" using stale_write [OF assms] by blast
  then show ?thesis using Inr by (simp add: sendHeartbeat_def)
qed (simp add: sendHeartbeat_def)

lemma stale_handle:
  assumes "sc_current c \<noteq> Some s"
  shows "fst (handle P H s data now io c) = c"
proof -
  have hb: "fst (handle_heartbeat P s h now io c) = c" for h
    using stale_heartbeat_sent [OF assms, of P False True now io] by (auto simp: handle_heartbeat_def split: option.splits)
  have "fst (ack s a c) = c" "fst (serverError s x c) = c" "fst (update H s v c) = c" for a x v
    using assms by (simp_all add: ack_def serverError_def update_def)
  note ops = this hb
  have "fst (handle_maker P s e now io c) = c" for e
    using assms hb by (cases "me_Type e") (simp_all add: handle_maker_def split: option.split)
  moreover have "fst (handle_router P H s e now io c) = c" for e
    using ops by (cases "re_Type e") (simp_all add: handle_router_def split: option.split)
  ultimately show ?thesis by (simp add: handle_def split: sum.split)
qed

lemma stale_read_turn:
  assumes "sc_current c \<noteq> Some s"
  shows "only_own_record s c (fst (read_turn P H s r now io c))"
proof -
  have "fst (handle P H s d now io (count_received d c)) = count_received d c" for d
    using assms by (intro stale_handle) (simp add: count_received_def)
  then show ?thesis by (auto simp: read_turn_def split: sum.splits prod.splits)
qed

text \<open>C14: A replaced connection stays replaced and can do no harm. In every run of the concurrent client: once
  a session that was current has been given up, it is not current in any later state, and whatever is still
  done in its name there leaves the newer connection, status, subscription, queues, events and all other
  sessions alone. A write in its name writes nothing, changes nothing and returns an error; a heartbeat tick ends
  its goroutine; a failure reported for it, the end of a write that was under way and a message its
  read loop still receives change at most its own record and the traffic counters.\<close>

theorem stale_session_harmless:
  assumes "started w0" "stream_steps P H w0 w" "sc_current (w_client w) = Some s"
    and "stream_steps P H w w1" "sc_current (w_client w1) \<noteq> Some s" "stream_steps P H w1 w2"
  shows "sc_current (w_client w2) \<noteq> Some s \<and>
    (\<exists>e. write_message s data before io (w_client w2) = (w_client w2, False, Some e)) \<and>
    (case heartbeat_tick P s now io (w_client w2) of (c, goes_on) \<Rightarrow> \<not> goes_on \<and> only_own_record s (w_client w2) c) \<and>
    only_own_record s (w_client w2) (discard s err (w_client w2)) \<and>
    only_own_record s (w_client w2) (fst (write_end s data io (w_client w2))) \<and>
    only_own_record s (w_client w2) (fst (read_turn P H s r now io (w_client w2)))"
proof -
  have inv: "world_inv H w" using stream.reached_inv [OF assms(1,2)] .
  have inv1: "world_inv H w1" using stream.steps_inv [OF assms(4) inv] .
  have "past_install s w1" using steps_keep_sessions(1) [OF assms(4) inv current_past_install [OF inv assms(3)]] .
  then have cur: "sc_current (w_client w2) \<noteq> Some s" using steps_keep_sessions(2) [OF assms(6) inv1] assms(5) by blast
  obtain e where "sendHeartbeat P s True False now io (w_client w2) = (w_client w2, Some e)"
    using stale_heartbeat_sent [OF cur] by blast
  then have "heartbeat_tick P s now io (w_client w2) =
      (if session_done s (w_client w2) then w_client w2 else discard s e (w_client w2), False)"
    by (simp add: heartbeat_tick_def)
  then show ?thesis
    using cur stale_write [OF cur] stale_discard [OF cur] stale_write_end [OF cur] stale_read_turn [OF cur] by simp
qed

text \<open>The connection of the sample run is lost and then stopped.\<close>

definition toy_lost :: stream_world where
  "toy_lost = toy_delivered\<lparr>w_client := discard 0 ErrDisconnected (w_client toy_delivered)\<rparr>"

theorem stale_session_harmless_witness:
  "sc_current (w_client toy_delivered) = Some 0 \<and> stream_steps toy_proto toy_hex toy_delivered toy_lost \<and>
   (\<exists>e. write_message 0 [1] id toy_write (w_client toy_lost) = (w_client toy_lost, False, Some e)) \<and>
   \<not> snd (heartbeat_tick toy_proto 0 0 toy_write (w_client toy_lost))"
proof -
  have d: "sc_current (w_client toy_delivered) = Some 0" "0 < sc_nextSession (w_client toy_delivered)" by code_simp+
  have run: "stream_steps toy_proto toy_hex toy_delivered toy_lost"
    using stream_step.session_discarded [OF d(2)] unfolding toy_lost_def by blast
  have "sc_current (w_client toy_lost) \<noteq> Some 0" by (simp add: toy_lost_def discard_not_current)
  note stale = stale_session_harmless [OF toy_started toy_run d(1) run this rtranclp.rtrancl_refl, of "[1]" id toy_write 0 ErrDisconnected "Inl ErrDisconnected"]
  then have "\<not> snd (heartbeat_tick toy_proto 0 0 toy_write (w_client toy_lost))"
    by (cases "heartbeat_tick toy_proto 0 0 toy_write (w_client toy_lost)") simp
  with stale show ?thesis using d(1) run by blast
qed

end
