(* ===== verification/Spec2Isabelle.thy ===== *)
theory Spec2Isabelle
  imports Example_Mains Stream_Callers
begin

text \<open>
  \<^bold>\<open>The Takapu protocol SDK\<close>, a Go library for market makers and routers, and its verification.

  \<^bold>\<open>The program.\<close> A maker turns decimal quotes into integer ticks and lots, packs them into a compact
  frame of three 32-byte words, signs the frame with EIP-712 and either publishes it over a
  WebSocket (\<open>Maker.Publish\<close>) or submits it on chain (\<open>Maker.SubmitFrameUpdate\<close>). A router
  subscribes to frames over a WebSocket (\<open>Router.Subscribe\<close>), receives them through a bounded
  channel, quotes a trade locally (\<open>router.Quote\<close>) and builds swap calldata
  (\<open>router.BuildSwap\<close>). Both use the same reconnecting client (\<open>internal/\<close>), the same on-chain
  client (\<open>pkg/protocol\<close>) and the same HTTP client for chains and pairs (\<open>pkg/listing\<close>).

  \<^bold>\<open>Theories and sources\<close> (paths below \<open>src/\<close>).
  \<^item> \<open>Takapu_Prelude\<close>: error sums (\<open>attempt\<close>, \<open>reject\<close>, \<open>wrap_err\<close>) with their success rules, machine
    words and bytes, the shared lemmas. \<open>Go_Library\<close>, \<open>Go_JSON\<close>, \<open>Go_Channel\<close>: what the code uses of
    Go's \<open>math/big\<close>, \<open>strings\<close>, \<open>encoding/binary\<close>, \<open>encoding/json\<close>, \<open>net/url\<close> and channels, the
    last behind the locale \<open>bounded_fifo\<close>.
  \<^item> \<open>Frame_Codec\<close> (\<open>pkg/frame/codec.go\<close>, \<open>frame.go\<close>): the 96 bytes of a frame, byte by byte. Encoding and
    decoding are inverse to each other in both directions, the encoder accepts exactly the valid
    specifications, an accepted book is never crossed.
  \<^item> \<open>Frame_Decimal\<close> (\<open>decimal.go\<close>): the readable prices and amounts are exact.
  \<^item> \<open>Wire_Messages\<close> (\<open>pkg/types\<close>): the protobuf messages as records, their oneofs as datatypes.
  \<^item> \<open>Frame_Signing\<close> (\<open>signing.go\<close>, \<open>prepare.go\<close>): digest, normalization, signing, verification; the
    digest binds chain, protocol, maker and frame; local and remote signing agree.
  \<^item> \<open>Maker_Quote\<close> (\<open>pkg/maker/quote.go\<close>): rounding of decimal quotes; it never favours the taker, never wraps and
    always yields an encodable frame.
  \<^item> \<open>Router_Quote\<close> (\<open>pkg/router/quote.go\<close>): matching against a book, refined to matching over
    integers with the roundings written out.
  \<^item> \<open>Protocol_Decay\<close>, \<open>Protocol_Client\<close>, \<open>Protocol_Properties\<close> (\<open>pkg/protocol\<close>): decay on machine words,
    reads, swaps, transactions, receipts, reverts. \<open>Router_Swap\<close> (\<open>pkg/router/swap.go\<close>,
    \<open>pkg/maker/maker.go\<close>): swap building, down to the arguments of the packed call, and on-chain submission.
  \<^item> \<open>Listing_Client\<close>, \<open>Listing_Properties\<close> (\<open>pkg/listing\<close>): queries, strict decoding, errors.
  \<^item> \<open>Stream_Config\<close> (\<open>internal/config.go\<close>, \<open>errors.go\<close>, \<open>constants.go\<close>, the delays of \<open>reconnect.go\<close>),
    \<open>Stream_Wire\<close> (\<open>wire.go\<close>), \<open>Stream_Client\<close> (\<open>client.go\<close>, \<open>connection.go\<close>, \<open>types.go\<close>),
    \<open>Stream_Operations\<close> (\<open>subscription.go\<close>, \<open>quote.go\<close>, \<open>maker.go\<close>, \<open>router.go\<close>, the rest of
    \<open>reconnect.go\<close>): one definition per critical section of the client's mutex.
  \<^item> \<open>Stream_Invariant\<close>, \<open>Stream_Evolution\<close>: what every operation keeps, and how the state can change.
    \<open>Stream_System\<close>: the run goroutine, callers, restoration and the network as the step relation
    \<open>stream_step\<close>; the locale \<open>step_system\<close> carries invariants to all reachable worlds.
    \<open>Stream_Safety\<close> interprets it on the client. \<open>Stream_Properties\<close>, \<open>Stream_Behaviour\<close>: the
    properties of all interleavings and of single operations.
  \<^item> \<open>Public_API\<close> (\<open>internal/listing.go\<close>, \<open>DialMaker\<close>, \<open>DialRouter\<close>, \<open>Maker.Publish\<close>): the parts
    composed. A dialed client is a reachable world of the step system; what \<open>Publish\<close> writes is
    the signed encoding of the rounded quote.
  \<^item> \<open>Stream_Callers\<close>: the heartbeat goroutine and sessions that are over: a connection that was given up is
    never current again, and what is still done in its name does not touch the rest of the client.
  \<^item> \<open>Maker_Example\<close> (\<open>examples/maker\<close>): the application that publishes quotes. Its version file is a second
    step system (\<open>version_step\<close>, interpreted as \<open>versions\<close>) with crashes and restarts as steps: no version
    is issued twice.
  \<^item> \<open>Maker_Events\<close>, \<open>Maker_Publishing\<close>, \<open>Publishing_Properties\<close> (\<open>examples/maker/publish.go\<close>): the publishing
    loop with its two goroutines, the SDK's client and both event channels as the step relation
    \<open>publish_step\<close>, a third instance of \<open>step_system\<close> (\<open>publishing\<close>). Events reach the handler in the order the
    client emitted them and none is lost at exit; from every reachable state the loop can return; a nil result
    means that every quote was written.
  \<^item> \<open>Router_Example\<close>, \<open>Router_Example_Properties\<close> (\<open>examples/router\<close>): the application that caches and
    displays frames. One turn of its event loop is \<open>run_turn\<close>; the loop is the step system \<open>run_step\<close>
    (\<open>router_app\<close>), joined to the SDK's: a frame the SDK delivers is cached if it is still current when the
    status is read and discarded otherwise, only current ones are shown,
    the swap's minimum follows from the quote.
  \<^item> \<open>Redaction\<close> (the four \<open>redact\<close> functions of \<open>examples\<close>): no secret survives in what they return, and
    other text is unchanged; JSON keys and numbers are left as they are, as the source intends.
    \<open>Listing_Example\<close> (\<open>examples/listing\<close>), \<open>Protocol_Example\<close> and \<open>Rpc_Example\<close> (\<open>examples/protocol\<close>): the
    remaining applications, down to the fixture of the offline tour, whose frames are evaluated.
  \<^item> \<open>Example_Mains\<close> (the four \<open>main.go\<close> of \<open>examples\<close>): what each program does with its flags, from the checks to
    the exit. A run of the maker releases its lock and only advances the versions on disk; a router that
    has connected asks for exactly the configured filters.

  \<^bold>\<open>Modelling.\<close> Go integers of a fixed width are words of that width, \<open>big.Int\<close> is \<open>int\<close>, a nil pointer is
  \<open>None\<close>, an error result is a sum with the error on the left, and each early return is a
  branch. Strings are byte lists. A call that reads a clock, a context or the network takes what it
  observes as an argument: a context is a function from the number of the query to its error
  (\<open>ctx\<close>), the outcome of a socket operation a record (\<open>dial_io\<close>, \<open>write_io\<close>). A channel is a
  buffer with its capacity and a closed flag; a send on a closed channel, a second close and a send
  that would block under the mutex set the state's fault, which is proved never to happen.

  \<^bold>\<open>Parameters.\<close> \<open>ethlib\<close>: Keccak-256, signature recovery, padding, address text, \<open>proto.Clone\<close>.
  \<open>hexlib\<close>: parsing of hex addresses. \<open>chainlib\<close> and the RPC record of \<open>Protocol_Client\<close>: ABI coding,
  transaction hashing and recovery, \<open>bind.RawTransact\<close> with what it broadcasts, the node. \<open>protolib\<close>: protobuf wire coding.
  \<open>netlib\<close>: URL parsing and the HTTP exchange with its tokenized JSON body. Each hypothesis about them is
  named in the theorem that needs it and holds of the small instance its witness uses.

  \<^bold>\<open>Bounds and fuel.\<close> The search for revert data (\<open>nestedRevertBytes\<close>) carries the source's own depth
  limit. The receipt loop (\<open>wait_loop\<close>) is a function of the number of polling rounds; the theorem says it returns
  exactly when some round is decisive. All other loops are structural.

  \<^bold>\<open>Not modelled.\<close> The generated reflection and wire coding of \<open>pkg/types\<close>; the embedded ABI documents and
  their parser; sockets, timers, files and HTTP themselves; the printed texts of most errors; the methods
  of \<open>pkg/maker\<close> and \<open>pkg/router\<close> that only forward a call; of the examples, flag parsing, signal
  handling and the format of log lines.
\<close>

end
